(* ===== verification/Prelude.thy ===== *)
theory Prelude
  imports Main "HOL-Library.AList" "HOL-Library.Monad_Syntax"
begin

text \<open>
  What the components of the shell share: C strings, the \<open>ctype.h\<close> tests, byte reads at a
  position, and the collections of facts that the component proofs use.

  A C string is the list of its bytes before the terminating NUL.  A \<open>const char *\<close> that
  walks over a string is the suffix that it points at; a function of the code that takes a
  string and an offset takes both here too.  A read at the terminator yields the NUL byte:
  \<open>peek\<close> is \<open>*p\<close> and \<open>at s i\<close> is \<open>s[i]\<close>.
\<close>

section \<open>Collections of facts\<close>

named_theorems shrinks \<open>the rest that a scanner returns is no longer than its input\<close>
named_theorems wf_intros \<open>well-formedness of what an operation returns\<close>

section \<open>Byte reads\<close>

abbreviation NUL :: char where "NUL \<equiv> CHR 0x00"
abbreviation TAB :: char where "TAB \<equiv> CHR 0x09"
abbreviation NL :: char where "NL \<equiv> CHR 0x0A"
abbreviation SQ :: char where "SQ \<equiv> CHR 0x27"
abbreviation DQ :: char where "DQ \<equiv> CHR 0x22"
abbreviation BSL :: char where "BSL \<equiv> CHR 0x5C"

definition at :: "string \<Rightarrow> nat \<Rightarrow> char" where
  "at s i = (if i < length s then s ! i else NUL)"

fun peek :: "string \<Rightarrow> char" where
  "peek [] = NUL"
| "peek (c # p) = c"

lemma at_0 [simp]: "at s 0 = peek s"
  by (cases s) (simp_all add: at_def)

lemma at_Nil [simp]: "at [] i = NUL"
  by (simp add: at_def)

lemma at_Cons_Suc [simp]: "at (c # s) (Suc i) = at s i"
  by (simp add: at_def)

lemma at_Cons_numeral [simp]: "at (c # s) (numeral k) = at s (pred_numeral k)"
  by (simp add: numeral_eq_Suc)

lemma at_append: "at (xs @ ys) i = (if i < length xs then xs ! i else at ys (i - length xs))"
  by (auto simp: at_def nth_append)

lemma at_drop: "at (drop n s) i = at s (n + i)"
  by (auto simp: at_def)

lemma at_NUL_free: "NUL \<notin> set s \<Longrightarrow> at s i = NUL \<longleftrightarrow> length s \<le> i"
  by (metis at_def linorder_not_le nth_mem)

lemma peek_append: "peek (xs @ ys) = (if xs = [] then peek ys else peek xs)"
  by (cases xs) auto

lemma at_not_NUL: "at s i \<noteq> NUL \<Longrightarrow> i < length s"
  by (auto simp: at_def split: if_splits)

section \<open>The character classes of \<open>ctype.h\<close> in the C locale\<close>

definition isspace :: "char \<Rightarrow> bool" where
  "isspace c \<longleftrightarrow> c \<in> {CHR '' '', CHR 0x09, CHR 0x0A, CHR 0x0B, CHR 0x0C, CHR 0x0D}"

definition code :: "char \<Rightarrow> nat" where
  "code c = of_char c"

definition isdigit :: "char \<Rightarrow> bool" where
  "isdigit c \<longleftrightarrow> 48 \<le> code c \<and> code c \<le> 57"

definition isalpha :: "char \<Rightarrow> bool" where
  "isalpha c \<longleftrightarrow> (65 \<le> code c \<and> code c \<le> 90) \<or> (97 \<le> code c \<and> code c \<le> 122)"

definition isalnum :: "char \<Rightarrow> bool" where
  "isalnum c \<longleftrightarrow> isalpha c \<or> isdigit c"

lemmas ctype_defs = isspace_def isdigit_def isalpha_def isalnum_def code_def

lemma isspace_NUL [simp]: "\<not> isspace NUL"
  by (simp add: isspace_def)

lemma ctype_NUL [simp]: "\<not> isalpha NUL" "\<not> isdigit NUL" "\<not> isalnum NUL"
  by (simp_all add: ctype_defs)

definition digit_val :: "char \<Rightarrow> nat" where
  "digit_val c = code c - 48"

lemma digit_val_le: "isdigit c \<Longrightarrow> digit_val c \<le> 9"
  unfolding isdigit_def digit_val_def by linarith

text \<open>The loop \<open>while (*p && isspace(*p)) p++\<close> and its offset form \<open>skip_ws_pos\<close>.\<close>

fun skip_space :: "string \<Rightarrow> string" where
  "skip_space [] = []"
| "skip_space (c # p) = (if isspace c then skip_space p else c # p)"

lemma skip_space_dropWhile: "skip_space p = dropWhile isspace p"
  by (induction p) auto

lemma length_skip_space [shrinks, simp]: "length (skip_space p) \<le> length p"
  by (induction p) auto

lemma peek_skip_space [simp]: "\<not> isspace (peek (skip_space p))"
  by (induction p) auto

lemma skip_space_idem [simp]: "skip_space (skip_space p) = skip_space p"
  by (induction p) auto

lemma skip_space_id: "\<not> isspace (peek p) \<Longrightarrow> skip_space p = p"
  by (cases p) auto

text \<open>\<open>strchr\<close>, split at the first occurrence of a byte.\<close>

fun split_at :: "char \<Rightarrow> string \<Rightarrow> (string \<times> string) option" where
  "split_at c [] = None"
| "split_at c (x # s) =
     (if x = c then Some ([], s)
      else map_option (\<lambda>(a, b). (x # a, b)) (split_at c s))"

lemma split_at_Some: "split_at c s = Some (a, b) \<longleftrightarrow> s = a @ c # b \<and> c \<notin> set a"
proof (induction s arbitrary: a)
  case Nil
  then show ?case by simp
next
  case (Cons x s)
  then show ?case by (cases a) (auto split: option.splits)
qed

lemma split_at_None: "split_at c s = None \<longleftrightarrow> c \<notin> set s"
  by (induction s) auto

section \<open>Decimal output\<close>

text \<open>\<open>snprintf\<close> with \<open>%u\<close> and \<open>%d\<close>.\<close>

fun show_nat :: "nat \<Rightarrow> string" where
  "show_nat n =
     (if n < 10 then [char_of (48 + n)] else show_nat (n div 10) @ [char_of (48 + n mod 10)])"

declare show_nat.simps [simp del]

definition show_int :: "int \<Rightarrow> string" where
  "show_int i = (if i < 0 then CHR ''-'' # show_nat (nat (- i)) else show_nat (nat i))"

lemma code_digit: "d < 10 \<Longrightarrow> code (char_of (48 + d :: nat)) = 48 + d"
  by (simp add: code_def)

lemma isdigit_digit: "d < 10 \<Longrightarrow> isdigit (char_of (48 + d :: nat))"
  by (simp add: isdigit_def code_digit)

lemma show_nat_digits: "\<forall>c \<in> set (show_nat n). isdigit c"
proof (induction n rule: show_nat.induct)
  case (1 n)
  then show ?case
    by (subst show_nat.simps) (auto simp: isdigit_digit)
qed

lemma show_nat_nonempty: "show_nat n \<noteq> []"
  by (subst show_nat.simps) simp

end
