(* ===== verification/Spans.thy ===== *)
theory Spans
  imports Prelude
begin

text \<open>
  The extent of \<open>$(...)\<close> and \<open>$((...))\<close> in a line (\<open>src/mid/parser.c\<close>): the lexer, the
  list parser and the expander all skip a group as one unit, so they depend on the same
  scanner.  \<open>cmdsubst_span\<close> and \<open>arith_span\<close> return the length of the paren_text with its
  delimiters, 0 when the text does not start a group or the group is not closed.
  The grammar \<open>paren_text\<close> says which texts can stand between the parentheses; the scanner is
  shown sound and complete for it.
\<close>

section \<open>The scanner\<close>

definition is_quote :: "char \<Rightarrow> bool" where
  "is_quote c \<longleftrightarrow> c = DQ \<or> c = SQ"

text \<open>
  The loop of both span functions: \<open>d\<close> is \<open>depth\<close>, \<open>q\<close> the open quote (0 is
  \<open>None\<close>), \<open>n\<close> the distance \<open>s - p\<close>.  The result is the depth at the end and that
  distance.
\<close>

fun span_loop :: "string \<Rightarrow> nat \<Rightarrow> char option \<Rightarrow> nat \<Rightarrow> nat \<times> nat" where
  "span_loop [] d q n = (d, n)"
| "span_loop (c # s) d q n =
     (if d = 0 then (0, n)
      else case q of
        Some qc \<Rightarrow> span_loop s d (if c = qc then None else q) (Suc n)
      | None \<Rightarrow>
          if c = SQ \<or> c = DQ then span_loop s d (Some c) (Suc n)
          else if c = CHR ''('' then span_loop s (Suc d) None (Suc n)
          else if c = CHR '')'' then span_loop s (d - 1) None (Suc n)
          else span_loop s d None (Suc n))"

definition cmdsubst_span :: "string \<Rightarrow> nat" where
  "cmdsubst_span p =
     (if peek p \<noteq> CHR ''$'' \<or> at p 1 \<noteq> CHR ''('' \<or> at p 2 = CHR ''('' then 0
      else case span_loop (drop 2 p) 1 None 2 of
        (d, n) \<Rightarrow> if d \<noteq> 0 then 0 else n)"

definition arith_span :: "string \<Rightarrow> nat" where
  "arith_span p =
     (if peek p \<noteq> CHR ''$'' \<or> at p 1 \<noteq> CHR ''('' \<or> at p 2 \<noteq> CHR ''('' then 0
      else case span_loop (drop 3 p) 2 None 3 of
        (d, n) \<Rightarrow> if d \<noteq> 0 then 0 else n)"

definition dollar_group_span :: "string \<Rightarrow> nat" where
  "dollar_group_span p = (let a = arith_span p in if a > 0 then a else cmdsubst_span p)"

section \<open>The grammar of a group\<close>

inductive paren_text :: "string \<Rightarrow> bool" where
  text_nil: "paren_text []"
| text_plain: "c \<notin> {SQ, DQ, CHR ''('', CHR '')''} \<Longrightarrow> paren_text w \<Longrightarrow> paren_text (c # w)"
| text_quoted: "is_quote q \<Longrightarrow> q \<notin> set v \<Longrightarrow> paren_text w \<Longrightarrow> paren_text (q # v @ q # w)"
| text_paren: "paren_text v \<Longrightarrow> paren_text w \<Longrightarrow> paren_text (CHR ''('' # v @ CHR '')'' # w)"

text \<open>\<open>groups d s rest\<close>: \<open>s\<close> is \<open>d\<close> groups, each with its closing parenthesis, then
  \<open>rest\<close>.\<close>

fun groups :: "nat \<Rightarrow> string \<Rightarrow> string \<Rightarrow> bool" where
  "groups 0 s rest \<longleftrightarrow> s = rest"
| "groups (Suc d) s rest \<longleftrightarrow>
     (\<exists>w s'. s = w @ CHR '')'' # s' \<and> paren_text w \<and> groups d s' rest)"

lemma groups_SucI:
  "s = w @ CHR '')'' # s' \<Longrightarrow> paren_text w \<Longrightarrow> groups d s' rest \<Longrightarrow> groups (Suc d) s rest"
  by auto

lemma length_groups: "groups d s rest \<Longrightarrow> length rest \<le> length s"
  by (induction d arbitrary: s) fastforce+

lemma span_loop_zero [simp]: "span_loop s 0 q n = (0, n)"
  by (cases s) auto

lemma span_loop_quoted:
  "q \<notin> set v \<Longrightarrow> span_loop (v @ q # w) (Suc d) (Some q) n
     = span_loop w (Suc d) None (n + length v + 1)"
  by (induction v arbitrary: n) auto

lemma span_loop_group:
  "paren_text w \<Longrightarrow> span_loop (w @ r) (Suc d) None n = span_loop r (Suc d) None (n + length w)"
proof (induction w arbitrary: d n r rule: paren_text.induct)
  case (text_quoted q v w)
  then show ?case
    by (auto simp: is_quote_def span_loop_quoted add.commute add.left_commute)
next
  case (text_paren v w)
  have "span_loop (CHR ''('' # v @ CHR '')'' # (w @ r)) (Suc d) None n
      = span_loop (v @ CHR '')'' # (w @ r)) (Suc (Suc d)) None (Suc n)" by simp
  also have "\<dots> = span_loop (w @ r) (Suc d) None (n + length v + 2)"
    by (subst text_paren.IH(1)) simp
  finally show ?case
    by (simp add: text_paren.IH(2) add.assoc)
qed auto

lemma span_loop_groups:
  "groups d s rest \<Longrightarrow> span_loop s d None n = (0, n + (length s - length rest))"
proof (induction d arbitrary: s n)
  case 0
  then show ?case by simp
next
  case (Suc d)
  then obtain w s' where s: "s = w @ CHR '')'' # s'" and w: "paren_text w" and g: "groups d s' rest"
    by auto
  have le: "length rest \<le> length s'" by (rule length_groups [OF g])
  have "span_loop s (Suc d) None n = span_loop s' d None (n + length w + 1)"
    by (simp add: s span_loop_group [OF w])
  also have "\<dots> = (0, n + length w + 1 + (length s' - length rest))"
    by (rule Suc.IH [OF g])
  finally show ?case
    using le by (simp add: s)
qed

text \<open>A quoted stretch, a plain byte or a nested group may be put in front.\<close>

lemma groups_plain:
  assumes "c \<notin> {SQ, DQ, CHR ''('', CHR '')''}" and "groups (Suc d) s rest"
  shows "groups (Suc d) (c # s) rest"
proof -
  from assms(2) obtain w s' where "s = w @ CHR '')'' # s'" "paren_text w" "groups d s' rest" by auto
  then show ?thesis
    by (intro groups_SucI [where w = "c # w"]) (auto intro: text_plain [OF assms(1)])
qed

lemma groups_quoted:
  assumes "is_quote q" and "q \<notin> set v" and "groups (Suc d) s rest"
  shows "groups (Suc d) (q # v @ q # s) rest"
proof -
  from assms(3) obtain w s' where "s = w @ CHR '')'' # s'" "paren_text w" "groups d s' rest" by auto
  then show ?thesis
    by (intro groups_SucI [where w = "q # v @ q # w"]) (auto intro: text_quoted [OF assms(1,2)])
qed

lemma groups_open:
  assumes "groups (Suc (Suc d)) s rest"
  shows "groups (Suc d) (CHR ''('' # s) rest"
proof -
  from assms obtain v w s' where "s = v @ CHR '')'' # w @ CHR '')'' # s'"
      "paren_text v" "paren_text w" "groups d s' rest" by auto
  then show ?thesis
    by (intro groups_SucI [where w = "CHR ''('' # v @ CHR '')'' # w"]) (auto intro: text_paren)
qed

lemma groups_close: "groups d s rest \<Longrightarrow> groups (Suc d) (CHR '')'' # s) rest"
  by (rule groups_SucI [where w = "[]"]) (auto intro: text_nil)

text \<open>\<open>inside d q s rest\<close>: what the scanner still has to read, with a quote open or not.\<close>

fun inside :: "nat \<Rightarrow> char option \<Rightarrow> string \<Rightarrow> string \<Rightarrow> bool" where
  "inside d None s rest \<longleftrightarrow> groups d s rest"
| "inside d (Some q) s rest \<longleftrightarrow> (\<exists>v s'. s = v @ q # s' \<and> q \<notin> set v \<and> groups d s' rest)"

lemma inside_SomeI:
  "s = v @ q # s' \<Longrightarrow> q \<notin> set v \<Longrightarrow> groups d s' rest \<Longrightarrow> inside d (Some q) s rest"
  by auto

lemma inside_quote_step:
  assumes "inside d (if c = q then None else Some q) s rest"
  shows "inside d (Some q) (c # s) rest"
proof (cases "c = q")
  case True
  with assms show ?thesis by (intro inside_SomeI [where v = "[]"]) auto
next
  case False
  with assms obtain v s' where "s = v @ q # s'" "q \<notin> set v" "groups d s' rest" by auto
  with False show ?thesis by (intro inside_SomeI [where v = "c # v"]) auto
qed

lemma inside_open_quote:
  "is_quote c \<Longrightarrow> inside (Suc d) (Some c) s rest \<Longrightarrow> groups (Suc d) (c # s) rest"
  using groups_quoted by (auto simp del: groups.simps)

lemma span_loop_sound:
  "span_loop s d q n = (0, m) \<Longrightarrow> d = 0 \<longrightarrow> q = None \<Longrightarrow>
     \<exists>u rest. s = u @ rest \<and> m = n + length u \<and> inside d q s rest"
proof (induction s d q n rule: span_loop.induct)
  case (1 d q n)
  then show ?case by simp
next
  case (2 c s d q n)
  show ?case
  proof (cases d)
    case 0
    with 2 show ?thesis by auto
  next
    case (Suc d')
    have step: ?thesis
      if "\<exists>u rest. s = u @ rest \<and> m = Suc n + length u \<and> inside e r s rest"
        and "\<And>rest. inside e r s rest \<Longrightarrow> inside d q (c # s) rest" for e r
      using that by (metis add_Suc_shift append_Cons length_Cons)
    show ?thesis
    proof (cases q)
      case (Some qc)
      with 2 Suc show ?thesis
        by (intro step [where e = d and r = "if c = qc then None else Some qc"])
          (auto simp del: inside.simps intro: inside_quote_step)
    next
      case None
      consider (q) "is_quote c" | (opn) "c = CHR ''(''" | (cls) "c = CHR '')''"
        | (plain) "c \<notin> {SQ, DQ, CHR ''('', CHR '')''}"
        by (auto simp: is_quote_def)
      then show ?thesis
      proof cases
        case q
        with 2 None Suc show ?thesis
          by (intro step [where e = d and r = "Some c"])
            (auto simp: is_quote_def inside_open_quote simp del: inside.simps(2) groups.simps)
      next
        case opn
        with 2 None Suc show ?thesis
          by (intro step [where e = "Suc d" and r = None])
            (auto simp del: groups.simps intro: groups_open)
      next
        case cls
        with 2 None Suc show ?thesis
          by (intro step [where e = d' and r = None])
            (auto simp del: groups.simps intro: groups_close)
      next
        case plain
        with 2 None Suc show ?thesis
          by (intro step [where e = d and r = None])
            (auto simp del: groups.simps intro: groups_plain)
      qed
    qed
  qed
qed

section \<open>What a span is\<close>

lemma paren_text_not_close: "paren_text w \<Longrightarrow> w \<noteq> CHR '')'' # v"
  by (induction w rule: paren_text.induct) (auto simp: is_quote_def)

lemma cmdsubst_span_group:
  assumes "paren_text w" and "peek w \<noteq> CHR ''(''"
  shows "cmdsubst_span (''$('' @ w @ '')'' @ r) = length w + 3"
proof -
  have "groups 1 (w @ CHR '')'' # r) r"
    using assms(1) by auto
  from span_loop_groups [OF this, of 2] have
    "span_loop (w @ CHR '')'' # r) 1 None 2 = (0, length w + 3)" by simp
  with assms(2) show ?thesis
    by (cases w) (simp_all add: cmdsubst_span_def)
qed

lemma arith_span_group:
  assumes "paren_text v" and "paren_text w"
  shows "arith_span (''$(('' @ v @ '')'' @ w @ '')'' @ r) = length v + length w + 5"
proof -
  have "groups 2 (v @ CHR '')'' # w @ CHR '')'' # r) r"
    using assms by (auto simp: numeral_2_eq_2)
  from span_loop_groups [OF this, of 3] show ?thesis
    by (simp add: arith_span_def)
qed

lemma cmdsubst_span_sound:
  assumes "0 < cmdsubst_span p"
  obtains w r where "p = ''$('' @ w @ '')'' @ r" and "paren_text w" and "peek w \<noteq> CHR ''(''"
    and "cmdsubst_span p = length w + 3"
proof -
  from assms have p: "peek p = CHR ''$''" "at p 1 = CHR ''(''" "at p 2 \<noteq> CHR ''(''"
    and "case span_loop (drop 2 p) 1 None 2 of (d, n) \<Rightarrow> d = 0"
    by (auto simp: cmdsubst_span_def split: if_splits prod.splits)
  then obtain m where m: "span_loop (drop 2 p) 1 None 2 = (0, m)" by auto
  from span_loop_sound [OF m] obtain w s' where
    d: "drop 2 p = w @ CHR '')'' # s'" and w: "paren_text w" by auto
  from p d have eq: "p = ''$('' @ w @ '')'' @ s'"
    by (cases p; cases "tl p") auto
  then have "peek w \<noteq> CHR ''(''"
    using p(3) by (cases w) auto
  with eq w show thesis
    using that cmdsubst_span_group by blast
qed

lemma arith_span_sound:
  assumes "0 < arith_span p"
  obtains v w r where "p = ''$(('' @ v @ '')'' @ w @ '')'' @ r" and "paren_text v"
    and "paren_text w" and "arith_span p = length v + length w + 5"
proof -
  from assms have p: "peek p = CHR ''$''" "at p 1 = CHR ''(''" "at p 2 = CHR ''(''"
    and "case span_loop (drop 3 p) 2 None 3 of (d, n) \<Rightarrow> d = 0"
    by (auto simp: arith_span_def split: if_splits prod.splits)
  then obtain m where m: "span_loop (drop 3 p) 2 None 3 = (0, m)" by auto
  from span_loop_sound [OF m] obtain v w s' where
    d: "drop 3 p = v @ CHR '')'' # w @ CHR '')'' # s'" and vw: "paren_text v" "paren_text w"
    by (auto simp: numeral_2_eq_2)
  from p d have "p = ''$(('' @ v @ '')'' @ w @ '')'' @ s'"
    by (cases p; cases "tl p"; cases "tl (tl p)") auto
  with vw show thesis
    using that arith_span_group by blast
qed

lemma cmdsubst_span_le [simp]: "cmdsubst_span p \<le> length p"
  by (cases "cmdsubst_span p = 0") (auto elim: cmdsubst_span_sound)

lemma arith_span_le [simp]: "arith_span p \<le> length p"
  by (cases "arith_span p = 0") (auto elim: arith_span_sound)

lemma dollar_group_span_le [simp]: "dollar_group_span p \<le> length p"
  by (simp add: dollar_group_span_def Let_def)

lemma length_drop_group [shrinks]:
  "0 < dollar_group_span p \<Longrightarrow> length (drop (dollar_group_span p) p) < length p"
  using dollar_group_span_le [of p] unfolding length_drop by linarith

lemma arith_span_cmdsubst_span: "0 < arith_span p \<Longrightarrow> cmdsubst_span p = 0"
  by (auto simp: arith_span_def cmdsubst_span_def)

lemma dollar_group_span_0: "peek p \<noteq> CHR ''$'' \<Longrightarrow> dollar_group_span p = 0"
  by (simp add: dollar_group_span_def cmdsubst_span_def arith_span_def)

text \<open>
  C32. The scan for a command substitution is sound and complete: it returns a positive length
  exactly when the text starts with a dollar sign, an opening parenthesis that is not doubled,
  a text that is balanced outside its quotes, and the closing parenthesis; the length is that
  of this unit, so nothing of the line behind the group is skipped.
\<close>

theorem cmdsubst_span_iff:
  "0 < cmdsubst_span p \<and> cmdsubst_span p = n \<longleftrightarrow>
     (\<exists>w r. p = ''$('' @ w @ '')'' @ r \<and> paren_text w \<and> peek w \<noteq> CHR ''('' \<and> n = length w + 3)"
  by (auto simp del: append_Cons append_Nil elim!: cmdsubst_span_sound simp: cmdsubst_span_group)

end
