(* ===== verification/Ast.thy ===== *)
theory Ast
  imports Prelude
begin

text \<open>
  The syntax trees that the parser builds and the dispatcher runs
  (\<open>include/petrush/parser.h\<close>).  An owned \<open>char *\<close> that may be NULL is an option; an
  array with its count is a list, so \<open>argc\<close> is \<open>length (argv c)\<close>.  Allocation is
  taken to succeed, so the code's out-of-memory exits have no counterpart.
\<close>

section \<open>One stage of a pipeline\<close>

text \<open>
  \<open>argv_quoted\<close> runs parallel to \<open>argv\<close>: 0 unquoted, 1 single and 2 double quoted;
  NULL stands for all unquoted.
\<close>

record cmd =
  argv :: "string list"
  argv_quoted :: "nat list option"
  redir_in :: "string option"
  redir_out :: "string option"
  redir_append :: bool
  redir_err :: "string option"
  redir_err_append :: bool
  redir_err_to_out :: bool
  here_delim :: "string option"
  here_body :: "string option"
  here_quoted :: bool
  here_strip :: bool
  here_skip_delims :: "string list"
  here_feed_i :: nat

abbreviation argc :: "cmd \<Rightarrow> nat" where "argc c \<equiv> length (argv c)"

text \<open>\<open>memset(cmd, 0, sizeof(*cmd))\<close>.\<close>

definition cmd_zero :: cmd where
  "cmd_zero = \<lparr>argv = [], argv_quoted = None, redir_in = None, redir_out = None,
     redir_append = False, redir_err = None, redir_err_append = False, redir_err_to_out = False,
     here_delim = None, here_body = None, here_quoted = False, here_strip = False,
     here_skip_delims = [], here_feed_i = 0\<rparr>"

type_synonym pipeline = "cmd list"

section \<open>Lists of commands\<close>

datatype run_cond = Cond_Always | Cond_And | Cond_Or

datatype list_item = Item (body_of: item_body) (cond_of: run_cond) (background: bool)
and item_body =
    Pipeline "cmd list"
  | If_Item "if_arm list"
  | While_Item "list_item list" "list_item list"
  | For_Item string "string list" "list_item list"
  | Fn_Item string "list_item list"
  | Case_Item string "case_arm list"
  | Dbracket_Item "string list" "nat list"
and if_arm = If_Arm (arm_cond: "list_item list") (arm_body: "list_item list") (is_else: bool)
and case_arm = Case_Arm (arm_patterns: "string list") (case_body: "list_item list")

type_synonym plist = "list_item list"

section \<open>Well-formed trees\<close>

text \<open>A stage names a command, its two arrays are parallel, standard error has one target and
  standard input one source, and no line of a here-document has been read yet.\<close>

definition cmd_wf :: "cmd \<Rightarrow> bool" where
  "cmd_wf c \<longleftrightarrow> argv c \<noteq> [] \<and>
     (\<forall>qs. argv_quoted c = Some qs \<longrightarrow> length qs = argc c) \<and>
     (redir_err_to_out c \<longrightarrow> redir_err c = None) \<and>
     (redir_in c \<noteq> None \<longrightarrow> here_delim c = None) \<and>
     (here_delim c = None \<longrightarrow> here_skip_delims c = []) \<and>
     here_body c = None \<and> here_feed_i c = 0"

text \<open>A list starts with an unconditional item.\<close>

definition starts_always :: "plist \<Rightarrow> bool" where
  "starts_always l \<longleftrightarrow> (l \<noteq> [] \<longrightarrow> cond_of (hd l) = Cond_Always)"

fun item_wf :: "list_item \<Rightarrow> bool"
and body_wf :: "item_body \<Rightarrow> bool"
and if_arm_wf :: "if_arm \<Rightarrow> bool"
and case_arm_wf :: "case_arm \<Rightarrow> bool" where
  "item_wf (Item b c bg) = body_wf b"
| "body_wf (Pipeline cs) = list_all cmd_wf cs"
| "body_wf (If_Item arms) = (arms \<noteq> [] \<and> list_all if_arm_wf arms)"
| "body_wf (While_Item c b) =
     (c \<noteq> [] \<and> list_all item_wf c \<and> starts_always c \<and> list_all item_wf b \<and> starts_always b)"
| "body_wf (For_Item n ws b) =
     (n \<noteq> [] \<and> [] \<notin> set ws \<and> list_all item_wf b \<and> starts_always b)"
| "body_wf (Fn_Item n b) = (n \<noteq> [] \<and> list_all item_wf b \<and> starts_always b)"
| "body_wf (Case_Item w arms) = (w \<noteq> [] \<and> list_all case_arm_wf arms)"
| "body_wf (Dbracket_Item ws qs) = (length qs = length ws \<and> [] \<notin> set ws)"
| "if_arm_wf (If_Arm c b e) =
     ((c = [] \<longleftrightarrow> e) \<and> list_all item_wf c \<and> starts_always c \<and> list_all item_wf b \<and> starts_always b)"
| "case_arm_wf (Case_Arm ps b) =
     (ps \<noteq> [] \<and> [] \<notin> set ps \<and> list_all item_wf b \<and> starts_always b)"

definition plist_wf :: "plist \<Rightarrow> bool" where
  "plist_wf l \<longleftrightarrow> list_all item_wf l \<and> starts_always l"

end
