(* ===== verification/Lexer.thy ===== *)
theory Lexer
  imports Spans Ast
begin

text \<open>
  Tokens and pipelines (\<open>src/mid/parser.c\<close>, up to \<open>petrush_parse\<close>): the operators, the
  three word scanners, the tokenizer and the builder of a pipeline stage.  A scanner returns
  the rest of its input with its result; that the rest is shorter is what makes the loops stop.
\<close>

section \<open>Tokens\<close>

datatype tok_kind = TOK_WORD | TOK_PIPE | TOK_LT | TOK_DLESS | TOK_DLESSDASH | TOK_GT
  | TOK_GTGT | TOK_ERRGT | TOK_ERRGTGT | TOK_ERRTOOUT | TOK_AMPGT

record token =
  tkind :: tok_kind
  ttext :: "string option"
  tquoted :: nat

definition try_consume_simple_op :: "string \<Rightarrow> (tok_kind \<times> string) option" where
  "try_consume_simple_op p =
     (if peek p = CHR ''|'' then Some (TOK_PIPE, drop 1 p)
      else if peek p = CHR ''<'' then
        (if at p 1 = CHR ''<'' then
           (if at p 2 = CHR ''-'' then Some (TOK_DLESSDASH, drop 3 p)
            else Some (TOK_DLESS, drop 2 p))
         else Some (TOK_LT, drop 1 p))
      else if peek p = CHR ''&'' \<and> at p 1 = CHR ''>'' then Some (TOK_AMPGT, drop 2 p)
      else if peek p = CHR ''>'' then
        (if at p 1 = CHR ''>'' then Some (TOK_GTGT, drop 2 p) else Some (TOK_GT, drop 1 p))
      else None)"

datatype err_redir = No_Redir | Redir tok_kind string | Bad_Redir

definition try_consume_err_redir :: "string \<Rightarrow> err_redir" where
  "try_consume_err_redir p =
     (if \<not> (peek p = CHR ''2'' \<and> at p 1 = CHR ''>'') then No_Redir
      else if at p 2 = CHR ''>'' then Redir TOK_ERRGTGT (drop 3 p)
      else if at p 2 = CHR ''&'' then
        (if at p 3 = CHR ''1'' then
           (let after = at p 4 in
            if after = NUL \<or> isspace after \<or> after \<in> {CHR ''|'', CHR ''<'', CHR ''>'', CHR ''&''}
            then Redir TOK_ERRTOOUT (drop 4 p) else Bad_Redir)
         else Bad_Redir)
      else Redir TOK_ERRGT (drop 2 p))"

section \<open>The word scanners\<close>

text \<open>
  \<open>scan_word\<close>, \<open>scan_for_word\<close> and \<open>scan_case_pattern\<close> are one loop with three
  sets of terminators.  \<open>quoted_end\<close> runs to behind the closing quote, \<open>bare_end\<close> to the
  first blank or terminator that is not inside a dollar group.
\<close>

fun quoted_end :: "char \<Rightarrow> string \<Rightarrow> string" where
  "quoted_end q [] = []"
| "quoted_end q (c # p) = (if c = q then p else quoted_end q p)"

function bare_end :: "(string \<Rightarrow> bool) \<Rightarrow> string \<Rightarrow> string" where
  "bare_end stop p =
     (if p = [] \<or> isspace (peek p) \<or> stop p then p
      else if 0 < dollar_group_span p then bare_end stop (drop (dollar_group_span p) p)
      else bare_end stop (tl p))"
  by pat_completeness auto
termination
  by (relation "measure (\<lambda>(stop, p). length p)")
    (auto simp del: length_drop simp: length_drop_group)

declare bare_end.simps [simp del]

text \<open>The text of a word: the bytes between \<open>start\<close> and the end, less a closing quote.\<close>

definition scan_with :: "(string \<Rightarrow> bool) \<Rightarrow> string \<Rightarrow> string \<times> nat \<times> string" where
  "scan_with stop p =
     (if is_quote (peek p) then
        (let start = tl p; rest = quoted_end (peek p) start;
             len = length start - length rest;
             len' = (if 0 < len \<and> start ! (len - 1) = peek p then len - 1 else len)
         in (take len' start, if peek p = SQ then 1 else 2, rest))
      else (let rest = bare_end stop p in (take (length p - length rest) p, 0, rest)))"

definition word_stop :: "string \<Rightarrow> bool" where
  "word_stop p \<longleftrightarrow> peek p \<in> {CHR ''|'', CHR ''<'', CHR ''>''} \<or>
     (peek p = CHR ''&'' \<and> at p 1 = CHR ''>'')"

definition scan_word :: "string \<Rightarrow> string \<times> nat \<times> string" where
  "scan_word = scan_with word_stop"

section \<open>The tokenizer\<close>

lemma length_quoted_end [shrinks]: "length (quoted_end q p) \<le> length p"
  by (induction p) auto

lemma length_bare_end [shrinks]: "length (bare_end stop p) \<le> length p"
proof (induction stop p rule: bare_end.induct)
  case (1 stop p)
  show ?case
  proof (cases "p = [] \<or> isspace (peek p) \<or> stop p")
    case True
    then show ?thesis by (subst bare_end.simps) simp
  next
    case False
    with 1 show ?thesis
      by (subst bare_end.simps) (auto intro: le_trans)
  qed
qed

lemma bare_end_less:
  assumes "p \<noteq> []" and "\<not> isspace (peek p)" and "\<not> stop p"
  shows "length (bare_end stop p) < length p"
proof (cases "0 < dollar_group_span p")
  case True
  have "length (bare_end stop (drop (dollar_group_span p) p)) < length p"
    using length_bare_end length_drop_group [OF True] by (rule le_less_trans)
  with assms True show ?thesis by (subst bare_end.simps) simp
next
  case False
  have "length (bare_end stop (tl p)) < length p"
    using length_bare_end [of stop "tl p"] assms(1) by (cases p) auto
  with assms False show ?thesis by (subst bare_end.simps) simp
qed

lemma scan_with_le [shrinks]: "scan_with stop p = (t, q, r) \<Longrightarrow> length r \<le> length p"
  using length_bare_end [of stop p] length_quoted_end [of "peek p" "tl p"]
  by (auto simp: scan_with_def Let_def split: if_splits)

lemma scan_with_less [shrinks]:
  assumes "scan_with stop p = (t, q, r)" and "p \<noteq> []" and "\<not> isspace (peek p)"
    and "is_quote (peek p) \<or> \<not> stop p"
  shows "length r < length p"
proof (cases "is_quote (peek p)")
  case True
  have "length (quoted_end (peek p) (tl p)) < length p"
    using length_quoted_end [of "peek p" "tl p"] assms(2) by (cases p) auto
  with True assms(1) show ?thesis by (auto simp: scan_with_def Let_def)
next
  case False
  with assms bare_end_less [of p stop] show ?thesis by (auto simp: scan_with_def Let_def)
qed

lemma simple_op_less [shrinks]: "try_consume_simple_op p = Some (k, r) \<Longrightarrow> length r < length p"
  by (cases p) (auto simp: try_consume_simple_op_def split: if_splits)

lemma err_redir_less [shrinks]: "try_consume_err_redir p = Redir k r \<Longrightarrow> length r < length p"
  by (cases p) (auto simp: try_consume_err_redir_def Let_def split: if_splits)

lemma not_op_not_stop: "try_consume_simple_op p = None \<Longrightarrow> \<not> word_stop p"
  by (auto simp: try_consume_simple_op_def word_stop_def split: if_splits)

text \<open>One round of the tokenizer's loop at a byte that is not blank.\<close>

definition next_token :: "string \<Rightarrow> (token \<times> string) option" where
  "next_token p =
     (let word = (case scan_word p of (t, q, r) \<Rightarrow>
            Some (\<lparr>tkind = TOK_WORD, ttext = Some t, tquoted = q\<rparr>, r))
      in if is_quote (peek p) then word
         else case try_consume_simple_op p of
           Some (k, r) \<Rightarrow> Some (\<lparr>tkind = k, ttext = None, tquoted = 0\<rparr>, r)
         | None \<Rightarrow> (case try_consume_err_redir p of
             Bad_Redir \<Rightarrow> None
           | Redir k r \<Rightarrow> Some (\<lparr>tkind = k, ttext = None, tquoted = 0\<rparr>, r)
           | No_Redir \<Rightarrow> word))"

lemma next_token_less [shrinks]:
  assumes "next_token p = Some (t, r)" and "p \<noteq> []" and "\<not> isspace (peek p)"
  shows "length r < length p"
  using assms not_op_not_stop [of p]
  by (auto simp: next_token_def Let_def scan_word_def
      split: if_splits option.splits prod.splits err_redir.splits
      intro: simple_op_less err_redir_less scan_with_less)

function tokenize :: "string \<Rightarrow> token list option" where
  "tokenize input =
     (let p = skip_space input in
      if p = [] then Some []
      else case next_token p of
        None \<Rightarrow> None
      | Some (t, r) \<Rightarrow> map_option ((#) t) (tokenize r))"
  by pat_completeness auto
termination
proof (relation "measure length", goal_cases)
  case 1
  then show ?case by simp
next
  case (2 input p y t r)
  then have "length r < length p" using next_token_less by auto
  with 2 show ?case by (auto intro: less_le_trans [OF _ length_skip_space])
qed

declare tokenize.simps [simp del]

section \<open>Building a stage\<close>

definition token_text :: "token \<Rightarrow> string" where
  "token_text t = (case ttext t of None \<Rightarrow> [] | Some w \<Rightarrow> w)"

definition push_arg :: "string \<Rightarrow> nat \<Rightarrow> cmd \<Rightarrow> cmd" where
  "push_arg w q c = c\<lparr>argv := argv c @ [w],
     argv_quoted := Some ((case argv_quoted c of None \<Rightarrow> [] | Some qs \<Rightarrow> qs) @ [q])\<rparr>"

definition here_clear :: "cmd \<Rightarrow> cmd" where
  "here_clear c = c\<lparr>here_delim := None, here_body := None, here_quoted := False,
     here_strip := False, here_skip_delims := [], here_feed_i := 0\<rparr>"

definition merge_err :: "cmd \<Rightarrow> cmd" where
  "merge_err c = c\<lparr>redir_err := None, redir_err_append := False, redir_err_to_out := True\<rparr>"

text \<open>One redirection with its path or delimiter; a later one wins over an earlier one.\<close>

definition apply_redir :: "tok_kind \<Rightarrow> string \<Rightarrow> nat \<Rightarrow> cmd \<Rightarrow> cmd option" where
  "apply_redir k path path_quoted c =
     (if k \<in> {TOK_DLESS, TOK_DLESSDASH} then
        Some (c\<lparr>redir_in := None,
          here_skip_delims := (case here_delim c of None \<Rightarrow> here_skip_delims c
             | Some d \<Rightarrow> here_skip_delims c @ [d]),
          here_body := None, here_delim := Some path, here_quoted := path_quoted \<noteq> 0,
          here_strip := (k = TOK_DLESSDASH), here_feed_i := 0\<rparr>)
      else if k = TOK_LT then Some ((here_clear c)\<lparr>redir_in := Some path\<rparr>)
      else if k \<in> {TOK_GT, TOK_GTGT} then
        Some (c\<lparr>redir_out := Some path, redir_append := (k = TOK_GTGT)\<rparr>)
      else if k \<in> {TOK_ERRGT, TOK_ERRGTGT} then
        Some (c\<lparr>redir_err := Some path, redir_err_append := (k = TOK_ERRGTGT),
          redir_err_to_out := False\<rparr>)
      else if k = TOK_AMPGT then
        Some (merge_err (c\<lparr>redir_out := Some path, redir_append := False\<rparr>))
      else None)"

fun build_loop :: "token list \<Rightarrow> cmd \<Rightarrow> cmd option" where
  "build_loop [] c = Some c"
| "build_loop (t # ts) c =
     (if tkind t = TOK_WORD then build_loop ts (push_arg (token_text t) (tquoted t) c)
      else if tkind t = TOK_PIPE then None
      else if tkind t = TOK_ERRTOOUT then build_loop ts (merge_err c)
      else case ts of
        [] \<Rightarrow> None
      | w # ts' \<Rightarrow>
          if tkind w \<noteq> TOK_WORD then None
          else case apply_redir (tkind t) (token_text w) (tquoted w) c of
            None \<Rightarrow> None
          | Some c' \<Rightarrow> build_loop ts' c')"

definition build_stage :: "token list \<Rightarrow> cmd option" where
  "build_stage toks =
     (case build_loop toks (cmd_zero\<lparr>argv_quoted := Some []\<rparr>) of
        None \<Rightarrow> None
      | Some c \<Rightarrow> if argc c = 0 then None else Some c)"

section \<open>Pipelines\<close>

text \<open>
  The stage loop of \<open>petrush_parse_pipeline\<close>: a stage runs to the next pipe; an empty stage
  before a pipe and a pipe at the end are errors.
\<close>

fun stages_loop :: "token list \<Rightarrow> token list \<Rightarrow> pipeline option" where
  "stages_loop stage [] = map_option (\<lambda>c. [c]) (build_stage (rev stage))"
| "stages_loop stage (t # ts) =
     (if tkind t = TOK_PIPE then
        if stage = [] then None
        else case build_stage (rev stage) of
          None \<Rightarrow> None
        | Some c \<Rightarrow> if ts = [] then None else map_option ((#) c) (stages_loop [] ts)
      else stages_loop (t # stage) ts)"

definition petrush_parse_pipeline :: "string \<Rightarrow> pipeline option" where
  "petrush_parse_pipeline input =
     (if input = [] then Some []
      else case tokenize input of
        None \<Rightarrow> None
      | Some toks \<Rightarrow> if toks = [] then Some [] else stages_loop [] toks)"

definition petrush_parse :: "string \<Rightarrow> cmd option" where
  "petrush_parse input =
     (case petrush_parse_pipeline input of
        None \<Rightarrow> None
      | Some [] \<Rightarrow> Some cmd_zero
      | Some [c] \<Rightarrow> Some c
      | Some _ \<Rightarrow> None)"

section \<open>Every stage is well-formed\<close>

text \<open>What the builder keeps while it reads tokens: all of \<open>cmd_wf\<close> but that an argument
  has been seen, and the flags of an absent redirection are clear.\<close>

definition stage_inv :: "cmd \<Rightarrow> bool" where
  "stage_inv c \<longleftrightarrow> (\<exists>qs. argv_quoted c = Some qs \<and> length qs = argc c) \<and>
     (redir_err_to_out c \<longrightarrow> redir_err c = None) \<and>
     (redir_in c \<noteq> None \<longrightarrow> here_delim c = None) \<and>
     (here_delim c = None \<longrightarrow> here_skip_delims c = [] \<and> \<not> here_quoted c \<and> \<not> here_strip c) \<and>
     (redir_out c = None \<longrightarrow> \<not> redir_append c) \<and>
     (redir_err c = None \<longrightarrow> \<not> redir_err_append c) \<and>
     here_body c = None \<and> here_feed_i c = 0"

lemma stage_inv_zero: "stage_inv (cmd_zero\<lparr>argv_quoted := Some []\<rparr>)"
  by (simp add: stage_inv_def cmd_zero_def)

lemma stage_inv_push_arg: "stage_inv c \<Longrightarrow> stage_inv (push_arg w q c)"
  by (auto simp: stage_inv_def push_arg_def)

lemma stage_inv_merge_err: "stage_inv c \<Longrightarrow> stage_inv (merge_err c)"
  by (auto simp: stage_inv_def merge_err_def)

lemma stage_inv_apply_redir: "stage_inv c \<Longrightarrow> apply_redir k p q c = Some c' \<Longrightarrow> stage_inv c'"
  by (cases k)
    (simp_all add: apply_redir_def merge_err_def here_clear_def,
      (hypsubst, simp add: stage_inv_def)+)

lemma stage_inv_build_loop: "build_loop ts c = Some c' \<Longrightarrow> stage_inv c \<Longrightarrow> stage_inv c'"
proof (induction ts c arbitrary: c' rule: build_loop.induct)
  case (2 t ts c)
  then show ?case
    by (auto split: if_splits list.splits option.splits
        intro: stage_inv_push_arg stage_inv_merge_err dest: stage_inv_apply_redir)
qed auto

lemma build_stage_inv: "build_stage ts = Some c \<Longrightarrow> stage_inv c \<and> argv c \<noteq> []"
  using stage_inv_build_loop stage_inv_zero
  by (auto simp: build_stage_def split: option.splits if_splits)

lemma stage_inv_cmd_wf: "stage_inv c \<Longrightarrow> argv c \<noteq> [] \<Longrightarrow> cmd_wf c"
  by (auto simp: stage_inv_def cmd_wf_def)

lemma stages_loop_inv:
  "stages_loop st ts = Some cs \<Longrightarrow> cs \<noteq> [] \<and> list_all (\<lambda>c. stage_inv c \<and> argv c \<noteq> []) cs"
proof (induction st ts arbitrary: cs rule: stages_loop.induct)
  case (1 stage)
  then show ?case by (auto dest: build_stage_inv)
next
  case (2 stage t ts)
  then show ?case by (auto split: if_splits option.splits dest: build_stage_inv)
qed

lemma parse_pipeline_inv:
  "petrush_parse_pipeline s = Some cs \<Longrightarrow> list_all (\<lambda>c. stage_inv c \<and> argv c \<noteq> []) cs"
  by (auto simp: petrush_parse_pipeline_def split: if_splits option.splits dest: stages_loop_inv)

lemma parse_pipeline_wf [wf_intros]:
  "petrush_parse_pipeline s = Some cs \<Longrightarrow> list_all cmd_wf cs"
  by (drule parse_pipeline_inv) (auto simp: list_all_iff intro: stage_inv_cmd_wf)

end
