(* ===== verification/Render.thy ===== *)
theory Render
  imports Lexer
begin

text \<open>
  A printer for tokens and pipelines, and the round trip: what is printed is parsed back.  The
  printer is not part of the shell; it states what the lexer and the stage builder accept, with
  words of each quoting level and redirections of each kind.
\<close>

section \<open>Printing tokens\<close>

definition plain_char :: "char \<Rightarrow> bool" where
  "plain_char c \<longleftrightarrow> \<not> isspace c \<and>
     c \<notin> {CHR ''|'', CHR ''<'', CHR ''>'', CHR ''&'', CHR ''$'', SQ, DQ}"

definition plain :: "string \<Rightarrow> bool" where
  "plain w \<longleftrightarrow> w \<noteq> [] \<and> list_all plain_char w"

text \<open>A text that can be written with the given quoting level, and so that it is read back.\<close>

definition writable :: "string \<Rightarrow> nat \<Rightarrow> bool" where
  "writable w q \<longleftrightarrow> (q = 0 \<and> plain w) \<or> (q = 1 \<and> SQ \<notin> set w) \<or> (q = 2 \<and> DQ \<notin> set w)"

definition render_word :: "string \<Rightarrow> nat \<Rightarrow> string" where
  "render_word w q = (if q = 0 then w else if q = 1 then SQ # w @ [SQ] else DQ # w @ [DQ])"

fun render_op :: "tok_kind \<Rightarrow> string" where
  "render_op TOK_WORD = []"
| "render_op TOK_PIPE = ''|''"
| "render_op TOK_LT = ''<''"
| "render_op TOK_DLESS = ''<<''"
| "render_op TOK_DLESSDASH = ''<<-''"
| "render_op TOK_GT = ''>''"
| "render_op TOK_GTGT = ''>>''"
| "render_op TOK_ERRGT = ''2>''"
| "render_op TOK_ERRGTGT = ''2>>''"
| "render_op TOK_ERRTOOUT = ''2>&1''"
| "render_op TOK_AMPGT = ''&>''"

definition word_tok :: "string \<Rightarrow> nat \<Rightarrow> token" where
  "word_tok w q = \<lparr>tkind = TOK_WORD, ttext = Some w, tquoted = q\<rparr>"

definition op_tok :: "tok_kind \<Rightarrow> token" where
  "op_tok k = \<lparr>tkind = k, ttext = None, tquoted = 0\<rparr>"

definition render_tok :: "token \<Rightarrow> string" where
  "render_tok t = (if tkind t = TOK_WORD then render_word (token_text t) (tquoted t)
     else render_op (tkind t))"

fun render :: "token list \<Rightarrow> string" where
  "render [] = []"
| "render (t # ts) = render_tok t @ CHR '' '' # render ts"

definition printable :: "token \<Rightarrow> bool" where
  "printable t \<longleftrightarrow> (\<exists>w q. t = word_tok w q \<and> writable w q) \<or> (\<exists>k. k \<noteq> TOK_WORD \<and> t = op_tok k)"

lemma printable_word [simp]: "printable (word_tok w q) \<longleftrightarrow> writable w q"
  by (auto simp: printable_def word_tok_def op_tok_def)

lemma printable_op [simp]: "printable (op_tok k) \<longleftrightarrow> k \<noteq> TOK_WORD"
  by (auto simp: printable_def word_tok_def op_tok_def)

section \<open>The lexer reads a printed token\<close>

lemma quoted_end_append: "q \<notin> set w \<Longrightarrow> quoted_end q (w @ q # r) = r"
  by (induction w) auto

lemma scan_quoted:
  "q \<notin> set w \<Longrightarrow> is_quote q \<Longrightarrow>
     scan_with stop (q # w @ q # r) = (w, if q = SQ then 1 else 2, r)"
  by (simp add: scan_with_def Let_def quoted_end_append nth_append)

lemma plain_no_op:
  assumes "plain_char c"
  shows "\<not> is_quote c" "try_consume_simple_op (c # p) = None" "\<not> word_stop (c # p)"
    "dollar_group_span (c # p) = 0"
  using assms by (auto simp: plain_char_def is_quote_def try_consume_simple_op_def word_stop_def
      intro: dollar_group_span_0)

lemma bare_end_plain: "list_all plain_char w \<Longrightarrow> bare_end word_stop (w @ CHR '' '' # r) = CHR '' '' # r"
proof (induction w)
  case Nil
  then show ?case by (subst bare_end.simps) (simp add: isspace_def)
next
  case (Cons c w)
  then have c: "plain_char c" by simp
  then have "\<not> isspace c" by (simp add: plain_char_def)
  with Cons plain_no_op [OF c] show ?case by (subst bare_end.simps) simp
qed

lemma next_token_plain:
  assumes "plain w"
  shows "next_token (w @ CHR '' '' # r) = Some (word_tok w 0, CHR '' '' # r)"
proof -
  from assms obtain c v where w: "w = c # v" and c: "plain_char c" and v: "list_all plain_char v"
    by (cases w) (auto simp: plain_def)
  have "at (v @ CHR '' '' # r) 0 \<noteq> CHR ''>''"
    using v by (cases v) (auto simp: plain_char_def)
  then have "try_consume_err_redir (w @ CHR '' '' # r) = No_Redir"
    by (simp add: w try_consume_err_redir_def)
  moreover have "scan_word (w @ CHR '' '' # r) = (w, 0, CHR '' '' # r)"
    using plain_no_op [OF c] bare_end_plain [of w r] assms
    by (simp add: w scan_word_def scan_with_def Let_def plain_def)
  ultimately show ?thesis
    using plain_no_op [OF c] by (simp add: w next_token_def word_tok_def)
qed

lemma next_token_quoted:
  assumes "q \<notin> set w" and "is_quote q"
  shows "next_token (q # w @ q # r) = Some (word_tok w (if q = SQ then 1 else 2), r)"
  using assms scan_quoted [of q w word_stop r]
  by (simp add: next_token_def scan_word_def word_tok_def Let_def)

lemma next_token_op:
  "k \<noteq> TOK_WORD \<Longrightarrow> next_token (render_op k @ CHR '' '' # r) = Some (op_tok k, CHR '' '' # r)"
  by (cases k)
    (simp_all add: next_token_def is_quote_def try_consume_simple_op_def
      try_consume_err_redir_def op_tok_def isspace_def Let_def split: prod.splits)

lemma next_token_render:
  assumes "printable t"
  shows "next_token (render_tok t @ CHR '' '' # r) = Some (t, CHR '' '' # r)"
  using assms unfolding printable_def
proof (elim disjE exE conjE)
  fix w q
  assume t: "t = word_tok w q" and "writable w q"
  then consider "q = 0" "plain w" | "q = 1" "SQ \<notin> set w" | "q = 2" "DQ \<notin> set w"
    by (auto simp: writable_def)
  then show ?thesis
    using next_token_quoted [of SQ w "CHR '' '' # r"] next_token_quoted [of DQ w "CHR '' '' # r"]
    by cases (simp_all add: t render_tok_def render_word_def word_tok_def token_text_def
        next_token_plain is_quote_def)
next
  fix k
  assume "k \<noteq> TOK_WORD" and "t = op_tok k"
  then show ?thesis
    using next_token_op by (simp add: render_tok_def op_tok_def)
qed

lemma render_tok_head:
  assumes "printable t"
  shows "render_tok t \<noteq> []" and "\<not> isspace (peek (render_tok t @ r))"
proof -
  from assms consider (w) w q where "t = word_tok w q" "writable w q"
    | (op) k where "k \<noteq> TOK_WORD" "t = op_tok k" by (auto simp: printable_def)
  then have "render_tok t \<noteq> [] \<and> \<not> isspace (peek (render_tok t @ r))"
  proof cases
    case w
    then show ?thesis
      by (cases w) (auto simp: render_tok_def render_word_def word_tok_def token_text_def
          writable_def plain_def plain_char_def isspace_def)
  next
    case op
    then show ?thesis by (cases k) (auto simp: render_tok_def op_tok_def isspace_def)
  qed
  then show "render_tok t \<noteq> []" and "\<not> isspace (peek (render_tok t @ r))" by auto
qed

lemma tokenize_space: "tokenize (CHR '' '' # r) = tokenize r"
  by (subst (1 2) tokenize.simps) (simp add: isspace_def)

lemma tokenize_render: "list_all printable ts \<Longrightarrow> tokenize (render ts) = Some ts"
proof (induction ts)
  case Nil
  then show ?case by (subst tokenize.simps) simp
next
  case (Cons t ts)
  then have t: "printable t" by simp
  have "skip_space (render (t # ts)) = render (t # ts)"
    using render_tok_head(2) [OF t] by (intro skip_space_id) simp
  with render_tok_head(1) [OF t] Cons show ?case
    by (subst tokenize.simps) (simp add: Let_def next_token_render tokenize_space)
qed

section \<open>Printing stages\<close>

definition quote_for :: "string \<Rightarrow> nat" where
  "quote_for w = (if SQ \<in> set w then 2 else 1)"

definition quotable :: "string \<Rightarrow> bool" where
  "quotable w \<longleftrightarrow> SQ \<notin> set w \<or> DQ \<notin> set w"

lemma writable_quote_for: "quotable w \<Longrightarrow> writable w (quote_for w)"
  by (auto simp: quotable_def quote_for_def writable_def)

definition redir_toks :: "tok_kind \<Rightarrow> string option \<Rightarrow> token list" where
  "redir_toks k p = (case p of None \<Rightarrow> [] | Some w \<Rightarrow> [op_tok k, word_tok w (quote_for w)])"

definition skip_toks :: "string list \<Rightarrow> token list" where
  "skip_toks ds = concat (map (\<lambda>d. redir_toks TOK_DLESS (Some d)) ds)"

definition here_toks :: "cmd \<Rightarrow> token list" where
  "here_toks c = (case here_delim c of
     None \<Rightarrow> []
   | Some d \<Rightarrow> [op_tok (if here_strip c then TOK_DLESSDASH else TOK_DLESS),
       word_tok d (if here_quoted c then quote_for d else 0)])"

definition arg_toks :: "cmd \<Rightarrow> token list" where
  "arg_toks c = map2 word_tok (argv c) (case argv_quoted c of None \<Rightarrow> [] | Some qs \<Rightarrow> qs)"

definition cmd_toks :: "cmd \<Rightarrow> token list" where
  "cmd_toks c = arg_toks c @ skip_toks (here_skip_delims c) @ here_toks c
     @ redir_toks TOK_LT (redir_in c)
     @ redir_toks (if redir_append c then TOK_GTGT else TOK_GT) (redir_out c)
     @ redir_toks (if redir_err_append c then TOK_ERRGTGT else TOK_ERRGT) (redir_err c)
     @ (if redir_err_to_out c then [op_tok TOK_ERRTOOUT] else [])"

definition cmd_printable :: "cmd \<Rightarrow> bool" where
  "cmd_printable c \<longleftrightarrow> stage_inv c \<and> argv c \<noteq> [] \<and>
     list_all2 writable (argv c) (case argv_quoted c of None \<Rightarrow> [] | Some qs \<Rightarrow> qs) \<and>
     list_all quotable (here_skip_delims c) \<and>
     (\<forall>d. here_delim c = Some d \<longrightarrow> (if here_quoted c then quotable d else plain d)) \<and>
     pred_option quotable (redir_in c) \<and> pred_option quotable (redir_out c) \<and>
     pred_option quotable (redir_err c)"

fun pipeline_toks :: "pipeline \<Rightarrow> token list" where
  "pipeline_toks [] = []"
| "pipeline_toks [c] = cmd_toks c"
| "pipeline_toks (c # cs) = cmd_toks c @ op_tok TOK_PIPE # pipeline_toks cs"

definition render_pipeline :: "pipeline \<Rightarrow> string" where
  "render_pipeline cs = render (pipeline_toks cs)"

lemma printable_redir_toks [simp]:
  "k \<noteq> TOK_WORD \<Longrightarrow> list_all printable (redir_toks k p) \<longleftrightarrow> pred_option (\<lambda>w. writable w (quote_for w)) p"
  by (cases p) (auto simp: redir_toks_def)

lemma printable_arg_toks: "list_all2 writable ws qs \<Longrightarrow> list_all printable (map2 word_tok ws qs)"
  by (induction rule: list_all2_induct) auto

lemma printable_cmd_toks:
  assumes "cmd_printable c"
  shows "list_all printable (cmd_toks c)"
proof -
  have "list_all printable (skip_toks ds)" if "list_all quotable ds" for ds
    using that by (induction ds) (auto simp: skip_toks_def writable_quote_for)
  moreover have "list_all printable (here_toks c)"
    using assms by (auto simp: cmd_printable_def here_toks_def writable_quote_for writable_def [of _ 0]
        split: option.splits if_splits)
  ultimately show ?thesis
    using assms
    by (auto simp: cmd_printable_def cmd_toks_def arg_toks_def printable_arg_toks
        pred_option_def writable_quote_for split: if_splits)
qed

lemma printable_pipeline_toks:
  "list_all cmd_printable cs \<Longrightarrow> list_all printable (pipeline_toks cs)"
  by (induction cs rule: pipeline_toks.induct) (auto simp: printable_cmd_toks)

section \<open>The builder reads a printed stage\<close>

text \<open>The stage under construction, before any redirection but the here-documents.\<close>

definition stage_of ::
    "string list \<Rightarrow> nat list \<Rightarrow> string list \<Rightarrow> string option \<Rightarrow> bool \<Rightarrow> bool \<Rightarrow> cmd" where
  "stage_of ws qs skips d hq hs = \<lparr>argv = ws, argv_quoted = Some qs, redir_in = None,
     redir_out = None, redir_append = False, redir_err = None, redir_err_append = False,
     redir_err_to_out = False, here_delim = d, here_body = None, here_quoted = hq,
     here_strip = hs, here_skip_delims = skips, here_feed_i = 0\<rparr>"

lemma build_loop_args:
  "length ws = length qs \<Longrightarrow>
     build_loop (map2 word_tok ws qs @ ts) (stage_of us ps [] None False False)
     = build_loop ts (stage_of (us @ ws) (ps @ qs) [] None False False)"
  by (induction ws qs arbitrary: us ps rule: list_induct2)
    (simp_all add: word_tok_def push_arg_def token_text_def stage_of_def)

lemma build_loop_here:
  "K \<in> {TOK_DLESS, TOK_DLESSDASH} \<Longrightarrow>
     build_loop (skip_toks ds @ op_tok K # word_tok d q # ts) (stage_of ws qs sk dl hq hs)
     = build_loop ts (stage_of ws qs (sk @ (case dl of None \<Rightarrow> [] | Some e \<Rightarrow> [e]) @ ds)
         (Some d) (q \<noteq> 0) (K = TOK_DLESSDASH))"
proof (induction ds arbitrary: sk dl hq hs)
  case Nil
  then show ?case
    by (auto simp: skip_toks_def op_tok_def word_tok_def token_text_def apply_redir_def
        stage_of_def split: option.splits)
next
  case (Cons x ds)
  have "build_loop (skip_toks (x # ds) @ op_tok K # word_tok d q # ts) (stage_of ws qs sk dl hq hs)
      = build_loop (skip_toks ds @ op_tok K # word_tok d q # ts)
          (stage_of ws qs (sk @ (case dl of None \<Rightarrow> [] | Some e \<Rightarrow> [e])) (Some x) True False)"
    by (auto simp: skip_toks_def redir_toks_def op_tok_def word_tok_def token_text_def
        apply_redir_def stage_of_def quote_for_def split: option.splits)
  then show ?case
    by (simp add: Cons.IH [OF Cons.prems])
qed

lemmas redir_steps = redir_toks_def op_tok_def word_tok_def token_text_def
  apply_redir_def here_clear_def merge_err_def stage_of_def

text \<open>The redirections that follow the here-documents fill in the remaining fields.\<close>

lemma build_loop_files:
  assumes "inp \<noteq> None \<longrightarrow> d = None \<and> skips = [] \<and> \<not> hq \<and> \<not> hs"
    and "out = None \<longrightarrow> \<not> app" and "err = None \<longrightarrow> \<not> eapp" and "merge \<longrightarrow> err = None"
  shows "build_loop (redir_toks TOK_LT inp
     @ redir_toks (if app then TOK_GTGT else TOK_GT) out
     @ redir_toks (if eapp then TOK_ERRGTGT else TOK_ERRGT) err
     @ (if merge then [op_tok TOK_ERRTOOUT] else [])) (stage_of ws qs skips d hq hs)
     = Some ((stage_of ws qs skips d hq hs)\<lparr>redir_in := inp, redir_out := out,
         redir_append := app, redir_err := err, redir_err_append := eapp,
         redir_err_to_out := merge\<rparr>)"
  using assms
  by (cases inp; cases out; cases err; cases merge; cases app; cases eapp)
    (simp_all add: redir_steps)

lemma build_stage_cmd_toks:
  assumes "cmd_printable c"
  shows "build_stage (cmd_toks c) = Some c"
proof -
  from assms have inv: "stage_inv c" and ne: "argv c \<noteq> []" by (auto simp: cmd_printable_def)
  then obtain qs where qs: "argv_quoted c = Some qs" "length (argv c) = length qs"
    by (auto simp: stage_inv_def)
  let ?files = "redir_toks TOK_LT (redir_in c)
     @ redir_toks (if redir_append c then TOK_GTGT else TOK_GT) (redir_out c)
     @ redir_toks (if redir_err_append c then TOK_ERRGTGT else TOK_ERRGT) (redir_err c)
     @ (if redir_err_to_out c then [op_tok TOK_ERRTOOUT] else [])"
  let ?st = "stage_of (argv c) qs (here_skip_delims c) (here_delim c) (here_quoted c) (here_strip c)"
  have q: "quote_for d \<noteq> 0" for d by (simp add: quote_for_def)
  have "build_loop (skip_toks (here_skip_delims c) @ here_toks c @ ?files)
      (stage_of (argv c) qs [] None False False) = build_loop ?files ?st"
  proof (cases "here_delim c")
    case None
    with inv show ?thesis by (simp add: stage_inv_def here_toks_def skip_toks_def)
  next
    case (Some d)
    then show ?thesis
      using q by (simp add: here_toks_def build_loop_here)
  qed
  also have "\<dots> = Some (?st\<lparr>redir_in := redir_in c, redir_out := redir_out c,
      redir_append := redir_append c, redir_err := redir_err c,
      redir_err_append := redir_err_append c, redir_err_to_out := redir_err_to_out c\<rparr>)"
    using inv by (intro build_loop_files) (auto simp: stage_inv_def)
  also have "\<dots> = Some c"
    using inv qs by (cases c) (simp add: stage_of_def stage_inv_def)
  finally have "build_loop (cmd_toks c) (stage_of [] [] [] None False False) = Some c"
    using qs build_loop_args [OF qs(2), of _ "[]" "[]"] by (simp add: cmd_toks_def arg_toks_def)
  then show ?thesis
    using ne by (simp add: build_stage_def cmd_zero_def stage_of_def)
qed

lemma cmd_toks_no_pipe: "\<forall>t \<in> set (cmd_toks c). tkind t \<noteq> TOK_PIPE"
  by (auto simp: cmd_toks_def arg_toks_def skip_toks_def here_toks_def redir_toks_def
      op_tok_def word_tok_def set_zip split: option.splits if_splits)

lemma cmd_toks_nonempty: "cmd_printable c \<Longrightarrow> cmd_toks c \<noteq> []"
  by (auto simp: cmd_printable_def cmd_toks_def arg_toks_def stage_inv_def)

lemma stages_loop_append:
  "\<forall>t \<in> set ts. tkind t \<noteq> TOK_PIPE \<Longrightarrow> stages_loop st (ts @ us) = stages_loop (rev ts @ st) us"
  by (induction ts arbitrary: st) auto

lemma stages_loop_pipeline:
  "list_all cmd_printable cs \<Longrightarrow> cs \<noteq> [] \<Longrightarrow> stages_loop [] (pipeline_toks cs) = Some cs"
proof (induction cs rule: pipeline_toks.induct)
  case (2 c)
  then show ?case
    using stages_loop_append [OF cmd_toks_no_pipe, of "[]" c "[]"]
    by (simp add: build_stage_cmd_toks)
next
  case (3 c d cs)
  have "pipeline_toks (d # cs) \<noteq> []"
    using 3 by (cases cs) (auto simp: cmd_toks_nonempty)
  with 3 show ?case
    using stages_loop_append [OF cmd_toks_no_pipe, of "[]" c]
    by (simp add: build_stage_cmd_toks op_tok_def cmd_toks_nonempty)
qed simp

lemma render_nonempty: "list_all printable ts \<Longrightarrow> ts \<noteq> [] \<Longrightarrow> render ts \<noteq> []"
  by (cases ts) auto

text \<open>
  C4. Round trip of the pipeline parser: every non-empty pipeline whose stages can be
  written down (each argument unquoted, in single quotes or in double quotes, with its
  here-documents and redirections) is printed to a line that parses to the same stages, with
  the same quoting levels, the same redirections and the same order.
\<close>

theorem parse_render_pipeline:
  assumes "cs \<noteq> []" and "list_all cmd_printable cs"
  shows "petrush_parse_pipeline (render_pipeline cs) = Some cs"
proof -
  have ne: "pipeline_toks cs \<noteq> []"
    using assms by (cases cs rule: pipeline_toks.cases) (auto simp: cmd_toks_nonempty)
  with printable_pipeline_toks [OF assms(2)] have "render_pipeline cs \<noteq> []"
    by (simp add: render_pipeline_def render_nonempty)
  with ne show ?thesis
    using tokenize_render [OF printable_pipeline_toks [OF assms(2)]]
      stages_loop_pipeline [OF assms(2,1)]
    by (simp add: petrush_parse_pipeline_def render_pipeline_def)
qed

text \<open>The theorem applies to \<open>cat 'a b' < f | sort 2>> log\<close>.\<close>

definition demo_pipeline :: pipeline where
  "demo_pipeline =
     [(stage_of [''cat'', ''a b''] [0, 1] [] None False False)\<lparr>redir_in := Some ''f''\<rparr>,
      (stage_of [''sort''] [0] [] None False False)\<lparr>redir_err := Some ''log'', redir_err_append := True\<rparr>]"

theorem parse_render_pipeline_witness:
  "petrush_parse_pipeline (render_pipeline demo_pipeline) = Some demo_pipeline"
proof -
  have "demo_pipeline \<noteq> []" by (simp add: demo_pipeline_def)
  moreover have "list_all cmd_printable demo_pipeline"
    by (simp add: demo_pipeline_def cmd_printable_def stage_inv_def stage_of_def writable_def
        plain_def plain_char_def quotable_def isspace_def)
  ultimately show ?thesis by (rule parse_render_pipeline)
qed

end
