(* ===== verification/ParserProps.thy ===== *)
theory ParserProps
  imports ListParser
begin

text \<open>
  What the recursive descent guarantees: a parser that succeeds has moved forward and not past
  the end of the line, the tree that it returns is well-formed, and it does not run out of
  fuel.  The compound parsers rely on the list parser through the locale \<open>sub_parser\<close>, and
  the list parser is shown to keep that contract for the next level of nesting.
\<close>

section \<open>Results of a parser\<close>

text \<open>\<open>presult Q r\<close>: \<open>r\<close> is an error or a value with \<open>Q\<close>; it is not out of fuel.\<close>

fun presult :: "('a \<Rightarrow> nat \<Rightarrow> bool) \<Rightarrow> 'a pres \<Rightarrow> bool" where
  "presult Q PFuel = False"
| "presult Q PFail = True"
| "presult Q (POk x p) = Q x p"

lemma presult_bind:
  "presult P r \<Longrightarrow> (\<And>x p. P x p \<Longrightarrow> presult Q (k x p)) \<Longrightarrow> presult Q (pbind r k)"
  by (cases r) auto

lemma presult_expect: "(\<And>e. m = Some e \<Longrightarrow> presult Q (k e)) \<Longrightarrow> presult Q (expect m k)"
  by (cases m) (auto simp: expect_def)

lemma presult_mono: "presult P r \<Longrightarrow> (\<And>x p. P x p \<Longrightarrow> Q x p) \<Longrightarrow> presult Q r"
  by (cases r) auto

lemma presult_if:
  "(c \<Longrightarrow> presult Q a) \<Longrightarrow> (\<not> c \<Longrightarrow> presult Q b) \<Longrightarrow> presult Q (if c then a else b)"
  by simp

lemma presult_prod: "(\<And>a b. x = (a, b) \<Longrightarrow> presult Q (f a b)) \<Longrightarrow> presult Q (case x of (a, b) \<Rightarrow> f a b)"
  by (cases x) auto

lemma presult_option:
  "(x = None \<Longrightarrow> presult Q n) \<Longrightarrow> (\<And>y. x = Some y \<Longrightarrow> presult Q (f y)) \<Longrightarrow>
     presult Q (case x of None \<Rightarrow> n | Some y \<Rightarrow> f y)"
  by (cases x) auto

lemma presult_fail: "presult Q PFail"
  by simp

lemmas presult_rules = presult_expect presult_if presult_prod presult_option presult_fail

section \<open>Offsets only grow\<close>

named_theorems moves \<open>where a piece of the parser leaves the offset\<close>

lemma match_kw_at_moves [moves]:
  "match_kw_at s pos w = Some e \<Longrightarrow> w \<noteq> [] \<Longrightarrow> pos < e \<and> e \<le> length s"
proof -
  assume m: "match_kw_at s pos w = Some e" and w: "w \<noteq> []"
  define i where "i = skip_ws_pos s pos"
  from m have t: "take (length w) (drop i s) = w" and e: "e = i + length w"
    by (auto simp: match_kw_at_def Let_def i_def split: if_splits)
  from t have "length w \<le> length s - i"
    by (metis length_drop length_take min.cobounded1 min_def)
  with e w skip_ws_pos_ge [of pos s] show ?thesis
    by (cases w) (auto simp: i_def)
qed

lemma brace_moves [moves]:
  "match_lbrace_at s pos = Some e \<Longrightarrow> pos < e \<and> e \<le> length s"
  "match_rbrace_at s pos = Some e \<Longrightarrow> pos < e \<and> e \<le> length s"
  "match_dsemi_at s pos = Some e \<Longrightarrow> pos < e \<and> e \<le> length s"
  using skip_ws_pos_ge [of pos s]
  by (auto simp: match_lbrace_at_def match_rbrace_at_def match_dsemi_at_def Let_def at_def
      split: if_splits)

lemma scan_at_moves [moves]:
  assumes "scan_at scan s pos = (w, q, p)" and "w \<noteq> []"
    and "scan = scan_for_word \<or> scan = scan_case_pattern"
  shows "pos < p \<and> p \<le> length s"
  using assms scan_at_nonempty [of for_stop s pos w q p] scan_at_nonempty [of case_stop s pos w q p]
  by (auto simp: scan_for_word_def scan_case_pattern_def)

lemma scan_fn_name_moves [moves]:
  assumes "scan_fn_name s pos = Some (w, p)"
  shows "pos < p \<and> p \<le> length s \<and> w \<noteq> []"
proof -
  define i where "i = skip_ws_pos s pos"
  from assms have w: "w = at s i # takeWhile is_fn_name_char (drop (i + 1) s)"
    and p: "p = i + length w" and "is_fn_name_start (at s i)"
    by (auto simp: scan_fn_name_def Let_def i_def split: if_splits)
  then have "i < length s"
    by (intro at_not_NUL) (auto simp: is_fn_name_start_def)
  moreover have "length (takeWhile is_fn_name_char (drop (i + 1) s)) \<le> length s - (i + 1)"
    using length_takeWhile_le [of is_fn_name_char "drop (i + 1) s"] by simp
  ultimately show ?thesis
    using w p skip_ws_pos_ge [of pos s] by (simp add: i_def)
qed

lemma match_empty_parens_moves [moves]:
  assumes "match_empty_parens s pos = Some e"
  shows "pos < e \<and> e \<le> length s"
proof -
  define j where "j = skip_ws_pos s (skip_ws_pos s pos + 1)"
  from assms have "at s j = CHR '')''" and e: "e = j + 1"
    by (auto simp: match_empty_parens_def Let_def j_def split: if_splits)
  then have "j < length s" by (auto intro: at_not_NUL)
  with e skip_ws_pos_ge [of pos s] skip_ws_pos_ge [of "skip_ws_pos s pos + 1" s]
  show ?thesis by (simp add: j_def)
qed

lemma for_words_moves [moves]:
  "for_words s pos ws = Some (vs, p) \<Longrightarrow> pos \<le> length s \<Longrightarrow> [] \<notin> set ws \<Longrightarrow>
     pos \<le> p \<and> p \<le> length s \<and> [] \<notin> set vs"
proof (induction s pos ws arbitrary: vs p rule: for_words.induct)
  case (1 s pos ws)
  define i where "i = skip_ws_pos s pos"
  obtain w q j where sc: "scan_at scan_for_word s i = (w, q, j)" by (metis prod_cases3)
  have i: "pos \<le> i" "i \<le> length s"
    using 1 skip_ws_pos_le skip_ws_pos_ge by (auto simp: i_def)
  show ?case
  proof (cases "at s i = NUL \<or> at s i = CHR '';'' \<or> match_kw_at s i ''do'' \<noteq> None \<or> w = []")
    case True
    with "1.prems" i sc at_not_NUL [of s i] show ?thesis
      by (subst (asm) for_words.simps) (auto simp: Let_def i_def split: if_splits)
  next
    case False
    with sc have j: "i < j" "j \<le> length s" using scan_at_moves [OF sc] by auto
    from False "1.prems" sc have "for_words s j (w # ws) = Some (vs, p)"
      by (subst (asm) for_words.simps) (auto simp: Let_def i_def split: if_splits)
    with "1.IH" [OF i_def _ _ _ sc [symmetric] refl] False j "1.prems" i show ?thesis
      by auto
  qed
qed

lemma case_patterns_moves [moves]:
  "case_patterns s pos ws = Some (vs, p) \<Longrightarrow> [] \<notin> set ws \<Longrightarrow>
     pos < p \<and> p \<le> length s \<and> vs \<noteq> [] \<and> [] \<notin> set vs"
proof (induction s pos ws arbitrary: vs p rule: case_patterns.induct)
  case (1 s pos ws)
  define i where "i = skip_ws_pos s pos"
  obtain w q j where sc: "scan_at scan_case_pattern s i = (w, q, j)" by (metis prod_cases3)
  define k where "k = skip_ws_pos s j"
  have ne: "at s i \<noteq> NUL" "w \<noteq> []"
    using "1.prems" sc
    by (subst (asm) case_patterns.simps, auto simp: Let_def i_def split: if_splits)+
  then have ij: "pos \<le> i" "i < j" "j \<le> k" using scan_at_moves [OF sc] by (auto simp: i_def k_def skip_ws_pos_ge)
  show ?case
  proof (cases "at s k = CHR ''|''")
    case True
    with "1.prems" ne sc have "case_patterns s (k + 1) (w # ws) = Some (vs, p)"
      by (subst (asm) case_patterns.simps) (auto simp: Let_def i_def k_def)
    with "1.IH" [OF i_def ne(1) sc [symmetric] refl ne(2) k_def True] "1.prems" ne ij
    show ?thesis by auto
  next
    case False
    with "1.prems" ne sc have "at s k = CHR '')''" "vs = rev (w # ws)" "p = k + 1"
      by (subst (asm) case_patterns.simps, auto simp: Let_def i_def k_def split: if_splits)+
    moreover from this(1) have "k < length s" by (auto intro: at_not_NUL)
    ultimately show ?thesis using ij ne "1.prems" by auto
  qed
qed

lemma dbracket_loop_moves [moves]:
  "dbracket_loop s pos ts = Some (vs, p) \<Longrightarrow> [] \<notin> fst ` set ts \<Longrightarrow>
     pos < p \<and> p \<le> length s \<and> [] \<notin> fst ` set vs"
proof (induction "length s - pos" arbitrary: pos ts rule: less_induct)
  case less
  define i where "i = skip_ws_pos s pos"
  obtain w q j where sc: "scan_at scan_for_word s i = (w, q, j)" by (metis prod_cases3)
  have i: "pos \<le> i" by (simp add: i_def skip_ws_pos_ge)
  have ij: "w \<noteq> [] \<Longrightarrow> i < j" using scan_at_moves [OF sc] by auto
  have ne: "at s i \<noteq> NUL"
    using less.prems by (subst (asm) dbracket_loop.simps) (auto simp: Let_def i_def split: if_splits)
  then have L: "i < length s" by (rule at_not_NUL)
  have IH: "pos < p \<and> p \<le> length s \<and> [] \<notin> fst ` set vs"
    if "dbracket_loop s k (t # ts) = Some (vs, p)" "i < k" "fst t \<noteq> []" for k t
    using less.hyps [of k "t # ts"] that less.prems(2) i L by fastforce
  show ?case
  proof (cases "match_kw_at s i '']]''")
    case (Some e)
    with less.prems ne have "vs = rev ts" "p = e"
      by (subst (asm) dbracket_loop.simps, auto simp: Let_def i_def)+
    with match_kw_at_moves [OF Some] i less.prems show ?thesis by auto
  next
    case None
    from less.prems(1) None ne sc ij show ?thesis
      by (subst (asm) dbracket_loop.simps) (auto simp: Let_def i_def [symmetric] split: if_splits dest: IH)
  qed
qed

lemma find_connector_moves [moves]:
  "find_connector_loop s i q = Some (p, c, n, bg) \<Longrightarrow> i \<le> p \<and> p + n \<le> length s"
proof (induction "length s - i" arbitrary: i q rule: less_induct)
  case less
  from less.prems have L: "i < length s"
    by (subst (asm) find_connector_loop.simps) (auto split: if_splits)
  have IH: "i \<le> p \<and> p + n \<le> length s"
    if "find_connector_loop s j r = Some (p, c, n, bg)" "i < j" for j r
    using less.hyps [of j r] that L by fastforce
  have two: "at s (Suc i) \<noteq> NUL \<Longrightarrow> Suc (Suc i) \<le> length s"
    using at_not_NUL [of s "Suc i"] by auto
  from less.prems L two show ?case
    by (subst (asm) find_connector_loop.simps)
      (auto simp: Let_def split: if_splits option.splits dest: IH)
qed

text \<open>Where a segment's parser stops: behind the connector, or at the end of the line.\<close>

lemma parse_pipeline_item_moves:
  assumes "i \<le> length s"
  shows "case parse_pipeline_item s i c of
      Seg_Fail \<Rightarrow> True
    | Seg_Empty h d p \<Rightarrow> i \<le> p \<and> p \<le> length s
    | Seg pl bg d p \<Rightarrow> i < p \<and> p \<le> length s \<and> list_all cmd_wf pl"
proof -
  define conn where "conn = find_list_connector s i"
  define e where "e = (case conn of None \<Rightarrow> length s | Some (cpos, _) \<Rightarrow> cpos)"
  define seg where "seg =
    rev (dropWhile isspace (rev (dropWhile isspace (take (e - i) (drop i s)))))"
  have conn_le: "i \<le> cpos \<and> cpos + n \<le> length s" if "conn = Some (cpos, d, n, bg)" for cpos d n bg
    using that find_connector_moves by (auto simp: conn_def find_list_connector_def)
  have "seg \<noteq> [] \<Longrightarrow> i < e"
    by (rule ccontr) (simp add: seg_def)
  moreover have "list_all cmd_wf pl" if "petrush_parse_pipeline seg = Some pl" for pl
    using that by (rule parse_pipeline_wf)
  moreover have "parse_pipeline_item s i c =
     (if seg = [] then
           (case conn of None \<Rightarrow> Seg_Empty False c e
            | Some (cpos, cond, clen, bg) \<Rightarrow> Seg_Empty True cond (cpos + clen))
         else case petrush_parse_pipeline seg of
           None \<Rightarrow> Seg_Fail
         | Some pl \<Rightarrow> (case conn of
             None \<Rightarrow> Seg pl False None e
           | Some (cpos, cond, clen, bg) \<Rightarrow> Seg pl bg (Some cond) (cpos + clen)))"
    by (simp only: parse_pipeline_item_def Let_def
        conn_def [symmetric] e_def [symmetric] seg_def [symmetric])
  ultimately show ?thesis
    using assms conn_le
    by (cases conn; cases "petrush_parse_pipeline seg") (fastforce simp: e_def)+
qed

lemma take_conn_after_moves:
  "take_conn_after s p = (r, j) \<Longrightarrow> p \<le> length s \<Longrightarrow> p \<le> j \<and> j \<le> length s"
  using skip_ws_pos_ge [of p s] skip_ws_pos_le [of p s]
    find_connector_moves [of s "skip_ws_pos s p" None]
  by (fastforce simp: take_conn_after_def find_list_connector_def Let_def
      split: option.splits if_splits prod.splits)

lemma match_kw_ws_moves:
  "match_kw_at s (skip_ws_pos s pos) w = Some e \<Longrightarrow> w \<noteq> [] \<Longrightarrow> pos < e \<and> e \<le> length s"
  using match_kw_at_moves [of s "skip_ws_pos s pos" w e] skip_ws_pos_ge [of pos s] by auto

lemma less_skip_ws: "x < pos \<Longrightarrow> x < skip_ws_pos s pos" "x < r + pos \<Longrightarrow> x < r + skip_ws_pos s pos"
  using skip_ws_pos_ge [of pos s] by linarith+

lemma match_dsemi_ws_moves:
  "match_dsemi_at s (skip_ws_pos s pos) = Some e \<Longrightarrow> pos < e \<and> e \<le> length s"
  using brace_moves(3) [of s "skip_ws_pos s pos" e] skip_ws_pos_ge [of pos s] by auto

lemma match_parens_ws_moves:
  "match_empty_parens s (skip_ws_pos s pos) = Some e \<Longrightarrow> pos < e \<and> e \<le> length s"
  using match_empty_parens_moves [of s "skip_ws_pos s pos" e] skip_ws_pos_ge [of pos s] by auto

lemma scan_ws_moves:
  "scan_at scan_for_word s (skip_ws_pos s pos) = (w, q, p) \<Longrightarrow> w \<noteq> [] \<Longrightarrow> pos < p \<and> p \<le> length s"
  using scan_at_moves [of scan_for_word s "skip_ws_pos s pos" w q p] skip_ws_pos_ge [of pos s]
  by auto

lemma match_lbrace_ws_moves:
  "match_lbrace_at s (skip_ws_pos s pos) = Some e \<Longrightarrow> pos < e \<and> e \<le> length s"
  using brace_moves(1) [of s "skip_ws_pos s pos" e] skip_ws_pos_ge [of pos s] by auto

text \<open>The instances behind blanks come last: the classical reasoner tries them first.\<close>

lemmas kw_dests = match_kw_at_moves brace_moves(1,2) match_lbrace_ws_moves match_dsemi_ws_moves
  match_parens_ws_moves scan_ws_moves scan_fn_name_moves match_kw_ws_moves

section \<open>The contract of the list parser\<close>

text \<open>
  What the compound parsers expect of the list parser on the line \<open>s\<close> from offset \<open>b\<close> on.
\<close>

locale sub_parser =
  fixes s :: string and plu :: list_parser and b :: nat
  assumes plu_ok: "b \<le> pos \<Longrightarrow> pos \<le> length s \<Longrightarrow>
    presult (\<lambda>l p. pos \<le> p \<and> p \<le> length s \<and> plist_wf l) (plu pos msk req)"
begin

lemma bind_plu:
  assumes "b \<le> Suc pos" and "pos < e \<and> e \<le> length s"
    and "\<And>l p. pos < p \<Longrightarrow> e \<le> p \<Longrightarrow> p \<le> length s \<Longrightarrow> plist_wf l \<Longrightarrow> presult Q (k l p)"
  shows "presult Q (pbind (plu e msk req) k)"
proof (rule presult_bind)
  show "presult (\<lambda>l p. e \<le> p \<and> p \<le> length s \<and> plist_wf l) (plu e msk req)"
    using assms(1,2) by (intro plu_ok) auto
qed (use assms(2,3) in auto)

abbreviation moves_to :: "nat \<Rightarrow> ('a \<Rightarrow> bool) \<Rightarrow> 'a pres \<Rightarrow> bool" where
  "moves_to pos ok \<equiv> presult (\<lambda>x p. pos < p \<and> p \<le> length s \<and> ok x)"

lemma while_ok:
  assumes "b \<le> Suc pos"
  shows "moves_to pos body_wf (parse_while plu s pos)"
  unfolding parse_while_def
  by (intro presult_rules bind_plu [OF assms]) (auto simp: plist_wf_def dest!: kw_dests)

lemma for_ok:
  assumes "b \<le> Suc pos"
  shows "moves_to pos body_wf (parse_for plu s pos)"
  unfolding parse_for_def Let_def
  by (intro presult_rules bind_plu [OF assms])
    (auto simp: plist_wf_def dest!: kw_dests for_words_moves)

lemma fn_ok:
  assumes "b \<le> Suc pos"
  shows "moves_to pos body_wf (parse_fn plu s pos from_kw)"
  unfolding parse_fn_def Let_def
  by (intro presult_rules bind_plu [OF assms])
    (auto simp: plist_wf_def split: if_splits dest!: kw_dests)

lemma if_arm_ok:
  assumes "b \<le> Suc pos" and "pos < e" and "e \<le> length s"
  shows "presult (\<lambda>x p. e \<le> p \<and> pos < p \<and> p \<le> length s \<and> if_arm_wf x) (parse_if_arm plu s e)"
  unfolding parse_if_arm_def
  by (intro presult_rules bind_plu [OF assms(1)])
    (use assms in \<open>auto simp: plist_wf_def dest!: kw_dests\<close>)

lemma if_rest_ok:
  "b \<le> Suc pos \<Longrightarrow> length s < rounds + e \<Longrightarrow> pos < e \<Longrightarrow> e \<le> length s \<Longrightarrow>
     arms \<noteq> [] \<Longrightarrow> list_all if_arm_wf arms \<Longrightarrow>
     moves_to pos (\<lambda>arms. arms \<noteq> [] \<and> list_all if_arm_wf arms) (if_rest plu s rounds e arms)"
proof (induction rounds arbitrary: e arms)
  case 0
  then show ?case by simp
next
  case (Suc rounds)
  show ?case
  proof (cases "match_kw_at s e ''elif''")
    case (Some e')
    then have e': "e < e'" "e' \<le> length s" using match_kw_at_moves by auto
    have "moves_to pos (\<lambda>arms. arms \<noteq> [] \<and> list_all if_arm_wf arms)
        (pbind (parse_if_arm plu s e') (\<lambda>arm p. if_rest plu s rounds p (arm # arms)))"
    proof (rule presult_bind [OF if_arm_ok])
      show "b \<le> Suc pos" "pos < e'" "e' \<le> length s" using e' Suc.prems by auto
    qed (use e' Suc in auto)
    with Some show ?thesis by simp
  next
    case None
    with Suc.prems show ?thesis
      by (simp, intro presult_rules bind_plu [OF Suc.prems(1)])
        (auto simp: plist_wf_def starts_always_def dest!: kw_dests)
  qed
qed

lemma if_ok:
  assumes "b \<le> Suc pos"
  shows "moves_to pos body_wf (parse_if plu s pos)"
  unfolding parse_if_def
proof (intro presult_expect)
  fix e
  assume "match_kw_at s pos ''if'' = Some e"
  then have e: "pos < e" "e \<le> length s" using match_kw_at_moves by auto
  show "moves_to pos body_wf (pbind (parse_if_arm plu s e) (\<lambda>arm p.
      pbind (if_rest plu s (length s + 1) p [arm]) (\<lambda>arms p. POk (If_Item arms) p)))"
    by (rule presult_bind [OF if_arm_ok [OF assms e]], rule presult_bind [OF if_rest_ok [OF assms]])
      auto
qed

lemma case_arms_ok:
  "b \<le> Suc pos \<Longrightarrow> length s < rounds + e \<Longrightarrow> pos < e \<Longrightarrow> e \<le> length s \<Longrightarrow>
     list_all case_arm_wf arms \<Longrightarrow>
     moves_to pos (list_all case_arm_wf) (case_arms plu s rounds e arms)"
proof (induction rounds arbitrary: e arms)
  case 0
  then show ?case by simp
next
  case (Suc rounds)
  define i where "i = skip_ws_pos s e"
  have i: "e \<le> i" by (simp add: i_def skip_ws_pos_ge)
  show ?case
  proof (cases "match_kw_at s i ''esac''")
    case (Some e')
    with Suc.prems i match_kw_at_moves [OF Some] show ?thesis
      by (simp add: i_def [symmetric] Let_def)
  next
    case None
    show ?thesis
      unfolding case_arms.simps Let_def i_def [symmetric] None option.case
    proof (intro presult_rules)
      fix pp pats p
      assume "case_patterns s (if at s i = CHR ''('' then i + 1 else i) [] = Some pp"
        and "pp = (pats, p)"
      then have p: "i < p" "p \<le> length s" "pats \<noteq> []" "[] \<notin> set pats"
        using case_patterns_moves [of s i "[]" pats p] case_patterns_moves [of s "i + 1" "[]" pats p]
        by (auto split: if_splits)
      show "moves_to pos (list_all case_arm_wf) (pbind (plu p [KW_DSEMI, KW_ESAC] True) (\<lambda>body p.
          case match_dsemi_at s (skip_ws_pos s p) of
            None \<Rightarrow> if match_kw_at s (skip_ws_pos s p) ''esac'' = None then PFail
                else case_arms plu s rounds (skip_ws_pos s p) (Case_Arm pats body # arms)
          | Some e \<Rightarrow> case_arms plu s rounds e (Case_Arm pats body # arms)))"
        using Suc.prems i p
        by (intro bind_plu [OF Suc.prems(1)] presult_rules Suc.IH)
          (auto simp: plist_wf_def dest!: kw_dests intro: less_skip_ws skip_ws_pos_le)
    qed
  qed
qed

lemma case_ok:
  assumes "b \<le> Suc pos"
  shows "moves_to pos body_wf (parse_case plu s pos)"
  unfolding parse_case_def
proof (intro presult_rules)
  fix e word r q j e'
  assume "match_kw_at s pos ''case'' = Some e" and "word \<noteq> []"
    and "scan_at scan_for_word s (skip_ws_pos s e) = (word, r)" and "r = (q, j)"
    and "match_kw_at s (skip_ws_pos s j) ''in'' = Some e'"
  then have "pos < e'" "e' \<le> length s" by (auto dest!: kw_dests)
  then show "moves_to pos body_wf
      (pbind (case_arms plu s (length s + 1) e' []) (\<lambda>arms p. POk (Case_Item word arms) p))"
    using \<open>word \<noteq> []\<close> by (intro presult_bind [OF case_arms_ok [OF assms]]) auto
qed

lemma dbracket_ok: "moves_to pos body_wf (parse_dbracket s pos)"
  unfolding parse_dbracket_def
  by (intro presult_rules) (auto dest!: match_kw_at_moves dbracket_loop_moves)

lemma compound_ok:
  assumes "b \<le> Suc pos" and "parse_compound plu s pos = Some r"
  shows "moves_to pos body_wf r"
  using assms(2) while_ok [OF assms(1)] for_ok [OF assms(1)] fn_ok [OF assms(1)]
    if_ok [OF assms(1)] case_ok [OF assms(1)] dbracket_ok
  by (auto simp: parse_compound_def split: if_splits)

text \<open>The items read so far, last one first, and the condition of the next one.\<close>

definition items_ok :: "plist \<Rightarrow> run_cond \<Rightarrow> bool" where
  "items_ok items c \<longleftrightarrow> list_all item_wf items \<and>
     (case rev items of [] \<Rightarrow> c = Cond_Always | x # _ \<Rightarrow> cond_of x = Cond_Always)"

lemma items_ok_Cons: "items_ok items c \<Longrightarrow> body_wf x \<Longrightarrow> items_ok (Item x c bg # items) d"
  by (cases "rev items") (auto simp: items_ok_def)

lemma items_ok_rev: "items_ok items c \<Longrightarrow> plist_wf (rev items)"
  by (cases "rev items") (auto simp: items_ok_def plist_wf_def starts_always_def)

lemma list_end_ok:
  "items_ok items c \<Longrightarrow> pos \<le> p \<Longrightarrow> p \<le> length s \<Longrightarrow>
     presult (\<lambda>l p. pos \<le> p \<and> p \<le> length s \<and> plist_wf l) (list_end s p msk req items)"
  by (auto simp: list_end_def items_ok_rev)

lemma list_loop_ok:
  "b \<le> Suc pos \<Longrightarrow> length s < rounds + p \<Longrightarrow> pos \<le> p \<Longrightarrow> p \<le> length s \<Longrightarrow> items_ok items c \<Longrightarrow>
     presult (\<lambda>l p. pos \<le> p \<and> p \<le> length s \<and> plist_wf l)
       (list_loop plu s rounds p msk req items c)"
proof (induction rounds arbitrary: p items c)
  case 0
  then show ?case by simp
next
  case (Suc rounds)
  define i where "i = skip_ws_pos s p"
  have i: "p \<le> i" "i \<le> length s" "b \<le> Suc i"
    using Suc.prems skip_ws_pos_ge [of p s] skip_ws_pos_le [of p s] by (auto simp: i_def)
  show ?case
    unfolding list_loop.simps Let_def i_def [symmetric]
  proof (intro presult_if presult_option, simp)
    show "presult (\<lambda>l p. pos \<le> p \<and> p \<le> length s \<and> plist_wf l) (list_end s i msk req items)"
      using Suc.prems i by (intro list_end_ok) auto
  next
    fix r
    assume "parse_compound plu s i = Some r"
    from compound_ok [OF i(3) this]
    have c: "moves_to i body_wf r" .
    show "presult (\<lambda>l p. pos \<le> p \<and> p \<le> length s \<and> plist_wf l)
      (pbind r (\<lambda>b p. case take_conn_after s p of
          (None, j) \<Rightarrow> list_end s j msk req (Item b c False # items)
        | (Some (cond, bg), j) \<Rightarrow> list_loop plu s rounds j msk req (Item b c bg # items) cond))"
      by (rule presult_bind [OF c]) (use Suc.prems i in \<open>auto split: prod.splits option.splits
          dest!: take_conn_after_moves intro!: list_end_ok Suc.IH items_ok_Cons\<close>)
  next
    assume "parse_compound plu s i = None"
    show "presult (\<lambda>l p. pos \<le> p \<and> p \<le> length s \<and> plist_wf l)
      (case parse_pipeline_item s i Cond_Always of
          Seg_Fail \<Rightarrow> PFail
        | Seg_Empty had_conn cond p \<Rightarrow>
            if \<not> had_conn \<and> c = Cond_Always then POk (rev items) p else PFail
        | Seg pl bg None p \<Rightarrow> list_end s (skip_ws_pos s p) msk req (Item (Pipeline pl) c bg # items)
        | Seg pl bg (Some cond) p \<Rightarrow>
            list_loop plu s rounds p msk req (Item (Pipeline pl) c bg # items) cond)"
      using parse_pipeline_item_moves [OF i(2), of Cond_Always] Suc.prems i
      by (auto split: segment.splits option.splits simp: items_ok_rev skip_ws_pos_le
          intro!: list_end_ok Suc.IH items_ok_Cons intro: le_trans [OF _ skip_ws_pos_ge])
  qed
qed

end

text \<open>The list parser keeps the contract when it nests one level deeper.\<close>

lemma sub_parser_step:
  assumes "sub_parser s plu (Suc b)"
  shows "sub_parser s (\<lambda>pos msk req. list_loop plu s (length s + 1) pos msk req [] Cond_Always) b"
proof
  fix pos msk req
  assume "b \<le> pos" and "pos \<le> length s"
  then show "presult (\<lambda>l p. pos \<le> p \<and> p \<le> length s \<and> plist_wf l)
      (list_loop plu s (length s + 1) pos msk req [] Cond_Always)"
    by (intro sub_parser.list_loop_ok [OF assms])
      (auto simp: sub_parser.items_ok_def [OF assms])
qed

lemma sub_parser_until: "length s < n + b \<Longrightarrow> sub_parser s (parse_list_until n s) b"
proof (induction n arbitrary: b)
  case 0
  then show ?case by unfold_locales simp
next
  case (Suc n)
  then have "sub_parser s (parse_list_until n s) (Suc b)" by simp
  from sub_parser_step [OF this] show ?case by simp
qed

interpretation descent: sub_parser s "parse_list_until (length s + 1) s" 0 for s
  by (rule sub_parser_until) simp

section \<open>The parser of a whole line\<close>

text \<open>
  C5. The parser of a line always returns: with the depth that \<open>petrush_parse_list\<close> grants,
  the recursive descent never runs out of fuel, on any line, well-formed or not, from any
  offset, with any stop words.  When it succeeds it stops between its start and the end of the
  line.
\<close>

theorem parse_list_until_returns:
  "pos \<le> length s \<Longrightarrow>
     parse_list_until (length s + 1) s pos msk req = PFail \<or>
     (\<exists>l p. parse_list_until (length s + 1) s pos msk req = POk l p \<and> pos \<le> p \<and> p \<le> length s)"
  using descent.plu_ok [of pos s msk req]
  by (cases "parse_list_until (length s + 1) s pos msk req") auto

theorem parse_list_until_returns_witness:
  "parse_list_until 9 ''if a; fi'' 0 [] False = PFail \<or>
     (\<exists>l p. parse_list_until 9 ''if a; fi'' 0 [] False = POk l p \<and> 0 \<le> p \<and> p \<le> 8)"
proof -
  have len: "length ''if a; fi'' = 8" by simp
  show ?thesis
    using parse_list_until_returns [of 0 "''if a; fi''" "[]" False]
    unfolding len by (simp del: parse_list_until.simps)
qed

text \<open>
  C6. Every tree that the parser returns is well-formed, at each level of nesting: a stage has
  a command word and parallel quoting, one target for standard error and one source of
  standard input; a loop has a condition, a case arm a pattern, a function a name; the first
  item of every list is unconditional.
\<close>

theorem parse_list_wf: "petrush_parse_list s = Some l \<Longrightarrow> plist_wf l"
  using descent.plu_ok [of "skip_ws_pos s 0" s "[]" False] skip_ws_pos_le [of 0 s]
  by (auto simp: petrush_parse_list_def Let_def plist_wf_def starts_always_def
      split: if_splits pres.splits)

theorem parse_list_wf_witness: "plist_wf (the (petrush_parse_list ''a && b''))"
proof -
  have "petrush_parse_list ''a && b'' = Some (the (petrush_parse_list ''a && b''))"
    by code_simp
  then show ?thesis by (rule parse_list_wf)
qed

end
