(* ===== verification/Heredoc.thy ===== *)
theory Heredoc
  imports Ast
begin

text \<open>
  Reading the bodies of here-documents (\<open>src/mid/parser.c\<close>, \<open>cmd_heredoc_pending\<close> to
  \<open>petrush_heredoc_feed_line\<close>).  After a line is parsed the reader feeds the following lines
  one at a time to the tree; each goes to the first stage, in source order, whose document is
  not complete.  C updates the tree in place: the functions here return the result code, the
  flag \<open>ate\<close> and the updated tree.  The line is \<open>None\<close> at end of file.
  The tree walk is shown to refine a walk over the flat list of stages (\<open>cmds_of\<close>), and
  feeding the documents in order to give every stage its body.
\<close>

section \<open>One stage\<close>

definition heredoc_max :: nat where "heredoc_max = 1024 * 1024"

definition cmd_heredoc_pending :: "cmd \<Rightarrow> bool" where
  "cmd_heredoc_pending c \<longleftrightarrow>
     here_delim c \<noteq> None \<and> here_feed_i c < length (here_skip_delims c) + 1"

definition cmd_current_delim :: "cmd \<Rightarrow> string option" where
  "cmd_current_delim c =
     (if here_delim c = None then None
      else if here_feed_i c < length (here_skip_delims c)
        then Some (here_skip_delims c ! here_feed_i c)
      else if here_feed_i c = length (here_skip_delims c) then here_delim c
      else None)"

definition here_body_append :: "cmd \<Rightarrow> string \<Rightarrow> cmd option" where
  "here_body_append c line =
     (let line_len = length line;
          old = (case here_body c of None \<Rightarrow> [] | Some b \<Rightarrow> b);
          old_len = length old
      in if old_len > heredoc_max \<or> line_len > heredoc_max - old_len
           \<or> 1 > heredoc_max - old_len - line_len then None
         else Some (c\<lparr>here_body := Some (old @ line @ [NL])\<rparr>))"

text \<open>The result code: -1 error, 0 the stage is done, 1 it wants more.\<close>

definition here_line :: "cmd \<Rightarrow> string \<Rightarrow> string" where
  "here_line c line = (if here_strip c then dropWhile (\<lambda>x. x = TAB) line else line)"

definition cmd_heredoc_feed :: "string option \<Rightarrow> cmd \<Rightarrow> int \<times> bool \<times> cmd" where
  "cmd_heredoc_feed line c =
     (if \<not> cmd_heredoc_pending c then (0, False, c)
      else case line of
        None \<Rightarrow> (- 1, False, c)
      | Some l \<Rightarrow> (case cmd_current_delim c of
          None \<Rightarrow> (- 1, False, c)
        | Some delim \<Rightarrow>
            let l = here_line c l in
            if l = delim then
              let main = (here_feed_i c = length (here_skip_delims c));
                  c = (if main then c else c\<lparr>here_body := None\<rparr>);
                  c = (if main \<and> here_body c = None then c\<lparr>here_body := Some []\<rparr> else c);
                  c = c\<lparr>here_feed_i := here_feed_i c + 1\<rparr>
              in (if cmd_heredoc_pending c then 1 else 0, True, c)
            else case here_body_append c l of
              None \<Rightarrow> (- 1, True, c)
            | Some c \<Rightarrow> (1, True, c)))"

section \<open>The tree\<close>

primrec item_heredoc_pending :: "list_item \<Rightarrow> bool"
and body_heredoc_pending :: "item_body \<Rightarrow> bool"
and arm_heredoc_pending :: "if_arm \<Rightarrow> bool"
and case_arm_heredoc_pending :: "case_arm \<Rightarrow> bool" where
  "item_heredoc_pending (Item b c bg) = body_heredoc_pending b"
| "body_heredoc_pending (Pipeline cs) = list_ex cmd_heredoc_pending cs"
| "body_heredoc_pending (If_Item arms) = list_ex id (map arm_heredoc_pending arms)"
| "body_heredoc_pending (While_Item c b) =
     (list_ex id (map item_heredoc_pending c) \<or> list_ex id (map item_heredoc_pending b))"
| "body_heredoc_pending (For_Item n ws b) = list_ex id (map item_heredoc_pending b)"
| "body_heredoc_pending (Fn_Item n b) = list_ex id (map item_heredoc_pending b)"
| "body_heredoc_pending (Case_Item w arms) = list_ex id (map case_arm_heredoc_pending arms)"
| "body_heredoc_pending (Dbracket_Item ws qs) = False"
| "arm_heredoc_pending (If_Arm c b e) =
     (list_ex id (map item_heredoc_pending c) \<or> list_ex id (map item_heredoc_pending b))"
| "case_arm_heredoc_pending (Case_Arm ps b) = list_ex id (map item_heredoc_pending b)"

definition list_heredoc_pending :: "plist \<Rightarrow> bool" where
  "list_heredoc_pending l = list_ex item_heredoc_pending l"

primrec pipeline_heredoc_feed :: "string option \<Rightarrow> cmd list \<Rightarrow> int \<times> bool \<times> cmd list" where
  "pipeline_heredoc_feed line [] = (0, False, [])"
| "pipeline_heredoc_feed line (c # cs) =
     (if \<not> cmd_heredoc_pending c then
        case pipeline_heredoc_feed line cs of (rc, ate, cs') \<Rightarrow> (rc, ate, c # cs')
      else case cmd_heredoc_feed line c of (rc, ate, c') \<Rightarrow> (rc, ate, c' # cs))"

text \<open>\<open>seq_feed\<close> is the C idiom that tries a second list only when the first neither ate the
  line nor failed.\<close>

definition seq_feed :: "int \<times> bool \<times> 'a \<Rightarrow> int \<times> bool \<times> 'b \<Rightarrow> 'b \<Rightarrow> int \<times> bool \<times> 'a \<times> 'b" where
  "seq_feed x y b =
     (case x of (rc, ate, a') \<Rightarrow> if ate \<or> rc < 0 then (rc, ate, a', b)
      else case y of (rc, ate, b') \<Rightarrow> (rc, ate, a', b'))"

fun item_heredoc_feed :: "string option \<Rightarrow> list_item \<Rightarrow> int \<times> bool \<times> list_item"
and body_heredoc_feed :: "string option \<Rightarrow> item_body \<Rightarrow> int \<times> bool \<times> item_body"
and list_heredoc_feed :: "string option \<Rightarrow> list_item list \<Rightarrow> int \<times> bool \<times> list_item list"
and arm_heredoc_feed :: "string option \<Rightarrow> if_arm \<Rightarrow> int \<times> bool \<times> if_arm"
and arms_heredoc_feed :: "string option \<Rightarrow> if_arm list \<Rightarrow> int \<times> bool \<times> if_arm list"
and case_arm_heredoc_feed :: "string option \<Rightarrow> case_arm \<Rightarrow> int \<times> bool \<times> case_arm"
and case_arms_heredoc_feed :: "string option \<Rightarrow> case_arm list \<Rightarrow> int \<times> bool \<times> case_arm list"
where
  "item_heredoc_feed line (Item b c bg) =
     (case body_heredoc_feed line b of (rc, ate, b') \<Rightarrow> (rc, ate, Item b' c bg))"
| "body_heredoc_feed line (Pipeline cs) =
     (case pipeline_heredoc_feed line cs of (rc, ate, cs') \<Rightarrow> (rc, ate, Pipeline cs'))"
| "body_heredoc_feed line (If_Item arms) =
     (case arms_heredoc_feed line arms of (rc, ate, arms') \<Rightarrow> (rc, ate, If_Item arms'))"
| "body_heredoc_feed line (While_Item c b) =
     (case seq_feed (list_heredoc_feed line c) (list_heredoc_feed line b) b of
        (rc, ate, c', b') \<Rightarrow> (rc, ate, While_Item c' b'))"
| "body_heredoc_feed line (For_Item n ws b) =
     (case list_heredoc_feed line b of (rc, ate, b') \<Rightarrow> (rc, ate, For_Item n ws b'))"
| "body_heredoc_feed line (Fn_Item n b) =
     (case list_heredoc_feed line b of (rc, ate, b') \<Rightarrow> (rc, ate, Fn_Item n b'))"
| "body_heredoc_feed line (Case_Item w arms) =
     (case case_arms_heredoc_feed line arms of (rc, ate, arms') \<Rightarrow> (rc, ate, Case_Item w arms'))"
| "body_heredoc_feed line (Dbracket_Item ws qs) = (0, False, Dbracket_Item ws qs)"
| "list_heredoc_feed line [] = (0, False, [])"
| "list_heredoc_feed line (it # l) =
     (if \<not> item_heredoc_pending it then
        case list_heredoc_feed line l of (rc, ate, l') \<Rightarrow> (rc, ate, it # l')
      else case item_heredoc_feed line it of (rc, ate, it') \<Rightarrow> (rc, ate, it' # l))"
| "arm_heredoc_feed line (If_Arm c b e) =
     (case seq_feed (list_heredoc_feed line c) (list_heredoc_feed line b) b of
        (rc, ate, c', b') \<Rightarrow> (rc, ate, If_Arm c' b' e))"
| "arms_heredoc_feed line [] = (0, False, [])"
| "arms_heredoc_feed line (a # arms) =
     (case seq_feed (arm_heredoc_feed line a) (arms_heredoc_feed line arms) arms of
        (rc, ate, a', arms') \<Rightarrow> (rc, ate, a' # arms'))"
| "case_arm_heredoc_feed line (Case_Arm ps b) =
     (case list_heredoc_feed line b of (rc, ate, b') \<Rightarrow> (rc, ate, Case_Arm ps b'))"
| "case_arms_heredoc_feed line [] = (0, False, [])"
| "case_arms_heredoc_feed line (a # arms) =
     (case seq_feed (case_arm_heredoc_feed line a) (case_arms_heredoc_feed line arms) arms of
        (rc, ate, a', arms') \<Rightarrow> (rc, ate, a' # arms'))"

definition petrush_heredoc_feed_line :: "plist \<Rightarrow> string option \<Rightarrow> int \<times> plist" where
  "petrush_heredoc_feed_line l line =
     (if \<not> list_heredoc_pending l then (0, l)
      else case list_heredoc_feed line l of (rc, ate, l') \<Rightarrow>
        if rc < 0 then (- 1, l')
        else if line = None \<and> list_heredoc_pending l' then (- 1, l')
        else (if list_heredoc_pending l' then 1 else 0, l'))"

section \<open>The walk over the tree refines a walk over its stages\<close>

text \<open>The stages of a tree in source order.\<close>

primrec item_cmds :: "list_item \<Rightarrow> cmd list"
and body_cmds :: "item_body \<Rightarrow> cmd list"
and arm_cmds :: "if_arm \<Rightarrow> cmd list"
and case_arm_cmds :: "case_arm \<Rightarrow> cmd list" where
  "item_cmds (Item b c bg) = body_cmds b"
| "body_cmds (Pipeline cs) = cs"
| "body_cmds (If_Item arms) = concat (map arm_cmds arms)"
| "body_cmds (While_Item c b) = concat (map item_cmds c) @ concat (map item_cmds b)"
| "body_cmds (For_Item n ws b) = concat (map item_cmds b)"
| "body_cmds (Fn_Item n b) = concat (map item_cmds b)"
| "body_cmds (Case_Item w arms) = concat (map case_arm_cmds arms)"
| "body_cmds (Dbracket_Item ws qs) = []"
| "arm_cmds (If_Arm c b e) = concat (map item_cmds c) @ concat (map item_cmds b)"
| "case_arm_cmds (Case_Arm ps b) = concat (map item_cmds b)"

definition list_cmds :: "plist \<Rightarrow> cmd list" where
  "list_cmds l = concat (map item_cmds l)"

abbreviation some_pending :: "cmd list \<Rightarrow> bool" where
  "some_pending cs \<equiv> list_ex cmd_heredoc_pending cs"

lemma pending_cmds [simp]:
  "item_heredoc_pending it = some_pending (item_cmds it)"
  "body_heredoc_pending b = some_pending (body_cmds b)"
  "arm_heredoc_pending a = some_pending (arm_cmds a)"
  "case_arm_heredoc_pending ca = some_pending (case_arm_cmds ca)"
proof (induction it and b and a and ca)
qed (auto simp: list_ex_iff)

lemma list_pending_cmds: "list_heredoc_pending l = some_pending (list_cmds l)"
  by (auto simp: list_heredoc_pending_def list_cmds_def list_ex_iff)

lemma pipeline_feed_idle [simp]:
  "\<not> some_pending cs \<Longrightarrow> pipeline_heredoc_feed line cs = (0, False, cs)"
  by (induction cs) auto

lemma cmd_feed_takes:
  "cmd_heredoc_pending c \<Longrightarrow> cmd_heredoc_feed line c = (rc, ate, c') \<Longrightarrow> ate \<or> rc < 0"
  by (auto simp: cmd_heredoc_feed_def Let_def split: option.splits if_splits)

lemma pipeline_feed_takes:
  "some_pending cs \<Longrightarrow> pipeline_heredoc_feed line cs = (rc, ate, cs') \<Longrightarrow> ate \<or> rc < 0"
  by (induction cs arbitrary: cs') (auto split: if_splits prod.splits dest: cmd_feed_takes)

lemma pipeline_feed_append:
  "pipeline_heredoc_feed line (xs @ ys) =
     (if some_pending xs
      then case pipeline_heredoc_feed line xs of (rc, ate, xs') \<Rightarrow> (rc, ate, xs' @ ys)
      else case pipeline_heredoc_feed line ys of (rc, ate, ys') \<Rightarrow> (rc, ate, xs @ ys'))"
  by (induction xs) (auto split: prod.splits)

abbreviation to_cmds :: "('a \<Rightarrow> cmd list) \<Rightarrow> int \<times> bool \<times> 'a \<Rightarrow> int \<times> bool \<times> cmd list" where
  "to_cmds cmds r \<equiv> (fst r, fst (snd r), cmds (snd (snd r)))"

lemma feed_not_taken:
  "pipeline_heredoc_feed line cs = (rc, False, cs') \<Longrightarrow> \<not> rc < 0 \<Longrightarrow> \<not> some_pending cs"
  using pipeline_feed_takes by blast

lemma seq_feed_cmds:
  assumes "to_cmds f x = pipeline_heredoc_feed line (f a)"
    and "to_cmds g y = pipeline_heredoc_feed line (g b)"
  shows "(fst (seq_feed x y b), fst (snd (seq_feed x y b)),
      f (fst (snd (snd (seq_feed x y b)))) @ g (snd (snd (snd (seq_feed x y b))))) =
    pipeline_heredoc_feed line (f a @ g b)"
proof (cases "fst (snd x) \<or> fst x < 0")
  case True
  then have "some_pending (f a)"
    using assms(1) pipeline_feed_idle [of "f a" line] by (metis fst_conv less_irrefl snd_conv)
  then show ?thesis using True assms(1)
    by (auto simp: seq_feed_def pipeline_feed_append case_prod_beta prod_eq_iff)
next
  case False
  then have "\<not> some_pending (f a)" using assms(1) feed_not_taken by metis
  then show ?thesis using False assms
    by (auto simp: seq_feed_def pipeline_feed_append case_prod_beta prod_eq_iff)
qed

lemma list_cmds_simps [simp]:
  "list_cmds [] = []" "list_cmds (it # l) = item_cmds it @ list_cmds l"
  by (simp_all add: list_cmds_def)

lemmas feed_cmds_induct =
  item_heredoc_feed_body_heredoc_feed_list_heredoc_feed_arm_heredoc_feed_arms_heredoc_feed_case_arm_heredoc_feed_case_arms_heredoc_feed.induct

lemma feed_cmds:
  "to_cmds item_cmds (item_heredoc_feed line it) = pipeline_heredoc_feed line (item_cmds it)"
  "to_cmds body_cmds (body_heredoc_feed line b) = pipeline_heredoc_feed line (body_cmds b)"
  "to_cmds list_cmds (list_heredoc_feed line l) = pipeline_heredoc_feed line (list_cmds l)"
  "to_cmds arm_cmds (arm_heredoc_feed line a) = pipeline_heredoc_feed line (arm_cmds a)"
  "to_cmds (\<lambda>arms. concat (map arm_cmds arms)) (arms_heredoc_feed line arms) =
     pipeline_heredoc_feed line (concat (map arm_cmds arms))"
  "to_cmds case_arm_cmds (case_arm_heredoc_feed line ca) =
     pipeline_heredoc_feed line (case_arm_cmds ca)"
  "to_cmds (\<lambda>arms. concat (map case_arm_cmds arms)) (case_arms_heredoc_feed line cas) =
     pipeline_heredoc_feed line (concat (map case_arm_cmds cas))"
proof (induction line it and line b and line l and line a and line arms and line ca and line cas
    rule: feed_cmds_induct)
  case (4 line c b)
  from seq_feed_cmds [OF 4] show ?case
    by (simp add: case_prod_beta list_cmds_def)
next
  case (10 line it l)
  then show ?case by (simp add: case_prod_beta pipeline_feed_append prod_eq_iff)
next
  case (11 line c b e)
  from seq_feed_cmds [OF 11] show ?case by (simp add: case_prod_beta list_cmds_def)
next
  case (13 line a arms)
  from seq_feed_cmds [OF 13] show ?case by (simp add: case_prod_beta)
next
  case (16 line a arms)
  from seq_feed_cmds [OF 16] show ?case by (simp add: case_prod_beta)
qed (simp_all add: case_prod_beta list_cmds_def)

lemma feed_line_cmds:
  "(case petrush_heredoc_feed_line l line of (rc, l') \<Rightarrow> (rc, list_cmds l')) =
     (case pipeline_heredoc_feed line (list_cmds l) of (rc, ate, cs) \<Rightarrow>
        if \<not> some_pending (list_cmds l) then (0, list_cmds l)
        else if rc < 0 \<or> line = None \<and> some_pending cs then (- 1, cs)
        else (if some_pending cs then 1 else 0, cs))"
  using feed_cmds(3) [of line l]
  by (auto simp: petrush_heredoc_feed_line_def list_pending_cmds split: prod.splits)

text \<open>
  C8. Feeding a line to the tree of a parsed line is feeding it to the flat sequence of its
  stages: whatever the nesting of loops, functions and conditionals, the line goes to the first
  stage in source order whose here-document is not complete, no other stage changes, and the
  result code is that stage's, or says whether any stage is left.
\<close>

theorem feed_line_refines:
  "(case petrush_heredoc_feed_line l line of (rc, l') \<Rightarrow> (rc, list_cmds l')) =
     (case pipeline_heredoc_feed line (list_cmds l) of (rc, ate, cs) \<Rightarrow>
        if \<not> some_pending (list_cmds l) then (0, list_cmds l)
        else if rc < 0 \<or> line = None \<and> some_pending cs then (- 1, cs)
        else (if some_pending cs then 1 else 0, cs))"
  by (rule feed_line_cmds)

section \<open>Reading the documents of a line\<close>

text \<open>The loop of the readers (\<open>fill_heredocs\<close> in \<open>src/mid/source.c\<close>): feed lines while a
  stage is pending.  \<open>None\<close> is the error, at the end of the input or from the size limit.\<close>

fun read_heredocs :: "string list \<Rightarrow> plist \<Rightarrow> (plist \<times> string list) option" where
  "read_heredocs lines l =
     (if \<not> list_heredoc_pending l then Some (l, lines)
      else case lines of
        [] \<Rightarrow> None
      | x # xs \<Rightarrow> (case petrush_heredoc_feed_line l (Some x) of (rc, l') \<Rightarrow>
          if rc < 0 then None else read_heredocs xs l'))"

fun read_flat :: "string list \<Rightarrow> cmd list \<Rightarrow> (cmd list \<times> string list) option" where
  "read_flat lines cs =
     (if \<not> some_pending cs then Some (cs, lines)
      else case lines of
        [] \<Rightarrow> None
      | x # xs \<Rightarrow> (case pipeline_heredoc_feed (Some x) cs of (rc, ate, cs') \<Rightarrow>
          if rc < 0 then None else read_flat xs cs'))"

declare read_heredocs.simps [simp del] read_flat.simps [simp del]

lemma read_refines: "map_option (apfst list_cmds) (read_heredocs lines l) = read_flat lines (list_cmds l)"
proof (induction lines arbitrary: l)
  case Nil
  then show ?case by (simp add: read_heredocs.simps read_flat.simps list_pending_cmds)
next
  case (Cons x xs)
  then show ?case
    using feed_line_cmds [of l "Some x"]
    by (subst read_heredocs.simps, subst read_flat.simps)
      (auto simp: list_pending_cmds split: prod.splits if_splits)
qed

text \<open>
  A document is, for each delimiter of its stage, the lines of a body and the line that closes
  it.  No line of a body is its delimiter, and a body stays within the limit.
\<close>

type_synonym document = "(string list \<times> string) list"

definition delims :: "cmd \<Rightarrow> string list" where
  "delims c = here_skip_delims c @ (case here_delim c of None \<Rightarrow> [] | Some d \<Rightarrow> [d])"

definition body_text :: "cmd \<Rightarrow> string list \<Rightarrow> string" where
  "body_text c b = concat (map (\<lambda>l. here_line c l @ [NL]) b)"

definition part_ok :: "cmd \<Rightarrow> string list \<times> string \<Rightarrow> string \<Rightarrow> bool" where
  "part_ok c p d \<longleftrightarrow> here_line c (snd p) = d \<and> (\<forall>l\<in>set (fst p). here_line c l \<noteq> d) \<and>
     length (body_text c (fst p)) \<le> heredoc_max"

definition doc_ok :: "cmd \<Rightarrow> document \<Rightarrow> bool" where
  "doc_ok c doc \<longleftrightarrow> list_all2 (part_ok c) doc (delims c)"

definition doc_lines :: "document \<Rightarrow> string list" where
  "doc_lines doc = concat (map (\<lambda>p. fst p @ [snd p]) doc)"

definition fill_cmd :: "cmd \<Rightarrow> document \<Rightarrow> cmd" where
  "fill_cmd c doc = c\<lparr>here_body := Some (body_text c (fst (last doc))),
     here_feed_i := length doc\<rparr>"

fun fill_cmds :: "cmd list \<Rightarrow> document list \<Rightarrow> cmd list" where
  "fill_cmds (c # cs) (d # ds) =
     (if cmd_heredoc_pending c then fill_cmd c d # fill_cmds cs ds
      else c # fill_cmds cs (d # ds))"
| "fill_cmds cs ds = cs"

definition fresh :: "cmd \<Rightarrow> bool" where
  "fresh c \<longleftrightarrow> cmd_heredoc_pending c \<longrightarrow> here_feed_i c = 0 \<and> here_body c = None"

lemma read_flat_done: "\<not> some_pending cs \<Longrightarrow> read_flat lines cs = Some (cs, lines)"
  by (simp add: read_flat.simps)

lemma read_flat_step:
  assumes "\<not> some_pending pre" and "cmd_heredoc_pending c"
    and "cmd_heredoc_feed (Some x) c = (rc, ate, c')" and "0 \<le> rc"
  shows "read_flat (x # xs) (pre @ c # post) = read_flat xs (pre @ c' # post)"
  using assms by (subst read_flat.simps) (simp add: pipeline_feed_append)

definition body_of_cmd :: "cmd \<Rightarrow> string" where
  "body_of_cmd c = (case here_body c of None \<Rightarrow> [] | Some b \<Rightarrow> b)"

text \<open>The lines of a body pile up.\<close>

definition add_body :: "cmd \<Rightarrow> string list \<Rightarrow> cmd" where
  "add_body c b = (if b = [] then c else c\<lparr>here_body := Some (body_of_cmd c @ body_text c b)\<rparr>)"

lemma body_text_simps [simp]:
  "body_text c [] = []" "body_text c (l # b) = here_line c l @ NL # body_text c b"
  "body_text (c\<lparr>here_body := x\<rparr>) b = body_text c b"
  "body_text (c\<lparr>here_feed_i := n\<rparr>) b = body_text c b"
  by (simp_all add: body_text_def here_line_def)

lemma here_line_upd [simp]:
  "here_line (c\<lparr>here_body := x\<rparr>) l = here_line c l"
  "here_line (c\<lparr>here_feed_i := n\<rparr>) l = here_line c l"
  by (simp_all add: here_line_def)

lemma current_delim_pending: "cmd_current_delim c = Some d \<Longrightarrow> cmd_heredoc_pending c"
  by (auto simp: cmd_current_delim_def cmd_heredoc_pending_def split: if_splits)

lemma feed_body_line:
  assumes "cmd_current_delim c = Some d" and "here_line c x \<noteq> d"
    and "length (body_of_cmd c) + length (here_line c x) < heredoc_max"
  shows "cmd_heredoc_feed (Some x) c = (1, True, add_body c [x])"
  using assms current_delim_pending [OF assms(1)]
  by (auto simp: cmd_heredoc_feed_def Let_def here_body_append_def body_of_cmd_def [symmetric]
      add_body_def)

lemma read_flat_body:
  assumes "\<not> some_pending pre" and "cmd_current_delim c = Some d"
    and "\<forall>l\<in>set b. here_line c l \<noteq> d"
    and "length (body_of_cmd c) + length (body_text c b) \<le> heredoc_max"
  shows "read_flat (b @ xs) (pre @ c # post) = read_flat xs (pre @ add_body c b # post)"
  using assms(2-4)
proof (induction b arbitrary: c)
  case Nil
  then show ?case by (simp add: add_body_def)
next
  case (Cons l b)
  have step: "cmd_heredoc_feed (Some l) c = (1, True, add_body c [l])"
    using Cons.prems by (intro feed_body_line) auto
  have "cmd_current_delim (add_body c [l]) = Some d"
    using Cons.prems(1) by (auto simp: add_body_def cmd_current_delim_def split: if_splits)
  then have "read_flat (b @ xs) (pre @ add_body c [l] # post) =
      read_flat xs (pre @ add_body (add_body c [l]) b # post)"
    using Cons.prems(2,3) by (intro Cons.IH) (auto simp: add_body_def body_of_cmd_def)
  moreover have "add_body (add_body c [l]) b = add_body c (l # b)"
    by (auto simp: add_body_def body_of_cmd_def)
  ultimately show ?case
    using read_flat_step [OF assms(1) current_delim_pending [OF Cons.prems(1)] step] by simp
qed

text \<open>A closing line ends a skipped document, whose body is dropped, or the last one.\<close>

definition close_part :: "cmd \<Rightarrow> string list \<Rightarrow> cmd" where
  "close_part c b = c\<lparr>here_body := (if here_feed_i c = length (here_skip_delims c)
       then Some (body_text c b) else None), here_feed_i := here_feed_i c + 1\<rparr>"

lemma same_body: "here_body c = x \<Longrightarrow> c\<lparr>here_body := x\<rparr> = c"
  by (cases c) simp

lemma feed_close:
  assumes d: "cmd_current_delim c = Some d" and x: "here_line c x = d"
    and b: "here_body c = (if b = [] then None else Some (body_text c b))"
  shows "cmd_heredoc_feed (Some x) c =
    (if cmd_heredoc_pending (close_part c b) then 1 else 0, True, close_part c b)"
proof (cases "here_feed_i c = length (here_skip_delims c)")
  case False
  then show ?thesis
    using d x current_delim_pending [OF d]
    by (simp add: cmd_heredoc_feed_def Let_def close_part_def)
next
  case True
  then show ?thesis
    using d x b current_delim_pending [OF d] same_body [of c "Some (body_text c b)"]
    by (cases "b = []")
      (simp_all add: cmd_heredoc_feed_def Let_def close_part_def cmd_heredoc_pending_def)
qed

lemma read_flat_part:
  assumes "\<not> some_pending pre" and "cmd_current_delim c = Some d" and "here_body c = None"
    and "part_ok c p d"
  shows "read_flat (fst p @ snd p # xs) (pre @ c # post) =
    read_flat xs (pre @ close_part c (fst p) # post)"
proof -
  define c' where "c' = add_body c (fst p)"
  have c': "cmd_current_delim c' = Some d" "here_line c' (snd p) = d"
    "close_part c (fst p) = close_part c' (fst p)"
    "here_body c' = (if fst p = [] then None else Some (body_text c (fst p)))"
    using assms(2-4) by (auto simp: c'_def add_body_def cmd_current_delim_def part_ok_def
        close_part_def body_of_cmd_def split: if_splits)
  moreover have "body_text c' = body_text c"
    by (simp add: c'_def add_body_def fun_eq_iff)
  ultimately have feed: "cmd_heredoc_feed (Some (snd p)) c' =
      (if cmd_heredoc_pending (close_part c (fst p)) then 1 else 0, True, close_part c (fst p))"
    using feed_close [OF c'(1,2), of "fst p"] by simp
  have "read_flat (fst p @ snd p # xs) (pre @ c # post) = read_flat (snd p # xs) (pre @ c' # post)"
    using assms unfolding c'_def
    by (intro read_flat_body) (auto simp: part_ok_def body_of_cmd_def)
  also have "\<dots> = read_flat xs (pre @ close_part c (fst p) # post)"
    by (rule read_flat_step [OF assms(1) current_delim_pending [OF c'(1)] feed]) simp
  finally show ?thesis .
qed

lemma current_delim_nth:
  "here_delim c \<noteq> None \<Longrightarrow> here_feed_i c < length (delims c) \<Longrightarrow>
     cmd_current_delim c = Some (delims c ! here_feed_i c)"
  by (auto simp: cmd_current_delim_def delims_def nth_append)

lemma read_flat_doc:
  assumes "\<not> some_pending pre" and "doc \<noteq> []" and "here_delim c \<noteq> None"
    and "here_body c = None" and "list_all2 (part_ok c) doc (drop (here_feed_i c) (delims c))"
  shows "read_flat (doc_lines doc @ xs) (pre @ c # post) =
    read_flat xs (pre @ c\<lparr>here_body := Some (body_text c (fst (last doc))),
      here_feed_i := here_feed_i c + length doc\<rparr> # post)"
  using assms(2-5)
proof (induction doc arbitrary: c)
  case Nil
  then show ?case by simp
next
  case (Cons p doc)
  let ?i = "here_feed_i c" and ?c = "close_part c (fst p)"
  have len: "length (delims c) = length (here_skip_delims c) + 1"
    using Cons.prems(2) by (auto simp: delims_def)
  have i: "?i < length (delims c)" using Cons.prems(4) by (auto dest: list_all2_lengthD)
  with Cons.prems(4) have p: "part_ok c p (delims c ! ?i)"
    and doc: "list_all2 (part_ok c) doc (drop (Suc ?i) (delims c))"
    by (auto simp: Cons_nth_drop_Suc [symmetric])
  have first: "read_flat (doc_lines (p # doc) @ xs) (pre @ c # post) =
      read_flat (doc_lines doc @ xs) (pre @ ?c # post)"
    using read_flat_part [OF assms(1) current_delim_nth [OF Cons.prems(2) i] Cons.prems(3) p]
    by (simp add: doc_lines_def)
  have same: "delims ?c = delims c" "part_ok ?c = part_ok c" "here_feed_i ?c = Suc ?i"
    by (auto simp: close_part_def delims_def part_ok_def fun_eq_iff)
  show ?case
  proof (cases "doc = []")
    case True
    then have "?i = length (here_skip_delims c)" using doc len i by auto
    then show ?thesis using first True
      by (simp add: close_part_def doc_lines_def)
  next
    case False
    then have "?i \<noteq> length (here_skip_delims c)" using doc len by auto
    then have c: "?c = c\<lparr>here_feed_i := Suc ?i\<rparr>"
      using Cons.prems(3) by (simp add: close_part_def)
    have "read_flat (doc_lines doc @ xs) (pre @ ?c # post) =
        read_flat xs (pre @ ?c\<lparr>here_body := Some (body_text ?c (fst (last doc))),
          here_feed_i := here_feed_i ?c + length doc\<rparr> # post)"
      using False Cons.prems(2,3) doc by (intro Cons.IH) (simp_all add: same, simp_all add: c)
    then show ?thesis using first False by (simp add: c)
  qed
qed

lemma read_flat_docs:
  assumes "list_all fresh cs" and "list_all2 doc_ok (filter cmd_heredoc_pending cs) docs"
    and "\<not> some_pending pre"
  shows "read_flat (concat (map doc_lines docs) @ xs) (pre @ cs) =
    Some (pre @ fill_cmds cs docs, xs)"
  using assms
proof (induction cs arbitrary: docs pre)
  case Nil
  then show ?case by (simp add: read_flat_done)
next
  case (Cons c cs)
  show ?case
  proof (cases "cmd_heredoc_pending c")
    case True
    then obtain d ds where docs: "docs = d # ds" and d: "doc_ok c d"
      and ds: "list_all2 doc_ok (filter cmd_heredoc_pending cs) ds"
      using Cons.prems(2) by (auto simp: list_all2_Cons1)
    have c: "here_feed_i c = 0" "here_body c = None" "here_delim c \<noteq> None"
      using True Cons.prems(1) by (auto simp: fresh_def cmd_heredoc_pending_def)
    then have len: "length d = length (here_skip_delims c) + 1"
      using d by (auto simp: doc_ok_def delims_def dest: list_all2_lengthD)
    have idle: "\<not> some_pending (pre @ [fill_cmd c d])"
    proof -
      have "\<not> cmd_heredoc_pending (fill_cmd c d)"
        using len by (simp add: fill_cmd_def cmd_heredoc_pending_def)
      then show ?thesis using Cons.prems(3) by simp
    qed
    have "read_flat (doc_lines d @ concat (map doc_lines ds) @ xs) (pre @ c # cs) =
        read_flat (concat (map doc_lines ds) @ xs) (pre @ fill_cmd c d # cs)"
      using read_flat_doc [OF Cons.prems(3) _ c(3,2), of d "concat (map doc_lines ds) @ xs" cs] c(1) d len
      by (cases d) (simp_all add: doc_ok_def fill_cmd_def)
    then show ?thesis
      using Cons.IH [OF _ ds idle] Cons.prems(1) True by (simp add: docs)
  next
    case False
    then have "\<not> some_pending (pre @ [c])" using Cons.prems(3) by simp
    moreover have "fill_cmds (c # cs) docs = c # fill_cmds cs docs"
      using False by (cases docs; cases cs) simp_all
    ultimately show ?thesis using Cons.IH [of docs "pre @ [c]"] Cons.prems False by simp
  qed
qed

lemma wf_fresh:
  "item_wf it \<Longrightarrow> list_all fresh (item_cmds it)"
  "body_wf b \<Longrightarrow> list_all fresh (body_cmds b)"
  "if_arm_wf a \<Longrightarrow> list_all fresh (arm_cmds a)"
  "case_arm_wf ca \<Longrightarrow> list_all fresh (case_arm_cmds ca)"
proof (induction it and b and a and ca)
qed (auto simp: list_all_iff fresh_def cmd_wf_def)

lemma plist_wf_fresh: "plist_wf l \<Longrightarrow> list_all fresh (list_cmds l)"
  using wf_fresh(1) by (auto simp: plist_wf_def list_cmds_def list_all_iff)

text \<open>
  C7. A reader that feeds the lines after a command gives every here-document of the command
  its body: for any tree as the parser leaves it, if the input starts with a document for each
  pending stage in source order (for every delimiter of the stage, lines none of which is the
  delimiter, within the size limit, then a line that is), the reader consumes exactly these
  lines, and each stage holds the lines of its last delimiter, without leading tabs when the
  operator is \<open><<-\<close>; the bodies of the earlier delimiters of the stage are dropped.
\<close>

theorem read_heredocs_fills:
  assumes "plist_wf l" and "list_all2 doc_ok (filter cmd_heredoc_pending (list_cmds l)) docs"
  shows "\<exists>l'. read_heredocs (concat (map doc_lines docs) @ rest) l = Some (l', rest) \<and>
    list_cmds l' = fill_cmds (list_cmds l) docs"
  using read_flat_docs [OF plist_wf_fresh [OF assms(1)] assms(2), of "[]" rest]
    read_refines [of "concat (map doc_lines docs) @ rest" l] by auto

definition demo_heredoc :: plist where
  "demo_heredoc = [Item (While_Item
     [Item (Pipeline [cmd_zero\<lparr>argv := [''true''], argv_quoted := Some [0]\<rparr>]) Cond_Always False]
     [Item (Pipeline [cmd_zero\<lparr>argv := [''cat''], argv_quoted := Some [0],
        here_delim := Some ''E'', here_strip := True, here_skip_delims := [''D'']\<rparr>])
        Cond_Always False]) Cond_Always False]"

theorem read_heredocs_fills_witness:
  "\<exists>l'. read_heredocs [''x'', ''D'', TAB # ''y'', TAB # ''E'', ''next''] demo_heredoc =
      Some (l', [''next'']) \<and>
    map here_body (list_cmds l') = [None, Some (''y'' @ [NL])]"
proof -
  let ?docs = "[[([''x''], ''D''), ([TAB # ''y''], TAB # ''E'')]]"
  have cs: "list_cmds demo_heredoc = [cmd_zero\<lparr>argv := [''true''], argv_quoted := Some [0]\<rparr>,
      cmd_zero\<lparr>argv := [''cat''], argv_quoted := Some [0],
        here_delim := Some ''E'', here_strip := True, here_skip_delims := [''D'']\<rparr>]"
    by (simp add: demo_heredoc_def)
  have p: "map cmd_heredoc_pending (list_cmds demo_heredoc) = [False, True]"
    by (simp add: cs cmd_heredoc_pending_def cmd_zero_def)
  have f: "plist_wf demo_heredoc"
    by (simp add: demo_heredoc_def plist_wf_def starts_always_def cmd_wf_def cmd_zero_def)
  have d: "list_all2 doc_ok (filter cmd_heredoc_pending (list_cmds demo_heredoc)) ?docs"
    by (simp add: cs cmd_heredoc_pending_def cmd_zero_def doc_ok_def delims_def part_ok_def
        here_line_def heredoc_max_def)
  show ?thesis
    using read_heredocs_fills [OF f d, of "[''next'']"]
    by (auto simp: doc_lines_def cs cmd_heredoc_pending_def cmd_zero_def fill_cmd_def
        here_line_def)
qed

end
