(* ===== verification/Clone.thy ===== *)
theory Clone
  imports Heredoc
begin

text \<open>
  Copies of lists (\<open>src/mid/dispatcher.c\<close>, \<open>clone_cmd\<close>, \<open>clone_pipeline\<close> and
  \<open>clone_list\<close>).  Expansion writes its results into the tree that is run, so the body of a
  function, of a \<open>for\<close> and of a branch of \<open>case\<close> is copied and the copy is run.  The copy
  starts from zeroed memory and is filled member by member; what the code does not copy would be
  lost on every call.  Failing allocations are not modelled.

  The copy is shown to be the tree itself for every list that the parser returns, before and
  after its here-documents are read, which is what lets the dispatcher run the body where the
  code runs its copy.
\<close>

section \<open>The code\<close>

definition clone_cmd :: "cmd \<Rightarrow> cmd" where
  "clone_cmd src =
     (let dst = cmd_zero\<lparr>redir_append := redir_append src, redir_err_append := redir_err_append src,
            redir_err_to_out := redir_err_to_out src, here_quoted := here_quoted src,
            here_strip := here_strip src, here_feed_i := here_feed_i src\<rparr>;
          dst = (if argc src > 0 then dst\<lparr>argv := argv src\<rparr> else dst);
          dst = (case argv_quoted src of
              None \<Rightarrow> dst
            | Some qs \<Rightarrow> if argc src > 0 then dst\<lparr>argv_quoted := Some (take (argc src) qs)\<rparr> else dst);
          dst = (case redir_in src of None \<Rightarrow> dst | Some p \<Rightarrow> dst\<lparr>redir_in := Some p\<rparr>);
          dst = (case redir_out src of None \<Rightarrow> dst | Some p \<Rightarrow> dst\<lparr>redir_out := Some p\<rparr>);
          dst = (case redir_err src of None \<Rightarrow> dst | Some p \<Rightarrow> dst\<lparr>redir_err := Some p\<rparr>);
          dst = (case here_delim src of None \<Rightarrow> dst | Some p \<Rightarrow> dst\<lparr>here_delim := Some p\<rparr>);
          dst = (case here_body src of None \<Rightarrow> dst | Some p \<Rightarrow> dst\<lparr>here_body := Some p\<rparr>)
      in if length (here_skip_delims src) > 0
         then dst\<lparr>here_skip_delims := here_skip_delims src\<rparr> else dst)"

definition clone_pipeline :: "pipeline \<Rightarrow> pipeline" where
  "clone_pipeline src = (if length src \<le> 0 then [] else map clone_cmd src)"

fun clone_item :: "list_item \<Rightarrow> list_item"
and clone_body :: "item_body \<Rightarrow> item_body"
and clone_list :: "plist \<Rightarrow> plist"
and clone_if_arm :: "if_arm \<Rightarrow> if_arm"
and clone_if_arms :: "if_arm list \<Rightarrow> if_arm list"
and clone_case_arm :: "case_arm \<Rightarrow> case_arm"
and clone_case_arms :: "case_arm list \<Rightarrow> case_arm list" where
  "clone_item (Item b c bg) = Item (clone_body b) c bg"
| "clone_body (If_Item arms) = If_Item (clone_if_arms arms)"
| "clone_body (While_Item c b) = While_Item (clone_list c) (clone_list b)"
| "clone_body (For_Item n ws b) = For_Item n (if length ws > 0 then ws else []) (clone_list b)"
| "clone_body (Fn_Item n b) = Fn_Item n (clone_list b)"
| "clone_body (Case_Item w arms) = Case_Item w (clone_case_arms arms)"
| "clone_body (Dbracket_Item ws qs) =
     (if length ws > 0 then Dbracket_Item ws (take (length ws) qs) else Dbracket_Item [] [])"
| "clone_body (Pipeline cs) = Pipeline (clone_pipeline cs)"
| "clone_list [] = []"
| "clone_list (it # l) = clone_item it # clone_list l"
| "clone_if_arm (If_Arm c b e) = If_Arm (clone_list c) (clone_list b) e"
| "clone_if_arms [] = []"
| "clone_if_arms (a # arms) = clone_if_arm a # clone_if_arms arms"
| "clone_case_arm (Case_Arm ps b) =
     Case_Arm (if length ps > 0 then ps else []) (clone_list b)"
| "clone_case_arms [] = []"
| "clone_case_arms (a # arms) = clone_case_arm a # clone_case_arms arms"

lemmas clone_induct =
  clone_item_clone_body_clone_list_clone_if_arm_clone_if_arms_clone_case_arm_clone_case_arms.induct

section \<open>What a copy is\<close>

text \<open>Where the arrays of a stage are not parallel the copy differs: it has no marks for a
  stage without words, and no more marks than words.\<close>

lemma copied_member:
  "redir_in d = None \<Longrightarrow> (case x of None \<Rightarrow> d | Some p \<Rightarrow> d\<lparr>redir_in := Some p\<rparr>) = d\<lparr>redir_in := x\<rparr>"
  "redir_out d = None \<Longrightarrow> (case x of None \<Rightarrow> d | Some p \<Rightarrow> d\<lparr>redir_out := Some p\<rparr>) = d\<lparr>redir_out := x\<rparr>"
  "redir_err d = None \<Longrightarrow> (case x of None \<Rightarrow> d | Some p \<Rightarrow> d\<lparr>redir_err := Some p\<rparr>) = d\<lparr>redir_err := x\<rparr>"
  "here_delim d = None \<Longrightarrow> (case x of None \<Rightarrow> d | Some p \<Rightarrow> d\<lparr>here_delim := Some p\<rparr>) = d\<lparr>here_delim := x\<rparr>"
  "here_body d = None \<Longrightarrow> (case x of None \<Rightarrow> d | Some p \<Rightarrow> d\<lparr>here_body := Some p\<rparr>) = d\<lparr>here_body := x\<rparr>"
  by (cases d; simp split: option.split)+

lemma copied_array:
  "argv d = [] \<Longrightarrow> (if length ws > 0 then d\<lparr>argv := ws\<rparr> else d) = d\<lparr>argv := ws\<rparr>"
  "here_skip_delims d = [] \<Longrightarrow> (if length ws > 0 then d\<lparr>here_skip_delims := ws\<rparr> else d) = d\<lparr>here_skip_delims := ws\<rparr>"
  "argv_quoted d = None \<Longrightarrow>
     (case q of None \<Rightarrow> d | Some qs \<Rightarrow> if length ws > 0 then d\<lparr>argv_quoted := Some (take (length ws) qs)\<rparr> else d) =
     d\<lparr>argv_quoted := if ws = [] then None else map_option (take (length ws)) q\<rparr>"
  by (cases d; simp split: option.split)+

lemma clone_cmd_eq:
  "clone_cmd c = c\<lparr>argv_quoted :=
     (if argv c = [] then None else map_option (take (argc c)) (argv_quoted c))\<rparr>"
  unfolding clone_cmd_def Let_def by (simp add: copied_member copied_array cmd_zero_def)

definition quotes_parallel :: "cmd \<Rightarrow> bool" where
  "quotes_parallel c \<longleftrightarrow> (case argv_quoted c of None \<Rightarrow> True
     | Some qs \<Rightarrow> argv c \<noteq> [] \<and> length qs \<le> argc c)"

lemma clone_cmd_same_iff: "clone_cmd c = c \<longleftrightarrow> quotes_parallel c"
  by (cases c) (auto simp: clone_cmd_eq quotes_parallel_def split: option.splits)

lemma clone_cmd_parallel [simp]: "quotes_parallel (clone_cmd c)"
  by (auto simp: clone_cmd_eq quotes_parallel_def split: option.splits)

lemma clone_pipeline_map [simp]: "clone_pipeline cs = map clone_cmd cs"
  by (cases cs) (simp_all add: clone_pipeline_def)

fun marks_item :: "list_item \<Rightarrow> bool"
and marks_body :: "item_body \<Rightarrow> bool"
and marks_list :: "plist \<Rightarrow> bool"
and marks_if_arm :: "if_arm \<Rightarrow> bool"
and marks_if_arms :: "if_arm list \<Rightarrow> bool"
and marks_case_arm :: "case_arm \<Rightarrow> bool"
and marks_case_arms :: "case_arm list \<Rightarrow> bool" where
  "marks_item (Item b c bg) = marks_body b"
| "marks_body (Pipeline cs) = list_all quotes_parallel cs"
| "marks_body (If_Item arms) = marks_if_arms arms"
| "marks_body (While_Item c b) = (marks_list c \<and> marks_list b)"
| "marks_body (For_Item n ws b) = marks_list b"
| "marks_body (Fn_Item n b) = marks_list b"
| "marks_body (Case_Item w arms) = marks_case_arms arms"
| "marks_body (Dbracket_Item ws qs) = (length qs \<le> length ws)"
| "marks_list [] = True"
| "marks_list (it # l) = (marks_item it \<and> marks_list l)"
| "marks_if_arm (If_Arm c b e) = (marks_list c \<and> marks_list b)"
| "marks_if_arms [] = True"
| "marks_if_arms (a # arms) = (marks_if_arm a \<and> marks_if_arms arms)"
| "marks_case_arm (Case_Arm ps b) = marks_list b"
| "marks_case_arms [] = True"
| "marks_case_arms (a # arms) = (marks_case_arm a \<and> marks_case_arms arms)"

lemma map_same_iff: "map f xs = xs \<longleftrightarrow> list_all (\<lambda>x. f x = x) xs"
  by (induction xs) auto

lemma clone_same_iff:
  "clone_item it = it \<longleftrightarrow> marks_item it"
  "clone_body b = b \<longleftrightarrow> marks_body b"
  "clone_list l = l \<longleftrightarrow> marks_list l"
  "clone_if_arm a = a \<longleftrightarrow> marks_if_arm a"
  "clone_if_arms arms = arms \<longleftrightarrow> marks_if_arms arms"
  "clone_case_arm ca = ca \<longleftrightarrow> marks_case_arm ca"
  "clone_case_arms cas = cas \<longleftrightarrow> marks_case_arms cas"
  by (induction it and b and l and a and arms and ca and cas rule: clone_induct)
    (auto simp: map_same_iff clone_cmd_same_iff)

lemma clone_marks:
  "marks_item (clone_item it)" "marks_body (clone_body b)" "marks_list (clone_list l)"
  "marks_if_arm (clone_if_arm a)" "marks_if_arms (clone_if_arms arms)"
  "marks_case_arm (clone_case_arm ca)" "marks_case_arms (clone_case_arms cas)"
  by (induction it and b and l and a and arms and ca and cas rule: clone_induct)
    (auto simp: list_all_iff)

text \<open>A copy of a copy is the same copy.\<close>

lemma clone_clone: "clone_list (clone_list l) = clone_list l"
  by (simp add: clone_same_iff clone_marks)

section \<open>The trees of the parser are copied faithfully\<close>

lemma wf_quotes: "cmd_wf c \<Longrightarrow> quotes_parallel c"
  by (auto simp: cmd_wf_def quotes_parallel_def split: option.splits)

lemma wf_marks:
  "item_wf it \<Longrightarrow> marks_item it" "body_wf b \<Longrightarrow> marks_body b" "list_all item_wf l \<Longrightarrow> marks_list l"
  "if_arm_wf a \<Longrightarrow> marks_if_arm a" "list_all if_arm_wf arms \<Longrightarrow> marks_if_arms arms"
  "case_arm_wf ca \<Longrightarrow> marks_case_arm ca" "list_all case_arm_wf cas \<Longrightarrow> marks_case_arms cas"
  by (induction it and b and l and a and arms and ca and cas rule: clone_induct)
    (auto simp: list_all_iff wf_quotes)

lemma feed_quotes [simp]:
  "quotes_parallel c \<Longrightarrow> quotes_parallel (snd (snd (cmd_heredoc_feed line c)))"
  by (auto simp: cmd_heredoc_feed_def here_body_append_def quotes_parallel_def Let_def split: option.splits)

lemma pipeline_feed_quotes [simp]:
  "list_all quotes_parallel cs \<Longrightarrow> list_all quotes_parallel (snd (snd (pipeline_heredoc_feed line cs)))"
  by (induction cs) (auto simp: case_prod_beta)

lemma seq_feed_parts:
  assumes "P (snd (snd x))" and "Q b" and "Q (snd (snd y))"
  shows "P (fst (snd (snd (seq_feed x y b)))) \<and> Q (snd (snd (snd (seq_feed x y b))))"
  using assms by (simp add: seq_feed_def case_prod_beta)

lemma feed_marks:
  "marks_item it \<Longrightarrow> marks_item (snd (snd (item_heredoc_feed line it)))"
  "marks_body b \<Longrightarrow> marks_body (snd (snd (body_heredoc_feed line b)))"
  "marks_list l \<Longrightarrow> marks_list (snd (snd (list_heredoc_feed line l)))"
  "marks_if_arm a \<Longrightarrow> marks_if_arm (snd (snd (arm_heredoc_feed line a)))"
  "marks_if_arms arms \<Longrightarrow> marks_if_arms (snd (snd (arms_heredoc_feed line arms)))"
  "marks_case_arm ca \<Longrightarrow> marks_case_arm (snd (snd (case_arm_heredoc_feed line ca)))"
  "marks_case_arms cas \<Longrightarrow> marks_case_arms (snd (snd (case_arms_heredoc_feed line cas)))"
proof (induction line it and line b and line l and line a and line arms and line ca and line cas
    rule: feed_cmds_induct)
  case (4 line c b)
  then show ?case by (simp add: case_prod_beta seq_feed_parts [where P = marks_list and Q = marks_list])
next
  case (11 line c b e)
  then show ?case by (simp add: case_prod_beta seq_feed_parts [where P = marks_list and Q = marks_list])
next
  case (13 line a arms)
  then show ?case by (simp add: case_prod_beta seq_feed_parts [where P = marks_if_arm and Q = marks_if_arms])
next
  case (16 line a arms)
  then show ?case by (simp add: case_prod_beta seq_feed_parts [where P = marks_case_arm and Q = marks_case_arms])
qed (simp_all add: case_prod_beta)

lemma feed_line_marks: "marks_list l \<Longrightarrow> marks_list (snd (petrush_heredoc_feed_line l line))"
  using feed_marks(3) [of l line] by (auto simp: petrush_heredoc_feed_line_def split: prod.splits)

lemma read_marks: "marks_list l \<Longrightarrow> read_heredocs lines l = Some (l', rest) \<Longrightarrow> marks_list l'"
proof (induction lines arbitrary: l)
  case Nil
  then show ?case by (subst (asm) read_heredocs.simps) (auto split: if_splits)
next
  case (Cons x xs)
  show ?case
  proof (cases "list_heredoc_pending l")
    case False
    then show ?thesis using Cons.prems by (simp add: read_heredocs.simps)
  next
    case True
    obtain rc l1 where fed: "petrush_heredoc_feed_line l (Some x) = (rc, l1)" by fastforce
    then have "read_heredocs xs l1 = Some (l', rest)"
      using Cons.prems True by (subst (asm) read_heredocs.simps) (auto split: if_splits)
    moreover have "marks_list l1" using feed_line_marks [OF Cons.prems(1), of "Some x"] fed by simp
    ultimately show ?thesis by (rule Cons.IH [rotated])
  qed
qed

text \<open>A list that the parser returned, with or without the here-documents read into it, is
  copied without loss.\<close>

theorem clone_parsed: "plist_wf l \<Longrightarrow> clone_list l = l"
  by (simp add: clone_same_iff plist_wf_def wf_marks)

theorem clone_read:
  "plist_wf l \<Longrightarrow> read_heredocs lines l = Some (l', rest) \<Longrightarrow> clone_list l' = l'"
  by (metis clone_same_iff(3) plist_wf_def read_marks wf_marks(3))

end
