(* ===== verification/Globbing.thy ===== *)
theory Globbing
  imports Prelude "HOL-Library.Char_ord" "HOL-Library.List_Lexorder"
begin

text \<open>
  Glob patterns: the two portable matchers, \<open>match_pat\<close> of \<open>src/mid/expand.c\<close> for
  pathnames and \<open>case_pat_match\<close> of \<open>src/mid/dispatcher.c\<close> for \<open>case\<close> and
  \<open>[[ == ]]\<close>, and the expansion of a pathname pattern against a directory (\<open>glob_word\<close>).
  Both matchers backtrack to the last star only; both are shown to decide the relation
  \<open>globs\<close>, and the locale \<open>glob_matcher\<close> is the contract their clients use.
  The assembly matcher that replaces both under \<open>PETRUSH_HAVE_ASM\<close> has the same contract
  and is not modelled.
\<close>

section \<open>What a pattern matches\<close>

abbreviation STAR :: char where "STAR \<equiv> CHR ''*''"
abbreviation QMARK :: char where "QMARK \<equiv> CHR ''?''"

inductive globs :: "string \<Rightarrow> string \<Rightarrow> bool" where
  globs_nil: "globs [] []"
| globs_lit: "c \<noteq> STAR \<Longrightarrow> globs p s \<Longrightarrow> globs (c # p) (c # s)"
| globs_any: "globs p s \<Longrightarrow> globs (QMARK # p) (c # s)"
| globs_star: "globs p s \<Longrightarrow> globs (STAR # p) (u @ s)"

inductive_cases globs_NilE: "globs [] s"
inductive_cases globs_StarE: "globs (STAR # p) s"
inductive_simps globs_Nil_iff [simp]: "globs [] s"
inductive_simps globs_Cons_iff: "globs (c # p) s"

section \<open>The matchers\<close>

definition trailing_stars :: "string \<Rightarrow> bool" where
  "trailing_stars p \<longleftrightarrow> dropWhile (\<lambda>c. c = STAR) p = []"

text \<open>
  The loops keep \<open>p\<close>, \<open>s\<close> and, once a star was seen, \<open>star_p\<close> and \<open>star_s\<close>, each as the
  text from the pointer on.
\<close>

function match_pat_loop :: "string \<Rightarrow> string \<Rightarrow> (string \<times> string) option \<Rightarrow> bool" where
  "match_pat_loop p s star =
     (if s = [] then trailing_stars p
      else if peek p = STAR then
        let p' = dropWhile (\<lambda>c. c = STAR) p
        in if p' = [] then True else match_pat_loop p' s (Some (p', s))
      else if p \<noteq> [] \<and> (peek p = QMARK \<or> peek p = peek s) then match_pat_loop (tl p) (tl s) star
      else case star of
        Some (sp, c # ss) \<Rightarrow> match_pat_loop sp ss (Some (sp, ss))
      | _ \<Rightarrow> False)"
  by pat_completeness auto

function case_pat_loop :: "string \<Rightarrow> string \<Rightarrow> (string \<times> string) option \<Rightarrow> bool" where
  "case_pat_loop p s star =
     (if s = [] then trailing_stars p
      else if peek p = STAR then case_pat_loop (tl p) s (Some (tl p, s))
      else if p \<noteq> [] \<and> (peek p = QMARK \<or> peek p = peek s) then case_pat_loop (tl p) (tl s) star
      else case star of
        Some (sp, c # ss) \<Rightarrow> case_pat_loop sp ss (Some (sp, ss))
      | _ \<Rightarrow> False)"
  by pat_completeness auto

text \<open>Both loops end: a new star shortens the pattern that is left, a retry the string after
  the last star, and a step the string.\<close>

fun pat_left :: "string \<times> string \<times> (string \<times> string) option \<Rightarrow> nat" where
  "pat_left (p, s, None) = length p"
| "pat_left (p, s, Some (sp, ss)) = max (length p) (length sp)"

fun str_left :: "string \<times> string \<times> (string \<times> string) option \<Rightarrow> nat" where
  "str_left (p, s, None) = length s"
| "str_left (p, s, Some (sp, ss)) = max (length s) (length ss)"

lemma peek_star:
  "peek p = STAR \<Longrightarrow> p \<noteq> [] \<and> length (tl p) < length p \<and>
     length (dropWhile (\<lambda>c. c = STAR) p) < length p"
  by (cases p) (auto simp: le_imp_less_Suc length_dropWhile_le)

definition glob_rel :: "((string \<times> string \<times> (string \<times> string) option) \<times>
    (string \<times> string \<times> (string \<times> string) option)) set" where
  "glob_rel = measures [pat_left, str_left, \<lambda>(p, s, star). length s]"

lemma glob_rel_star: "length p' < length p \<Longrightarrow> ((p', s, Some (p', s)), (p, s, star)) \<in> glob_rel"
  by (cases star) (auto simp: glob_rel_def)

lemma glob_rel_step: "p \<noteq> [] \<Longrightarrow> s \<noteq> [] \<Longrightarrow> ((tl p, tl s, star), (p, s, star)) \<in> glob_rel"
  by (cases p; cases s; cases star) (auto simp: glob_rel_def)

lemma glob_rel_retry: "((sp, ss, Some (sp, ss)), (p, s, Some (sp, c # ss))) \<in> glob_rel"
  by (auto simp: glob_rel_def)

lemma wf_glob_rel: "wf glob_rel"
  by (simp add: glob_rel_def)

termination match_pat_loop
  by (relation glob_rel)
    (auto intro: wf_glob_rel glob_rel_star glob_rel_step glob_rel_retry dest: peek_star)

termination case_pat_loop
  by (relation glob_rel)
    (auto intro: wf_glob_rel glob_rel_star glob_rel_step glob_rel_retry dest: peek_star)

declare match_pat_loop.simps [simp del] case_pat_loop.simps [simp del]

definition match_pat :: "string \<Rightarrow> string \<Rightarrow> bool" where
  "match_pat pat str = match_pat_loop pat str None"

definition case_pat_match :: "string \<Rightarrow> string \<Rightarrow> bool" where
  "case_pat_match pat str = case_pat_loop pat str None"

section \<open>The matchers decide the relation\<close>

lemma globs_star_iff: "globs (STAR # p) s \<longleftrightarrow> (\<exists>u v. s = u @ v \<and> globs p v)"
  by (blast elim: globs_StarE intro: globs_star)

lemma globs_star_suffix: "globs (STAR # p) s \<Longrightarrow> globs (STAR # p) (u @ s)"
  unfolding globs_star_iff by (metis append.assoc)

lemma globs_star_star: "globs (STAR # STAR # p) s \<longleftrightarrow> globs (STAR # p) s"
  unfolding globs_star_iff by (metis append.assoc append.left_neutral)

lemma globs_star_Cons: "globs (STAR # p) (c # s) \<longleftrightarrow> globs p (c # s) \<or> globs (STAR # p) s"
  unfolding globs_star_iff by (auto simp: Cons_eq_append_conv)

lemma globs_stars:
  "globs (STAR # dropWhile (\<lambda>c. c = STAR) p) s \<longleftrightarrow> globs (STAR # p) s"
  by (induction p) (auto simp: globs_star_star)

lemma globs_stars_head:
  "peek p = STAR \<Longrightarrow> globs p s \<longleftrightarrow> globs (STAR # dropWhile (\<lambda>c. c = STAR) p) s"
  by (cases p) (auto simp: globs_stars)

lemma trailing_stars_iff: "trailing_stars p \<longleftrightarrow> globs p []"
  by (induction p) (auto simp: trailing_stars_def globs_Cons_iff)

text \<open>A prefix without stars consumes as many bytes as it has.\<close>

lemma globs_no_star:
  "globs (q @ p) s \<Longrightarrow> STAR \<notin> set q \<Longrightarrow> \<exists>u v. s = u @ v \<and> length u = length q \<and> globs p v"
proof (induction q arbitrary: s)
  case (Cons c q)
  then obtain d s' where s: "s = d # s'" "globs (q @ p) s'"
    by (auto simp: globs_Cons_iff)
  from Cons.IH [OF s(2)] Cons.prems(2) obtain u v
    where "s' = u @ v" "length u = length q" "globs p v" by auto
  with s show ?case by (intro exI [of _ "d # u"] exI [of _ v]) simp
qed auto

lemma globs_step:
  "c \<noteq> STAR \<Longrightarrow> globs (c # p) (d # s) \<longleftrightarrow> (c = QMARK \<or> c = d) \<and> globs p s"
  by (auto simp: globs_Cons_iff)

text \<open>
  \<open>near p s star\<close>: since the last star the loop has consumed as many bytes as pattern
  characters, none of them a star.  \<open>retry star\<close>: some later start after the last star matches.
\<close>

fun near :: "string \<Rightarrow> string \<Rightarrow> (string \<times> string) option \<Rightarrow> bool" where
  "near p s None \<longleftrightarrow> True"
| "near p s (Some (sp, ss)) \<longleftrightarrow>
     (\<exists>q u. sp = q @ p \<and> STAR \<notin> set q \<and> ss = u @ s \<and> length u = length q)"

fun retry :: "(string \<times> string) option \<Rightarrow> bool" where
  "retry (Some (sp, c # ss)) \<longleftrightarrow> globs (STAR # sp) ss"
| "retry star \<longleftrightarrow> False"

lemma near_start: "near p s (Some (p, s))"
  by simp

lemma near_step:
  "near (c # p) (d # s) star \<Longrightarrow> c \<noteq> STAR \<Longrightarrow> near p s star"
proof (cases star)
  case (Some z)
  assume "near (c # p) (d # s) star" and "c \<noteq> STAR"
  with Some obtain sp ss q u where "z = (sp, ss)" "sp = q @ c # p" "STAR \<notin> set q"
    "ss = u @ d # s" "length u = length q"
    by (cases z) auto
  with Some \<open>c \<noteq> STAR\<close> show ?thesis
    by (auto intro!: exI [of _ "q @ [c]"] exI [of _ "u @ [d]"])
qed simp

lemma retry_from: "globs p s \<or> retry (Some (p, s)) \<longleftrightarrow> globs (STAR # p) s"
proof (cases s)
  case Nil
  then show ?thesis by (simp add: globs_star_iff)
next
  case (Cons c ss)
  then show ?thesis by (simp add: globs_star_Cons)
qed

text \<open>At the end of the string no retry can match, and at a new star every retry of the old
  one is a retry of the new one.\<close>

lemma retry_short: "near p s star \<Longrightarrow> retry star \<Longrightarrow> \<exists>v. globs p v \<and> (\<exists>w. s = w @ v)"
proof (cases star)
  case (Some z)
  assume "near p s star" and "retry star"
  with Some obtain sp c ss q u where z: "z = (sp, c # ss)" "sp = q @ p" "STAR \<notin> set q"
    "c # ss = u @ s" "length u = length q" "globs (STAR # sp) ss"
    by (cases z; cases "snd z") auto
  then obtain a b where ab: "ss = a @ b" "globs (q @ p) b" by (auto simp: globs_star_iff)
  with z obtain e v where v: "b = e @ v" "length e = length q" "globs p v"
    using globs_no_star by blast
  then have eq: "(c # a @ e) @ v = u @ s" and le: "length u \<le> length (c # a @ e)"
    using z ab by auto
  have "\<exists>w. s = w @ v"
    using eq [unfolded append_eq_append_conv2] le by auto
  with v show ?thesis by blast
qed simp

lemma retry_end: "near p [] star \<Longrightarrow> retry star \<Longrightarrow> globs p []"
  by (drule retry_short) auto

lemma retry_star: "near (STAR # p) s star \<Longrightarrow> retry star \<Longrightarrow> globs (STAR # p) s"
  by (drule retry_short) (auto intro: globs_star_suffix)

lemma match_pat_loop_iff:
  "near p s star \<Longrightarrow> match_pat_loop p s star \<longleftrightarrow> globs p s \<or> retry star"
proof (induction p s star rule: match_pat_loop.induct)
  case (1 p s star)
  consider (finish) "s = []" | (star) "s \<noteq> []" "peek p = STAR"
    | (step) "s \<noteq> []" "peek p \<noteq> STAR" "p \<noteq> []" "peek p = QMARK \<or> peek p = peek s"
    | (miss) "s \<noteq> []" "peek p \<noteq> STAR" "p = [] \<or> (peek p \<noteq> QMARK \<and> peek p \<noteq> peek s)"
    by blast
  then show ?case
  proof cases
    case finish
    then show ?thesis using "1.prems" retry_end
      by (subst match_pat_loop.simps) (auto simp: trailing_stars_iff)
  next
    case star
    let ?p = "dropWhile (\<lambda>c. c = STAR) p"
    have p: "globs p s \<longleftrightarrow> globs (STAR # ?p) s" using star by (intro globs_stars_head)
    have old: "globs (STAR # ?p) s" if "retry star"
      using retry_star [of "tl p" s star] that star "1.prems" by (cases p) (auto simp: globs_stars)
    show ?thesis
    proof (cases "?p = []")
      case True
      moreover have "globs [STAR] s" using globs_star [OF globs_nil, of s] by simp
      ultimately have "globs p s" using p by (simp only: True)
      moreover have "match_pat_loop p s star"
        using star True by (subst match_pat_loop.simps) (simp add: Let_def)
      ultimately show ?thesis by simp
    next
      case False
      then have "match_pat_loop p s star \<longleftrightarrow> match_pat_loop ?p s (Some (?p, s))"
        using star by (subst match_pat_loop.simps) (simp add: Let_def del: dropWhile_eq_Nil_conv)
      also have "\<dots> \<longleftrightarrow> globs ?p s \<or> retry (Some (?p, s))"
        using "1.IH"(1) [OF star refl False near_start] .
      also have "\<dots> \<longleftrightarrow> globs (STAR # ?p) s"
        using star by (cases s) (auto simp: globs_star_Cons)
      finally show ?thesis using p old by blast
    qed
  next
    case step
    then obtain c p' d s' where cs: "p = c # p'" "s = d # s'" by (cases p; cases s) auto
    have "match_pat_loop p' s' star \<longleftrightarrow> globs p' s' \<or> retry star"
      using "1.IH"(2) step cs near_step [of c p' d s' star] "1.prems" by auto
    then show ?thesis using step cs
      by (subst match_pat_loop.simps) (auto simp: globs_step)
  next
    case miss
    have no: "\<not> globs p s"
      using miss by (cases p; cases s) (auto simp: globs_step)
    show ?thesis
    proof (cases "\<exists>sp c ss. star = Some (sp, c # ss)")
      case True
      then obtain sp c ss where st: "star = Some (sp, c # ss)" by blast
      have "match_pat_loop p s star \<longleftrightarrow> match_pat_loop sp ss (Some (sp, ss))"
        using miss st by (subst match_pat_loop.simps) auto
      also have "\<dots> \<longleftrightarrow> globs sp ss \<or> retry (Some (sp, ss))"
        using "1.IH"(3) miss st near_start by blast
      also have "\<dots> \<longleftrightarrow> globs (STAR # sp) ss" by (rule retry_from)
      finally show ?thesis using no st by simp
    next
      case False
      then have "\<not> retry star" by (cases star rule: retry.cases) auto
      moreover have "\<not> match_pat_loop p s star"
        using miss False by (subst match_pat_loop.simps) (auto split: option.splits list.splits)
      ultimately show ?thesis using no by simp
    qed
  qed
qed

lemma case_pat_loop_iff:
  "near p s star \<Longrightarrow> case_pat_loop p s star \<longleftrightarrow> globs p s \<or> retry star"
proof (induction p s star rule: case_pat_loop.induct)
  case (1 p s star)
  consider (finish) "s = []" | (star) p' d s' where "p = STAR # p'" "s = d # s'"
    | (step) c p' d s' where "p = c # p'" "s = d # s'" "c \<noteq> STAR" "c = QMARK \<or> c = d"
    | (miss) "s \<noteq> []" "peek p \<noteq> STAR" "p = [] \<or> (peek p \<noteq> QMARK \<and> peek p \<noteq> peek s)"
    by (cases p; cases s) auto
  then show ?case
  proof cases
    case finish
    then show ?thesis using "1.prems" retry_end
      by (subst case_pat_loop.simps) (auto simp: trailing_stars_iff)
  next
    case star
    have "case_pat_loop p s star \<longleftrightarrow> case_pat_loop p' s (Some (p', s))"
      using star by (subst case_pat_loop.simps) simp
    also have "\<dots> \<longleftrightarrow> globs p' s \<or> retry (Some (p', s))"
      using "1.IH"(1) near_start star by simp
    also have "\<dots> \<longleftrightarrow> globs p s" using star by (simp add: globs_star_Cons)
    finally show ?thesis using retry_star "1.prems" star by blast
  next
    case step
    have "case_pat_loop p' s' star \<longleftrightarrow> globs p' s' \<or> retry star"
      using "1.IH"(2) step near_step [of c p' d s' star] "1.prems" by auto
    then show ?thesis using step
      by (subst case_pat_loop.simps) (auto simp: globs_step)
  next
    case miss
    have no: "\<not> globs p s"
      using miss by (cases p; cases s) (auto simp: globs_step)
    show ?thesis
    proof (cases "\<exists>sp c ss. star = Some (sp, c # ss)")
      case True
      then obtain sp c ss where st: "star = Some (sp, c # ss)" by blast
      have "case_pat_loop p s star \<longleftrightarrow> case_pat_loop sp ss (Some (sp, ss))"
        using miss st by (subst case_pat_loop.simps) auto
      also have "\<dots> \<longleftrightarrow> globs sp ss \<or> retry (Some (sp, ss))"
        using "1.IH"(3) miss st near_start by blast
      also have "\<dots> \<longleftrightarrow> globs (STAR # sp) ss" by (rule retry_from)
      finally show ?thesis using no st by simp
    next
      case False
      then have "\<not> retry star" by (cases star rule: retry.cases) auto
      moreover have "\<not> case_pat_loop p s star"
        using miss False by (subst case_pat_loop.simps) (auto split: option.splits list.splits)
      ultimately show ?thesis using no by simp
    qed
  qed
qed


section \<open>The contract of a matcher\<close>

locale glob_matcher =
  fixes m :: "string \<Rightarrow> string \<Rightarrow> bool"
  assumes decides: "m p s \<longleftrightarrow> globs p s"
begin

lemma star_any: "m [STAR] s"
  using globs_star [OF globs_nil, of s] by (simp add: decides)

lemma literal: "STAR \<notin> set p \<Longrightarrow> QMARK \<notin> set p \<Longrightarrow> m p s \<longleftrightarrow> s = p"
proof (induction p arbitrary: s)
  case Nil
  then show ?case by (simp add: decides)
next
  case (Cons c p)
  then have c: "c \<noteq> STAR" "c \<noteq> QMARK" and IH: "\<And>s. globs p s \<longleftrightarrow> s = p"
    by (auto simp: decides)
  show ?case
  proof (cases s)
    case Nil
    then show ?thesis using c by (simp add: decides globs_Cons_iff)
  next
    case (Cons d s')
    then show ?thesis using c by (auto simp: decides globs_step IH)
  qed
qed

lemma self: "m p p"
proof -
  have "globs p p"
    by (induction p) (auto intro: globs_nil globs_lit globs_star [of _ _ "[STAR]", simplified])
  then show ?thesis by (simp add: decides)
qed

lemma prefix: "STAR \<notin> set p \<Longrightarrow> QMARK \<notin> set p \<Longrightarrow> m (p @ [STAR]) s \<longleftrightarrow> (\<exists>v. s = p @ v)"
proof (induction p arbitrary: s)
  case Nil
  then show ?case using star_any by simp
next
  case (Cons c p)
  then have c: "c \<noteq> STAR" "c \<noteq> QMARK" and IH: "\<And>s. globs (p @ [STAR]) s \<longleftrightarrow> (\<exists>v. s = p @ v)"
    by (auto simp: decides)
  show ?case
  proof (cases s)
    case Nil
    then show ?thesis using c by (simp add: decides globs_Cons_iff)
  next
    case (Cons d s')
    then show ?thesis using c by (auto simp: decides globs_step IH)
  qed
qed

end

interpretation pathname: glob_matcher match_pat
  by unfold_locales (simp add: match_pat_def match_pat_loop_iff)

interpretation case_word: glob_matcher case_pat_match
  by unfold_locales (simp add: case_pat_match_def case_pat_loop_iff)

text \<open>
  C9. The two matchers of the shell are the same function, and decide the glob relation: the
  loop that only ever backtracks to the last star, and the variant of \<open>case\<close> that does not
  skip runs of stars, accept exactly the strings that the pattern describes.
\<close>

theorem matchers_decide_globs:
  "match_pat p s = case_pat_match p s \<and> match_pat p s = globs p s"
  by (simp add: pathname.decides case_word.decides)

section \<open>Pathname expansion\<close>

text \<open>
  \<open>glob_word\<close> reads one directory.  \<open>readdir dir\<close> is the sequence of names that
  \<open>opendir\<close>/\<open>readdir\<close> give for \<open>dir\<close>, \<open>None\<close> when it cannot be opened.  The result
  \<open>None\<close> is the C result \<open>NULL\<close> with \<open>*n = -1\<close>: too many matches or a path that does
  not fit.
\<close>

definition glob_max :: nat where "glob_max = 256"
definition path_max :: nat where "path_max = 4096"

abbreviation SLASH :: char where "SLASH \<equiv> CHR ''/''"

fun double_star :: "string \<Rightarrow> bool" where
  "double_star (c # d # s) \<longleftrightarrow> c = STAR \<and> d = STAR \<or> double_star (d # s)"
| "double_star s \<longleftrightarrow> False"

definition pattern_has_meta :: "string \<Rightarrow> bool" where
  "pattern_has_meta s \<longleftrightarrow> STAR \<in> set s \<or> QMARK \<in> set s"

text \<open>\<open>strrchr\<close>: the text before and after the last slash.\<close>

definition split_last_slash :: "string \<Rightarrow> (string \<times> string) option" where
  "split_last_slash s =
     (if SLASH \<notin> set s then None
      else let base = rev (takeWhile (\<lambda>c. c \<noteq> SLASH) (rev s))
           in Some (take (length s - length base - 1) s, base))"

text \<open>The directory to read, the pattern for its names and whether the word has a slash;
  \<open>None\<close> when the word is taken literally.\<close>

definition glob_plan :: "string \<Rightarrow> (string \<times> string \<times> bool) option" where
  "glob_plan pattern =
     (if double_star pattern \<or> \<not> pattern_has_meta pattern then None
      else case split_last_slash pattern of
        None \<Rightarrow> Some (''.'', pattern, False)
      | Some (d, base) \<Rightarrow>
          if d \<noteq> [] \<and> length d \<ge> path_max then None
          else let dir = (if d = [] then ''/'' else d)
               in if pattern_has_meta dir \<or> \<not> pattern_has_meta base then None
                  else Some (dir, base, True))"

definition glob_skips :: "string \<Rightarrow> string \<Rightarrow> bool" where
  "glob_skips base name \<longleftrightarrow> name = ''.'' \<or> name = ''..'' \<or>
     peek name = CHR ''.'' \<and> peek base \<noteq> CHR ''.'' \<or> \<not> match_pat base name"

definition glob_path :: "string \<Rightarrow> bool \<Rightarrow> string \<Rightarrow> string" where
  "glob_path dir slash name =
     (if slash then if dir = ''/'' then SLASH # name else dir @ SLASH # name else name)"

fun glob_entries :: "string \<times> string \<times> bool \<Rightarrow> string list \<Rightarrow> string list \<Rightarrow> string list option" where
  "glob_entries plan [] acc = Some (rev acc)"
| "glob_entries (dir, base, slash) (name # ents) acc =
     (if glob_skips base name then glob_entries (dir, base, slash) ents acc
      else if length acc \<ge> glob_max then None
      else let path = glob_path dir slash name
           in if length path \<ge> path_max then None
              else glob_entries (dir, base, slash) ents (path # acc))"

definition glob_word :: "(string \<Rightarrow> string list option) \<Rightarrow> string \<Rightarrow> string list option" where
  "glob_word readdir pattern =
     (case glob_plan pattern of
        None \<Rightarrow> Some [pattern]
      | Some (dir, base, slash) \<Rightarrow> (case readdir dir of
          None \<Rightarrow> Some [pattern]
        | Some ents \<Rightarrow> (case glob_entries (dir, base, slash) ents [] of
            None \<Rightarrow> None
          | Some [] \<Rightarrow> Some [pattern]
          | Some ms \<Rightarrow> Some (sort ms))))"

lemma glob_entries_eq:
  "length acc \<le> glob_max \<Longrightarrow> glob_entries (dir, base, slash) ents acc =
     (let paths = map (glob_path dir slash) (filter (\<lambda>n. \<not> glob_skips base n) ents)
      in if length acc + length paths > glob_max \<or> (\<exists>p\<in>set paths. length p \<ge> path_max) then None
         else Some (rev acc @ paths))"
  by (induction ents arbitrary: acc) (auto simp: Let_def)

text \<open>The names of a directory that a pattern selects, in the order of the directory.\<close>

definition glob_names :: "string \<Rightarrow> string list \<Rightarrow> string list" where
  "glob_names base ents =
     filter (\<lambda>n. n \<noteq> ''.'' \<and> n \<noteq> ''..'' \<and> (peek n = CHR ''.'' \<longrightarrow> peek base = CHR ''.'') \<and>
       globs base n) ents"

text \<open>
  C29. Pathname expansion of a word whose last component is a pattern: the shell reads the
  directory of the word, takes exactly the names the pattern describes (never the entries for
  the directory itself and its parent, and the hidden ones only for a pattern that starts with
  a dot), and returns their paths in byte order.  Without a match the word stays as it is; with
  more than 256 matches, or a path of 4096 bytes or more, it reports an error and never a
  truncated list.
\<close>

theorem glob_word_selects:
  assumes "glob_plan pattern = Some (dir, base, slash)" and "readdir dir = Some ents"
  shows "glob_word readdir pattern =
    (let paths = map (glob_path dir slash) (glob_names base ents)
     in if length paths > glob_max \<or> (\<exists>p\<in>set paths. length p \<ge> path_max) then None
        else if paths = [] then Some [pattern] else Some (sort paths))"
proof -
  have "filter (\<lambda>n. \<not> glob_skips base n) ents = glob_names base ents"
    by (auto simp: glob_names_def glob_skips_def pathname.decides intro!: filter_cong)
  note names = this
  have "glob_entries (dir, base, slash) ents [] =
      (let paths = map (glob_path dir slash) (glob_names base ents)
       in if length paths > glob_max \<or> (\<exists>p\<in>set paths. length p \<ge> path_max) then None
          else Some paths)"
    by (subst glob_entries_eq) (simp_all add: names)
  then show ?thesis
    using assms by (auto simp: glob_word_def Let_def split: list.splits)
qed

theorem glob_word_selects_witness:
  "glob_word (\<lambda>d. if d = ''src'' then Some [''b.c'', ''..'', ''x.h'', ''a.c'', ''.h.c''] else None)
     ''src/*.c'' = Some [''src/a.c'', ''src/b.c'']"
proof -
  have plan: "glob_plan ''src/*.c'' = Some (''src'', ''*.c'', True)" by code_simp
  have names: "glob_names ''*.c'' [''b.c'', ''..'', ''x.h'', ''a.c'', ''.h.c''] = [''b.c'', ''a.c'']"
    unfolding glob_names_def pathname.decides [symmetric] by code_simp
  have srt: "sort [''src/b.c'', ''src/a.c''] = [''src/a.c'', ''src/b.c'']" by code_simp
  show ?thesis
    using srt by (subst glob_word_selects [OF plan, where ents = "[''b.c'', ''..'', ''x.h'', ''a.c'', ''.h.c'']"])
      (simp_all add: names glob_path_def glob_max_def path_max_def)
qed

end
