(* ===== verification/Arith.thy ===== *)
theory Arith
  imports Prelude "HOL-Library.Word" "HOL-Library.Signed_Division"
begin

text \<open>
  The evaluator of \<open>$((...))\<close> (\<open>src/mid/expand.c\<close>, \<open>parse_i64_local\<close> to
  \<open>eval_arith\<close>): a recursive descent over the text that computes 64-bit signed values as it
  reads.  A context \<open>arith_ctx_t\<close> is the text from \<open>p\<close> to \<open>end\<close>.  The code computes
  with plain signed operators, so that an overflow, and \<open>INT64_MIN\<close> divided by -1, are
  undefined: they are the result \<open>AUndef\<close>.
  The recursion is shown to end for every text, the values to stay in range, and the evaluator
  to compute the value of the expression that the text denotes, with the usual precedence and
  left associativity.
\<close>

definition int64_max :: int where "int64_max = 2 ^ 63 - 1"
definition int64_min :: int where "int64_min = - (2 ^ 63)"

section \<open>Numbers\<close>

text \<open>The loop of \<open>parse_i64_local\<close> with its unsigned accumulator.\<close>

fun i64_digits :: "64 word \<Rightarrow> 64 word \<Rightarrow> string \<Rightarrow> 64 word option" where
  "i64_digits lim acc [] = Some acc"
| "i64_digits lim acc (c # s) =
     (if \<not> isdigit c then None
      else let d = word_of_nat (digit_val c)
           in if acc > (lim - d) div 10 then None
              else i64_digits lim (acc * 10 + d) s)"

definition parse_i64_local :: "string \<Rightarrow> int option" where
  "parse_i64_local s =
     (let sign = (peek s = CHR ''+'' \<or> peek s = CHR ''-'');
          neg = (peek s = CHR ''-'');
          ds = (if sign then tl s else s)
      in if ds = [] \<or> \<not> isdigit (peek ds) then None
         else case i64_digits (word_of_int int64_max + (if neg then 1 else 0)) 0 ds of
           None \<Rightarrow> None
         | Some acc \<Rightarrow>
             Some (if neg then if acc = word_of_int int64_max + 1 then int64_min else - sint acc
                   else sint acc))"

definition arith_value_from_text :: "string option \<Rightarrow> int" where
  "arith_value_from_text t =
     (case t of None \<Rightarrow> 0
      | Some s \<Rightarrow> if s = [] then 0 else case parse_i64_local s of None \<Rightarrow> 0 | Some v \<Rightarrow> v)"

section \<open>The evaluator\<close>

text \<open>\<open>AErr 1\<close> is a division by zero, \<open>AErr 2\<close> a syntax error; \<open>AOk v rest\<close> a value and
  the text that is left.\<close>

datatype ares = AErr nat | AUndef | AOk int string

fun abind :: "ares \<Rightarrow> (int \<Rightarrow> string \<Rightarrow> ares) \<Rightarrow> ares" where
  "abind (AOk v s) k = k v s"
| "abind r k = r"

lemma abind_cong [fundef_cong]:
  "r = r' \<Longrightarrow> (\<And>v s. r' = AOk v s \<Longrightarrow> k v s = k' v s) \<Longrightarrow> abind r k = abind r' k'"
  by (cases r') auto

lemma abind_eq_AOk: "abind r k = AOk v s \<longleftrightarrow> (\<exists>w t. r = AOk w t \<and> k w t = AOk v s)"
  by (cases r) auto

lemma abind_eq_AErr: "abind r k = AErr n \<longleftrightarrow> r = AErr n \<or> (\<exists>w t. r = AOk w t \<and> k w t = AErr n)"
  by (cases r) auto

text \<open>What the expressions read: the environment and the positional parameters.\<close>

record arith_env =
  arith_getenv :: "string \<Rightarrow> string option"
  arith_positional :: "nat \<Rightarrow> string option"

definition is_name_char :: "char \<Rightarrow> bool" where
  "is_name_char c \<longleftrightarrow> isalnum c \<or> c = CHR ''_''"

definition arith_ws :: "char \<Rightarrow> bool" where
  "arith_ws c \<longleftrightarrow> c \<in> {CHR '' '', TAB, NL, CHR 0x0D}"

definition arith_skip_ws :: "string \<Rightarrow> string" where
  "arith_skip_ws s = dropWhile arith_ws s"

text \<open>A name is copied to a buffer of 256 bytes.\<close>

definition arith_var :: "arith_env \<Rightarrow> string \<Rightarrow> ares" where
  "arith_var env s =
     AOk (arith_value_from_text (arith_getenv env (take 255 (takeWhile is_name_char s))))
       (dropWhile is_name_char s)"

definition arith_dollar :: "arith_env \<Rightarrow> string \<Rightarrow> ares" where
  "arith_dollar env s =
     (if isdigit (peek s)
      then AOk (arith_value_from_text (arith_positional env (digit_val (peek s)))) (tl s)
      else if is_name_char (peek s) then arith_var env s
      else AErr 2)"

definition arith_number :: "string \<Rightarrow> ares" where
  "arith_number s =
     AOk (arith_value_from_text (Some (takeWhile isdigit s))) (dropWhile isdigit s)"

definition in64 :: "int \<Rightarrow> string \<Rightarrow> ares" where
  "in64 v s = (if int64_min \<le> v \<and> v \<le> int64_max then AOk v s else AUndef)"

definition arith_mul_op :: "char \<Rightarrow> int \<Rightarrow> int \<Rightarrow> string \<Rightarrow> ares" where
  "arith_mul_op c left right s =
     (if c = CHR ''*'' then in64 (left * right) s
      else if right = 0 then AErr 1
      else if left = int64_min \<and> right = - 1 then AUndef
      else if c = CHR ''/'' then AOk (left sdiv right) s
      else AOk (left smod right) s)"

definition arith_add_op :: "char \<Rightarrow> int \<Rightarrow> int \<Rightarrow> string \<Rightarrow> ares" where
  "arith_add_op c left right s =
     in64 (if c = CHR ''+'' then left + right else left - right) s"

definition arith_sign :: "char \<Rightarrow> int \<Rightarrow> int" where
  "arith_sign c v = (if c = CHR ''-'' then if v = int64_min then int64_min else - v else v)"

function arith_primary :: "arith_env \<Rightarrow> string \<Rightarrow> ares"
and arith_unary :: "arith_env \<Rightarrow> string \<Rightarrow> ares"
and arith_term :: "arith_env \<Rightarrow> string \<Rightarrow> ares"
and arith_term_loop :: "arith_env \<Rightarrow> int \<Rightarrow> string \<Rightarrow> ares"
and arith_expr :: "arith_env \<Rightarrow> string \<Rightarrow> ares"
and arith_expr_loop :: "arith_env \<Rightarrow> int \<Rightarrow> string \<Rightarrow> ares" where
  "arith_primary env s =
     (case arith_skip_ws s of
        [] \<Rightarrow> AErr 2
      | c # r \<Rightarrow>
          if c = CHR ''('' then
            abind (arith_expr env r) (\<lambda>v t.
              if peek (arith_skip_ws t) = CHR '')'' then AOk v (tl (arith_skip_ws t)) else AErr 2)
          else if c = CHR ''$'' then arith_dollar env r
          else if is_name_char c \<and> \<not> isdigit c then arith_var env (c # r)
          else if isdigit c then arith_number (c # r)
          else AErr 2)"
| "arith_unary env s =
     (case arith_skip_ws s of
        [] \<Rightarrow> arith_primary env []
      | c # r \<Rightarrow>
          if c = CHR ''+'' \<or> c = CHR ''-''
          then abind (arith_unary env r) (\<lambda>v t. AOk (arith_sign c v) t)
          else arith_primary env (c # r))"
| "arith_term env s = abind (arith_unary env s) (arith_term_loop env)"
| "arith_term_loop env left s =
     (case arith_skip_ws s of
        [] \<Rightarrow> AOk left []
      | c # r \<Rightarrow>
          if c \<noteq> CHR ''*'' \<and> c \<noteq> CHR ''/'' \<and> c \<noteq> CHR ''%'' then AOk left (c # r)
          else abind (arith_unary env r) (\<lambda>right t.
            abind (arith_mul_op c left right t) (arith_term_loop env)))"
| "arith_expr env s = abind (arith_term env s) (arith_expr_loop env)"
| "arith_expr_loop env left s =
     (case arith_skip_ws s of
        [] \<Rightarrow> AOk left []
      | c # r \<Rightarrow>
          if c \<noteq> CHR ''+'' \<and> c \<noteq> CHR ''-'' then AOk left (c # r)
          else abind (arith_term env r) (\<lambda>right t.
            abind (arith_add_op c left right t) (arith_expr_loop env)))"
  by pat_completeness auto


text \<open>
  Termination.  A successful call leaves less text than it was given (a loop no more), which is
  shown first for the calls in the domain of the functions.
\<close>

abbreviation arith_dom where
  "arith_dom \<equiv> arith_primary_arith_unary_arith_term_arith_term_loop_arith_expr_arith_expr_loop_dom"

lemmas arith_pinduct =
  arith_primary_arith_unary_arith_term_arith_term_loop_arith_expr_arith_expr_loop.pinduct

lemma arith_skip_ws_le: "length (arith_skip_ws s) \<le> length s"
  by (simp add: arith_skip_ws_def length_dropWhile_le)

lemma arith_skip_ws_Cons: "arith_skip_ws s = c # r \<Longrightarrow> length r < length s"
  using arith_skip_ws_le [of s] by simp

lemma arith_skip_ws_tl: "peek (arith_skip_ws s) = CHR '')'' \<Longrightarrow> length (tl (arith_skip_ws s)) < length s"
  using arith_skip_ws_le [of s] by (cases "arith_skip_ws s") auto

lemma arith_var_less: "is_name_char (peek s) \<Longrightarrow> arith_var env s = AOk v r \<Longrightarrow> length r < length s"
  by (cases s) (auto simp: arith_var_def is_name_char_def le_imp_less_Suc length_dropWhile_le)

lemma arith_dollar_less: "arith_dollar env s = AOk v r \<Longrightarrow> length r < length s"
  using arith_var_less [of s env v r]
  by (cases s) (auto simp: arith_dollar_def split: if_splits)

lemma arith_number_less: "isdigit (peek s) \<Longrightarrow> arith_number s = AOk v r \<Longrightarrow> length r < length s"
  by (cases s) (auto simp: arith_number_def le_imp_less_Suc length_dropWhile_le)

lemma arith_mul_op_rest: "arith_mul_op c l r s = AOk v t \<Longrightarrow> t = s"
  by (auto simp: arith_mul_op_def in64_def split: if_splits)

lemma arith_add_op_rest: "arith_add_op c l r s = AOk v t \<Longrightarrow> t = s"
  by (auto simp: arith_add_op_def in64_def split: if_splits)

lemma arith_less:
  "arith_dom (Inl (Inl (env, s))) \<Longrightarrow> arith_primary env s = AOk v r \<Longrightarrow> length r < length s"
  "arith_dom (Inl (Inr (Inl (env, s)))) \<Longrightarrow> arith_unary env s = AOk v r \<Longrightarrow> length r < length s"
  "arith_dom (Inl (Inr (Inr (env, s)))) \<Longrightarrow> arith_term env s = AOk v r \<Longrightarrow> length r < length s"
  "arith_dom (Inr (Inl (env, l, s))) \<Longrightarrow> arith_term_loop env l s = AOk v r \<Longrightarrow> length r \<le> length s"
  "arith_dom (Inr (Inr (Inl (env, s)))) \<Longrightarrow> arith_expr env s = AOk v r \<Longrightarrow> length r < length s"
  "arith_dom (Inr (Inr (Inr (env, l, s)))) \<Longrightarrow> arith_expr_loop env l s = AOk v r \<Longrightarrow> length r \<le> length s"
proof (induction env s and env s and env s and env l s and env s and env l s
    arbitrary: v r and v r and v r and v r and v r and v r rule: arith_pinduct)
  case (1 env s)
  show ?case
  proof (cases "arith_skip_ws s")
    case Nil
    then show ?thesis using "1.prems" by (simp add: arith_primary.psimps [OF "1.hyps"])
  next
    case (Cons c s')
    have less: "length s' < length s" using Cons by (rule arith_skip_ws_Cons)
    have le: "length (c # s') \<le> length s" using arith_skip_ws_le [of s] Cons by simp
    consider (paren) "c = CHR ''(''" | (dollar) "c = CHR ''$''"
      | (other) "c \<noteq> CHR ''(''" "c \<noteq> CHR ''$''" by blast
    then show ?thesis
    proof cases
      case paren
      then obtain t where "arith_expr env s' = AOk v t" "peek (arith_skip_ws t) = CHR '')''"
        "r = tl (arith_skip_ws t)"
        using "1.prems" Cons
        by (auto simp: arith_primary.psimps [OF "1.hyps"] abind_eq_AOk split: if_splits)
      then show ?thesis
        using "1.IH" [OF Cons paren] arith_skip_ws_tl [of t] less by auto
    next
      case dollar
      then show ?thesis using "1.prems" Cons less arith_dollar_less [of env s' v r]
        by (simp add: arith_primary.psimps [OF "1.hyps"])
    next
      case other
      then show ?thesis
        using "1.prems" Cons le arith_var_less [of "c # s'" env v r]
          arith_number_less [of "c # s'" v r]
        by (auto simp: arith_primary.psimps [OF "1.hyps"] split: if_splits)
    qed
  qed
next
  case (2 env s)
  show ?case
  proof (cases "arith_skip_ws s")
    case Nil
    then show ?thesis using "2.prems" "2.IH"(1) by (force simp: arith_unary.psimps [OF "2.hyps"])
  next
    case (Cons c s')
    then show ?thesis
      using "2.prems" "2.IH"(2,3) [OF Cons] arith_skip_ws_Cons [OF Cons] arith_skip_ws_le [of s]
      by (force simp: arith_unary.psimps [OF "2.hyps"] abind_eq_AOk split: if_splits)
  qed
next
  case (3 env s)
  then show ?case by (force simp: arith_term.psimps [OF "3.hyps"] abind_eq_AOk)
next
  case (4 env l s)
  show ?case
  proof (cases "arith_skip_ws s")
    case Nil
    then show ?thesis using "4.prems" by (simp add: arith_term_loop.psimps [OF "4.hyps"])
  next
    case (Cons c s')
    show ?thesis
    proof (cases "c \<noteq> CHR ''*'' \<and> c \<noteq> CHR ''/'' \<and> c \<noteq> CHR ''%''")
      case True
      then show ?thesis using "4.prems" Cons arith_skip_ws_le [of s]
        by (simp add: arith_term_loop.psimps [OF "4.hyps"])
    next
      case False
      then obtain x t w where step: "arith_unary env s' = AOk x t" "arith_mul_op c l x t = AOk w t"
        "arith_term_loop env w t = AOk v r"
        using "4.prems" Cons arith_mul_op_rest
        by (fastforce simp: arith_term_loop.psimps [OF "4.hyps"] abind_eq_AOk)
      then have "length t < length s'" "length r \<le> length t"
        using "4.IH" [OF Cons False] by auto
      then show ?thesis using arith_skip_ws_Cons [OF Cons] by simp
    qed
  qed
next
  case (5 env s)
  then show ?case by (force simp: arith_expr.psimps [OF "5.hyps"] abind_eq_AOk)
next
  case (6 env l s)
  show ?case
  proof (cases "arith_skip_ws s")
    case Nil
    then show ?thesis using "6.prems" by (simp add: arith_expr_loop.psimps [OF "6.hyps"])
  next
    case (Cons c s')
    show ?thesis
    proof (cases "c \<noteq> CHR ''+'' \<and> c \<noteq> CHR ''-''")
      case True
      then show ?thesis using "6.prems" Cons arith_skip_ws_le [of s]
        by (simp add: arith_expr_loop.psimps [OF "6.hyps"])
    next
      case False
      then obtain x t w where step: "arith_term env s' = AOk x t" "arith_add_op c l x t = AOk w t"
        "arith_expr_loop env w t = AOk v r"
        using "6.prems" Cons arith_add_op_rest
        by (fastforce simp: arith_expr_loop.psimps [OF "6.hyps"] abind_eq_AOk)
      then have "length t < length s'" "length r \<le> length t"
        using "6.IH" [OF Cons False] by auto
      then show ?thesis using arith_skip_ws_Cons [OF Cons] by simp
    qed
  qed
qed

lemma arith_loop_less:
  "arith_skip_ws s = c # r \<Longrightarrow> arith_dom (Inl (Inr (Inl (env, r)))) \<Longrightarrow> arith_unary env r = AOk v t \<Longrightarrow>
     arith_mul_op c l v t = AOk w u \<Longrightarrow> length u < length s"
  "arith_skip_ws s = c # r \<Longrightarrow> arith_dom (Inl (Inr (Inr (env, r)))) \<Longrightarrow> arith_term env r = AOk v t \<Longrightarrow>
     arith_add_op c l v t = AOk w u \<Longrightarrow> length u < length s"
  using arith_less(2,3) [of env r v t] arith_skip_ws_Cons [of s c r]
  by (auto dest!: arith_mul_op_rest arith_add_op_rest)

definition arith_rel where
  "arith_rel = measures [
     case_sum (case_sum (length \<circ> snd) (case_sum (length \<circ> snd) (length \<circ> snd)))
       (case_sum (length \<circ> snd \<circ> snd) (case_sum (length \<circ> snd) (length \<circ> snd \<circ> snd))),
     case_sum (case_sum (\<lambda>_. 0) (case_sum (\<lambda>_. 1) (\<lambda>_. 2))) (case_sum (\<lambda>_. 0) (case_sum (\<lambda>_. 3) (\<lambda>_. 0)))]"

lemma arith_skip_ws_split: "arith_skip_ws s = c # r \<Longrightarrow> Suc (length r) < length s \<or> Suc (length r) = length s"
  using arith_skip_ws_le [of s] by auto

termination arith_primary
proof (relation arith_rel)
  show "wf arith_rel" by (simp add: arith_rel_def)
qed (auto simp: arith_rel_def intro: arith_loop_less
    dest: arith_skip_ws_Cons arith_skip_ws_split arith_less)

declare arith_primary.simps [simp del] arith_unary.simps [simp del] arith_term.simps [simp del]
  arith_term_loop.simps [simp del] arith_expr.simps [simp del] arith_expr_loop.simps [simp del]

lemmas arith_induct =
  arith_primary_arith_unary_arith_term_arith_term_loop_arith_expr_arith_expr_loop.induct

text \<open>\<open>eval_arith\<close>: the value and no text left, or the error code.\<close>

definition eval_arith :: "arith_env \<Rightarrow> string \<Rightarrow> ares" where
  "eval_arith env inner =
     (let s = arith_skip_ws inner
      in if s = [] then AOk 0 []
         else case arith_expr env s of
           AErr n \<Rightarrow> AErr (if n \<noteq> 0 then n else 2)
         | AUndef \<Rightarrow> AUndef
         | AOk v r \<Rightarrow> if arith_skip_ws r \<noteq> [] then AErr 2 else AOk v [])"

section \<open>Numbers are read exactly\<close>

definition decimal :: "string \<Rightarrow> nat" where
  "decimal ds = foldl (\<lambda>n c. 10 * n + digit_val c) 0 ds"

text \<open>The number that a text with an optional sign denotes, without a bound.\<close>

definition signed_decimal :: "string \<Rightarrow> int option" where
  "signed_decimal s =
     (let ds = (if peek s = CHR ''+'' \<or> peek s = CHR ''-'' then tl s else s)
      in if ds = [] \<or> \<not> list_all isdigit ds then None
         else Some (if peek s = CHR ''-'' then - int (decimal ds) else int (decimal ds)))"

lemma foldl_decimal_ge: "n \<le> foldl (\<lambda>n c. 10 * n + digit_val c) n ds"
proof (induction ds arbitrary: n)
  case (Cons c ds)
  have "n \<le> 10 * n + digit_val c" by simp
  also have "\<dots> \<le> foldl (\<lambda>n c. 10 * n + digit_val c) (10 * n + digit_val c) ds" by (rule Cons)
  finally show ?case by simp
qed simp

lemma div_guard: "d \<le> L \<Longrightarrow> (L - d) div 10 < n \<longleftrightarrow> L < 10 * n + (d :: nat)"
  by (subst div_less_iff_less_mult) auto

lemma digit_guard:
  fixes L n d :: nat
  assumes "9 \<le> L" and "L < 2 ^ 64" and "n \<le> L" and "d \<le> 9"
  shows "(word_of_nat n > (word_of_nat L - word_of_nat d) div (10 :: 64 word)) \<longleftrightarrow> 10 * n + d > L"
proof -
  have "d \<le> L" using assms by simp
  have "word_of_nat L - word_of_nat d = (word_of_nat (L - d) :: 64 word)"
    using \<open>d \<le> L\<close> by (simp add: of_nat_diff)
  moreover have "unat (word_of_nat (L - d) :: 64 word) = L - d"
    using assms(2) by (subst unat_of_nat) simp
  ultimately have "unat ((word_of_nat L - word_of_nat d) div (10 :: 64 word)) = (L - d) div 10"
    by (simp only: unat_div_distrib) simp
  moreover have "unat (word_of_nat n :: 64 word) = n"
    using assms(2,3) by (subst unat_of_nat) simp
  ultimately show ?thesis using div_guard [OF \<open>d \<le> L\<close>, of n]
    by (simp only: word_less_nat_alt)
qed

lemma i64_digits_exact:
  assumes "9 \<le> L" and "L < 2 ^ 64" and "n \<le> L"
  shows "i64_digits (word_of_nat L) (word_of_nat n) ds =
    (let m = foldl (\<lambda>n c. 10 * n + digit_val c) n ds
     in if list_all isdigit ds \<and> m \<le> L then Some (word_of_nat m) else None)"
  using assms(3)
proof (induction ds arbitrary: n)
  case Nil
  then show ?case by simp
next
  case (Cons c ds)
  show ?case
  proof (cases "isdigit c")
    case False
    then show ?thesis by simp
  next
    case True
    let ?n = "10 * n + digit_val c"
    have d: "digit_val c \<le> 9" using True by (rule digit_val_le)
    show ?thesis
    proof (cases "?n \<le> L")
      case True
      have "word_of_nat n * 10 + word_of_nat (digit_val c) = (word_of_nat ?n :: 64 word)"
        by simp
      then show ?thesis
        using True Cons.IH [OF True] \<open>isdigit c\<close> digit_guard [OF assms(1,2) Cons.prems d]
        by (simp add: mult.commute)
    next
      case False
      then have "\<not> foldl (\<lambda>n c. 10 * n + digit_val c) ?n ds \<le> L"
        using foldl_decimal_ge [of ?n ds] by linarith
      then show ?thesis
        using False \<open>isdigit c\<close> digit_guard [OF assms(1,2) Cons.prems d] by simp
    qed
  qed
qed


lemma i64_exact:
  "parse_i64_local s =
    (case signed_decimal s of
       None \<Rightarrow> None
     | Some v \<Rightarrow> if int64_min \<le> v \<and> v \<le> int64_max then Some v else None)"
proof -
  define neg where "neg \<longleftrightarrow> peek s = CHR ''-''"
  define ds where "ds = (if peek s = CHR ''+'' \<or> peek s = CHR ''-'' then tl s else s)"
  define L :: nat where "L = 2 ^ 63 - 1 + (if neg then 1 else 0)"
  define m where "m = decimal ds"
  have lim: "word_of_int int64_max + (if neg then 1 else 0) = (word_of_nat L :: 64 word)"
    by (simp add: int64_max_def L_def)
  have loop: "i64_digits (word_of_nat L) 0 ds =
      (if list_all isdigit ds \<and> m \<le> L then Some (word_of_nat m) else None)"
    using i64_digits_exact [of L 0 ds] by (simp add: L_def m_def decimal_def Let_def)
  have sint: "sint (word_of_nat m :: 64 word) = int m" if "m \<le> 2 ^ 63 - 1"
  proof -
    have "sint (word_of_int (int m) :: 64 word) = int m"
      using that by (subst int_word_sint) simp
    then show ?thesis by simp
  qed
  have min: "word_of_nat m = (word_of_int int64_max + 1 :: 64 word) \<longleftrightarrow> m = 2 ^ 63"
    if "m \<le> 2 ^ 63"
  proof -
    have "word_of_nat m = (word_of_nat (2 ^ 63) :: 64 word) \<longleftrightarrow> m = 2 ^ 63"
      using that by (simp add: of_nat_eq_iff word_unat_eq_iff unat_of_nat)
    then show ?thesis by (simp add: int64_max_def)
  qed
  have ds: "(if peek s = CHR ''+'' \<or> neg then tl s else s) = ds"
    by (simp add: ds_def neg_def)
  have parse: "parse_i64_local s = (if ds = [] \<or> \<not> isdigit (peek ds) then None
      else case i64_digits (word_of_nat L) 0 ds of
        None \<Rightarrow> None
      | Some acc \<Rightarrow> Some (if neg then if acc = word_of_int int64_max + 1 then int64_min else - sint acc
          else sint acc))"
    by (simp only: parse_i64_local_def Let_def neg_def [symmetric] ds lim)
  have ref: "signed_decimal s = (if ds = [] \<or> \<not> list_all isdigit ds then None
      else Some (if neg then - int m else int m))"
    by (simp only: signed_decimal_def Let_def neg_def [symmetric] ds m_def)
  consider (bad) "ds = [] \<or> \<not> list_all isdigit ds"
    | (big) "ds \<noteq> []" "list_all isdigit ds" "L < m"
    | (small) "ds \<noteq> []" "list_all isdigit ds" "m \<le> L" by force
  then show ?thesis
  proof cases
    case bad
    then show ?thesis by (auto simp: parse ref loop)
  next
    case big
    then have "parse_i64_local s = None" by (simp add: parse loop)
    then show ?thesis using big
      by (auto simp: ref L_def int64_min_def int64_max_def split: if_splits)
  next
    case small
    then have "isdigit (peek ds)" by (cases ds) auto
    then have parsed: "parse_i64_local s = Some (if neg then
        if word_of_nat m = (word_of_int int64_max + 1 :: 64 word) then int64_min
        else - sint (word_of_nat m :: 64 word) else sint (word_of_nat m :: 64 word))"
      using small by (simp add: parse loop)
    show ?thesis
    proof (cases neg)
      case True
      with small have "m \<le> 2 ^ 63" by (simp add: L_def)
      with min show ?thesis using True small sint
        by (cases "m = 2 ^ 63") (auto simp: parsed ref int64_min_def int64_max_def)
    next
      case False
      with small have "m \<le> 2 ^ 63 - 1" by (simp add: L_def)
      with sint show ?thesis using False small
        by (simp add: parsed ref int64_min_def int64_max_def)
    qed
  qed
qed

text \<open>
  C30. \<open>parse_i64_local\<close> reads exactly the signed decimal numbers of 64 bits: it accepts an
  optional sign and one digit or more that denote a value from \<open>INT64_MIN\<close> to
  \<open>INT64_MAX\<close>, both included, and returns that value; everything else is refused, and the
  64-bit accumulator never wraps around.
\<close>

theorem parse_i64_exact:
  "parse_i64_local s =
    (case signed_decimal s of
       None \<Rightarrow> None
     | Some v \<Rightarrow> if int64_min \<le> v \<and> v \<le> int64_max then Some v else None)"
  by (rule i64_exact)

section \<open>Values stay in range\<close>

abbreviation int64 :: "int \<Rightarrow> bool" where
  "int64 v \<equiv> int64_min \<le> v \<and> v \<le> int64_max"

lemma value_from_text_int64: "int64 (arith_value_from_text t)"
  using i64_exact
  by (auto simp: arith_value_from_text_def int64_min_def int64_max_def
      split: option.splits if_splits)

lemma sdiv_int64:
  assumes "int64 l" and "r \<noteq> 0" and "\<not> (l = int64_min \<and> r = - 1)"
  shows "int64 (l sdiv r)"
proof (cases "\<bar>r\<bar> = 1")
  case True
  then have "r = 1 \<or> r = - 1" by auto
  then show ?thesis using assms by (auto simp: int64_min_def int64_max_def)
next
  case False
  then have "2 \<le> \<bar>r\<bar>" using assms(2) by auto
  then have "\<bar>l\<bar> div \<bar>r\<bar> \<le> \<bar>l\<bar> div 2" by (intro zdiv_mono2) auto
  also have "\<dots> \<le> 2 ^ 62" using assms(1) by (auto simp: int64_min_def int64_max_def)
  finally have q: "\<bar>l\<bar> div \<bar>r\<bar> \<le> 2 ^ 62" .
  have "0 \<le> \<bar>l\<bar> div \<bar>r\<bar>" using \<open>2 \<le> \<bar>r\<bar>\<close> by (simp add: pos_imp_zdiv_nonneg_iff)
  moreover have "l sdiv r = \<bar>l\<bar> div \<bar>r\<bar> \<or> l sdiv r = - (\<bar>l\<bar> div \<bar>r\<bar>) \<or> l sdiv r = 0"
    by (auto simp: signed_divide_int_def sgn_if)
  ultimately show ?thesis using q by (auto simp: int64_min_def int64_max_def)
qed

lemma smod_int64:
  assumes "int64 l" and "int64 r" and "r \<noteq> 0"
  shows "int64 (l smod r)"
  using smod_int_range [OF assms(3), of l] assms(2) by (auto simp: int64_min_def int64_max_def)

lemma in64_int64: "in64 v s = AOk w t \<Longrightarrow> int64 w"
  by (auto simp: in64_def split: if_splits)

lemma mul_op_int64: "arith_mul_op c l r s = AOk w t \<Longrightarrow> int64 l \<Longrightarrow> int64 r \<Longrightarrow> int64 w"
  using sdiv_int64 [of l r] smod_int64 [of l r] in64_int64
  by (auto simp: arith_mul_op_def split: if_splits)

lemma add_op_int64: "arith_add_op c l r s = AOk w t \<Longrightarrow> int64 w"
  by (auto simp: arith_add_op_def dest: in64_int64)

lemma sign_int64: "int64 v \<Longrightarrow> int64 (arith_sign c v)"
  by (auto simp: arith_sign_def int64_min_def int64_max_def)

lemma leaf_int64:
  "arith_var env s = AOk v r \<Longrightarrow> int64 v" "arith_dollar env s = AOk v r \<Longrightarrow> int64 v"
  "arith_number s = AOk v r \<Longrightarrow> int64 v"
  using value_from_text_int64
  by (auto simp: arith_var_def arith_dollar_def arith_number_def split: if_splits)

lemma arith_int64:
  "arith_primary env s = AOk v r \<Longrightarrow> int64 v"
  "arith_unary env s = AOk v r \<Longrightarrow> int64 v"
  "arith_term env s = AOk v r \<Longrightarrow> int64 v"
  "arith_term_loop env l s = AOk v r \<Longrightarrow> int64 l \<Longrightarrow> int64 v"
  "arith_expr env s = AOk v r \<Longrightarrow> int64 v"
  "arith_expr_loop env l s = AOk v r \<Longrightarrow> int64 l \<Longrightarrow> int64 v"
proof (induction env s and env s and env s and env l s and env s and env l s
    arbitrary: v r and v r and v r and v r and v r and v r rule: arith_induct)
  case (1 env s)
  show ?case
  proof (cases "arith_skip_ws s")
    case Nil
    then show ?thesis using "1.prems" by (simp add: arith_primary.simps [of env s])
  next
    case (Cons c s')
    then have "(\<exists>w t. c = CHR ''('' \<and> arith_expr env s' = AOk w t \<and> v = w) \<or>
        arith_dollar env s' = AOk v r \<or> arith_var env (c # s') = AOk v r \<or>
        arith_number (c # s') = AOk v r"
      using "1.prems" by (auto simp: arith_primary.simps [of env s] abind_eq_AOk split: if_splits)
    then show ?thesis using "1.IH" [OF Cons] leaf_int64 by metis
  qed
next
  case (2 env s)
  show ?case
  proof (cases "arith_skip_ws s")
    case Nil
    then show ?thesis using "2.prems" "2.IH"(1) by (simp add: arith_unary.simps [of env s])
  next
    case (Cons c s')
    then show ?thesis using "2.prems" "2.IH"(2,3) [OF Cons] sign_int64
      by (auto simp: arith_unary.simps [of env s] abind_eq_AOk split: if_splits)
  qed
next
  case (3 env s)
  then show ?case by (auto simp: arith_term.simps [of env s] abind_eq_AOk)
next
  case (4 env l s)
  show ?case
  proof (cases "arith_skip_ws s")
    case Nil
    then show ?thesis using "4.prems" by (simp add: arith_term_loop.simps [of env l s])
  next
    case (Cons c s')
    then show ?thesis using "4.prems" "4.IH" [OF Cons] mul_op_int64
      by (auto simp: arith_term_loop.simps [of env l s] abind_eq_AOk split: if_splits)
  qed
next
  case (5 env s)
  then show ?case by (auto simp: arith_expr.simps [of env s] abind_eq_AOk)
next
  case (6 env l s)
  show ?case
  proof (cases "arith_skip_ws s")
    case Nil
    then show ?thesis using "6.prems" by (simp add: arith_expr_loop.simps [of env l s])
  next
    case (Cons c s')
    then show ?thesis using "6.prems" "6.IH" [OF Cons] add_op_int64
      by (auto simp: arith_expr_loop.simps [of env l s] abind_eq_AOk split: if_splits)
  qed
qed

lemma eval_arith_int64: "eval_arith env s = AOk v r \<Longrightarrow> int64 v"
  using arith_int64(5)
  by (auto simp: eval_arith_def Let_def int64_min_def int64_max_def split: if_splits ares.splits)

section \<open>The value of an expression\<close>

text \<open>Expressions as trees, their values on 64-bit integers, and their text.\<close>

datatype aop = Plus | Minus | Times | Divide | Modulo

datatype aexp =
    Literal string
  | Variable bool string
  | Argument nat
  | Signed bool aexp
  | Binary aop aexp aexp

datatype aout = OErr | OUndef | OVal int

fun apply_op :: "aop \<Rightarrow> int \<Rightarrow> int \<Rightarrow> aout" where
  "apply_op Plus x y = (if int64 (x + y) then OVal (x + y) else OUndef)"
| "apply_op Minus x y = (if int64 (x - y) then OVal (x - y) else OUndef)"
| "apply_op Times x y = (if int64 (x * y) then OVal (x * y) else OUndef)"
| "apply_op Divide x y =
     (if y = 0 then OErr else if x = int64_min \<and> y = - 1 then OUndef else OVal (x sdiv y))"
| "apply_op Modulo x y =
     (if y = 0 then OErr else if x = int64_min \<and> y = - 1 then OUndef else OVal (x smod y))"

definition out_bind :: "aout \<Rightarrow> (int \<Rightarrow> aout) \<Rightarrow> aout" where
  "out_bind x k = (case x of OVal v \<Rightarrow> k v | e \<Rightarrow> e)"

fun aval :: "arith_env \<Rightarrow> aexp \<Rightarrow> aout" where
  "aval env (Literal ds) =
     OVal (if int (decimal ds) \<le> int64_max then int (decimal ds) else 0)"
| "aval env (Variable dollar x) = OVal (arith_value_from_text (arith_getenv env (take 255 x)))"
| "aval env (Argument i) = OVal (arith_value_from_text (arith_positional env i))"
| "aval env (Signed neg e) = out_bind (aval env e) (\<lambda>v.
     OVal (if neg then if v = int64_min then int64_min else - v else v))"
| "aval env (Binary op l r) =
     out_bind (aval env l) (\<lambda>x. out_bind (aval env r) (apply_op op x))"

fun aexp_ok :: "aexp \<Rightarrow> bool" where
  "aexp_ok (Literal ds) \<longleftrightarrow> ds \<noteq> [] \<and> list_all isdigit ds"
| "aexp_ok (Variable dollar x) \<longleftrightarrow> x \<noteq> [] \<and> list_all is_name_char x \<and> \<not> isdigit (hd x)"
| "aexp_ok (Argument i) \<longleftrightarrow> i < 10"
| "aexp_ok (Signed neg e) \<longleftrightarrow> aexp_ok e"
| "aexp_ok (Binary op l r) \<longleftrightarrow> aexp_ok l \<and> aexp_ok r"

fun op_char :: "aop \<Rightarrow> char" where
  "op_char Plus = CHR ''+''" | "op_char Minus = CHR ''-''" | "op_char Times = CHR ''*''"
| "op_char Divide = CHR ''/''" | "op_char Modulo = CHR ''%''"

text \<open>Sums bind weaker than products, products weaker than signs.\<close>

fun op_level :: "aop \<Rightarrow> nat" where
  "op_level Plus = 0" | "op_level Minus = 0"
| "op_level Times = 1" | "op_level Divide = 1" | "op_level Modulo = 1"

text \<open>The text of an expression with blanks \<open>w\<close> before each token, in a place that takes
  operators of level \<open>k\<close> or higher: parentheses only where they are needed.\<close>

fun atext :: "string \<Rightarrow> nat \<Rightarrow> aexp \<Rightarrow> string" where
  "atext w k (Literal ds) = w @ ds"
| "atext w k (Variable dollar x) = w @ (if dollar then CHR ''$'' # x else x)"
| "atext w k (Argument i) = w @ CHR ''$'' # show_nat i"
| "atext w k (Signed neg e) = w @ (if neg then CHR ''-'' else CHR ''+'') # atext w 2 e"
| "atext w k (Binary op l r) =
     (let t = atext w (op_level op) l @ w @ op_char op # atext w (Suc (op_level op)) r
      in if k \<le> op_level op then t else w @ CHR ''('' # t @ w @ [CHR '')''])"

fun out :: "aout \<Rightarrow> string \<Rightarrow> ares" where
  "out OErr s = AErr 1"
| "out OUndef s = AUndef"
| "out (OVal v) s = AOk v s"

definition blanks :: "string \<Rightarrow> bool" where
  "blanks w \<longleftrightarrow> list_all arith_ws w"

lemma skip_blanks [simp]: "blanks w \<Longrightarrow> arith_skip_ws (w @ s) = arith_skip_ws s"
  by (auto simp: blanks_def arith_skip_ws_def list_all_iff dropWhile_append)

lemma skip_Nil [simp]: "arith_skip_ws [] = []"
  by (simp add: arith_skip_ws_def)

lemma skip_token [simp]: "\<not> arith_ws c \<Longrightarrow> arith_skip_ws (c # s) = c # s"
  by (simp add: arith_skip_ws_def)

lemma skip_skip [simp]: "arith_skip_ws (arith_skip_ws s) = arith_skip_ws s"
  by (simp add: arith_skip_ws_def)

lemma abind_assoc: "abind (abind r f) g = abind r (\<lambda>v s. abind (f v s) g)"
  by (cases r) auto

lemma abind_out: "abind (out (out_bind x f) s) k = (case x of OVal v \<Rightarrow> abind (out (f v) s) k | _ \<Rightarrow> out x s)"
  by (cases x) (auto simp: out_bind_def)

text \<open>Blanks before a token do not matter.\<close>

lemma unary_skip: "arith_unary env (arith_skip_ws s) = arith_unary env s"
  by (subst (1 2) arith_unary.simps) simp

lemma term_loop_skip: "arith_term_loop env l (arith_skip_ws s) = arith_term_loop env l s"
  by (subst (1 2) arith_term_loop.simps) simp

lemma expr_loop_skip: "arith_expr_loop env l (arith_skip_ws s) = arith_expr_loop env l s"
  by (subst (1 2) arith_expr_loop.simps) simp

lemma expr_loop_stop:
  "peek (arith_skip_ws s) \<notin> {CHR ''+'', CHR ''-''} \<Longrightarrow> arith_expr_loop env l s = AOk l (arith_skip_ws s)"
  by (subst arith_expr_loop.simps) (auto split: list.splits)

lemma term_loop_stop:
  "peek (arith_skip_ws s) \<notin> {CHR ''*'', CHR ''/'', CHR ''%''} \<Longrightarrow>
     arith_term_loop env l s = AOk l (arith_skip_ws s)"
  by (subst arith_term_loop.simps) (auto split: list.splits)

lemma arith_ws_chars [simp]:
  "\<not> arith_ws (op_char op)" "\<not> arith_ws (CHR ''('')" "\<not> arith_ws (CHR '')'')"
  "\<not> arith_ws (CHR ''$'')" "\<not> arith_ws (CHR ''+'')" "\<not> arith_ws (CHR ''-'')"
  "\<not> arith_ws (CHR ''*'')" "\<not> arith_ws (CHR ''/'')" "\<not> arith_ws (CHR ''%'')"
  by (cases op) (auto simp: arith_ws_def)

lemma name_not_ws: "is_name_char c \<Longrightarrow> \<not> arith_ws c"
  by (auto simp: is_name_char_def arith_ws_def isalnum_def isalpha_def isdigit_def code_def)

lemma ops_not_name [simp]:
  "\<not> is_name_char (op_char op)" "\<not> is_name_char (CHR '')'')" "\<not> is_name_char NUL"
  by (cases op; simp add: is_name_char_def isalnum_def isalpha_def isdigit_def code_def)+

lemma blanks_not_name: "blanks w \<Longrightarrow> \<not> is_name_char c \<Longrightarrow> \<not> is_name_char (peek (w @ c # s))"
  using name_not_ws by (cases w) (auto simp: blanks_def)


lemma peek_skip_token [simp]:
  "blanks w \<Longrightarrow> \<not> arith_ws c \<Longrightarrow> peek (arith_skip_ws (w @ c # s)) = c"
  by simp

lemma term_of_unary:
  "arith_unary env s = out v rest \<Longrightarrow> arith_term env s = abind (out v rest) (arith_term_loop env)"
  by (simp add: arith_term.simps)

lemma expr_of_term:
  "arith_term env s = abind (out v rest) (arith_term_loop env) \<Longrightarrow>
   peek (arith_skip_ws rest) \<notin> {CHR ''*'', CHR ''/'', CHR ''%''} \<Longrightarrow>
     arith_expr env s = abind (out v rest) (arith_expr_loop env)"
  by (cases v) (simp_all add: arith_expr.simps term_loop_stop expr_loop_skip)

lemma unary_paren:
  assumes "arith_expr env (t @ w @ CHR '')'' # rest) =
      abind (out v (w @ CHR '')'' # rest)) (arith_expr_loop env)" and "blanks w"
  shows "arith_unary env (w @ CHR ''('' # t @ w @ CHR '')'' # rest) = out v rest"
  using assms
  by (cases v) (simp_all add: arith_unary.simps [of env "w @ _"] arith_primary.simps [of env "_ # _"]
      expr_loop_stop)

lemma expr_sum:
  assumes l: "arith_expr env (ta @ w @ op_char op # tb @ rest) =
      abind (out x (w @ op_char op # tb @ rest)) (arith_expr_loop env)"
    and r: "arith_term env (tb @ rest) = abind (out y rest) (arith_term_loop env)"
    and op: "op_level op = 0" and w: "blanks w"
    and stop: "peek (arith_skip_ws rest) \<notin> {CHR ''*'', CHR ''/'', CHR ''%''}"
  shows "arith_expr env (ta @ w @ op_char op # tb @ rest) =
    abind (out (out_bind x (\<lambda>x. out_bind y (apply_op op x))) rest) (arith_expr_loop env)"
proof -
  have step: "arith_expr_loop env a (w @ op_char op # tb @ rest) =
      abind (arith_term env (tb @ rest)) (\<lambda>b s. abind (arith_add_op (op_char op) a b s) (arith_expr_loop env))" for a
    using w op by (subst arith_expr_loop.simps) (cases op; simp)
  have op_eq: "abind (arith_add_op (op_char op) a b (arith_skip_ws rest)) (arith_expr_loop env) =
      abind (out (apply_op op a b) rest) (arith_expr_loop env)" for a b
    using op by (cases op) (simp_all add: arith_add_op_def in64_def expr_loop_skip)
  show ?thesis
    by (cases x; cases y)
      (simp_all add: l step r out_bind_def term_loop_stop [OF stop] op_eq)
qed

lemma term_product:
  assumes l: "arith_term env (ta @ w @ op_char op # tb @ rest) =
      abind (out x (w @ op_char op # tb @ rest)) (arith_term_loop env)"
    and r: "arith_unary env (tb @ rest) = out y rest"
    and op: "op_level op = 1" and w: "blanks w"
  shows "arith_term env (ta @ w @ op_char op # tb @ rest) =
    abind (out (out_bind x (\<lambda>x. out_bind y (apply_op op x))) rest) (arith_term_loop env)"
proof -
  have step: "arith_term_loop env a (w @ op_char op # tb @ rest) =
      abind (arith_unary env (tb @ rest)) (\<lambda>b s. abind (arith_mul_op (op_char op) a b s) (arith_term_loop env))" for a
    using w op by (subst arith_term_loop.simps) (cases op; simp)
  have op_eq: "arith_mul_op (op_char op) a b rest = out (apply_op op a b) rest" for a b
    using op by (cases op) (simp_all add: arith_mul_op_def in64_def)
  show ?thesis
    by (cases x; cases y) (simp_all add: l step r out_bind_def op_eq)
qed

lemma unary_name:
  "blanks w \<Longrightarrow> is_name_char c \<Longrightarrow> arith_unary env (w @ c # s) =
     (if isdigit c then arith_number (c # s) else arith_var env (c # s))"
  using name_not_ws [of c]
  by (auto simp: arith_unary.simps [of env "w @ _"] arith_primary.simps [of env "_ # _"]
      is_name_char_def isalnum_def isalpha_def isdigit_def code_def)

lemma unary_dollar: "blanks w \<Longrightarrow> arith_unary env (w @ CHR ''$'' # s) = arith_dollar env s"
  by (simp add: arith_unary.simps [of env "w @ _"] arith_primary.simps [of env "_ # _"])

lemma take_name:
  "list_all P x \<Longrightarrow> \<not> P (peek rest) \<Longrightarrow> rest = [] \<or> \<not> P (hd rest) \<Longrightarrow>
     takeWhile P (x @ rest) = x \<and> dropWhile P (x @ rest) = rest"
  by (cases rest) (auto simp: list_all_iff takeWhile_append dropWhile_append)

lemma decimal_value:
  assumes "ds \<noteq> []" and "list_all isdigit ds"
  shows "arith_value_from_text (Some ds) = (if int (decimal ds) \<le> int64_max then int (decimal ds) else 0)"
proof -
  have "peek ds \<noteq> CHR ''+''" "peek ds \<noteq> CHR ''-''"
    using assms by (cases ds; auto simp: isdigit_def code_def)+
  then have "signed_decimal ds = Some (int (decimal ds))"
    using assms by (simp add: signed_decimal_def)
  then show ?thesis using assms(1)
    by (simp add: arith_value_from_text_def i64_exact int64_min_def)
qed

lemma digit_name: "isdigit c \<Longrightarrow> is_name_char c"
  by (simp add: is_name_char_def isalnum_def)

lemma unary_atoms:
  assumes w: "blanks w" and rest: "\<not> is_name_char (peek rest)"
  shows "aexp_ok (Literal ds) \<Longrightarrow>
      arith_unary env (atext w k (Literal ds) @ rest) = out (aval env (Literal ds)) rest"
    and "aexp_ok (Variable dollar x) \<Longrightarrow>
      arith_unary env (atext w k (Variable dollar x) @ rest) = out (aval env (Variable dollar x)) rest"
    and "aexp_ok (Argument i) \<Longrightarrow>
      arith_unary env (atext w k (Argument i) @ rest) = out (aval env (Argument i)) rest"
proof -
  have end_rest: "rest = [] \<or> \<not> is_name_char (hd rest)" "rest = [] \<or> \<not> isdigit (hd rest)"
    "\<not> isdigit (peek rest)"
    using rest by (cases rest; auto dest: digit_name)+
  show "arith_unary env (atext w k (Literal ds) @ rest) = out (aval env (Literal ds)) rest"
    if ok: "aexp_ok (Literal ds)"
  proof -
    obtain c ds' where c: "ds = c # ds'" "isdigit c" using ok by (cases ds) auto
    have "arith_unary env (w @ ds @ rest) = arith_number (ds @ rest)"
      using unary_name [OF w digit_name [OF c(2)]] c by simp
    then show ?thesis
      using take_name [of isdigit ds rest] end_rest ok decimal_value [of ds]
      by (simp add: arith_number_def)
  qed
  show "arith_unary env (atext w k (Variable dollar x) @ rest) = out (aval env (Variable dollar x)) rest"
    if ok: "aexp_ok (Variable dollar x)"
  proof -
    obtain c x' where c: "x = c # x'" "is_name_char c" "\<not> isdigit c" using ok by (cases x) auto
    have "arith_unary env (w @ (if dollar then CHR ''$'' # x else x) @ rest) = arith_var env (x @ rest)"
      using unary_name [OF w c(2)] unary_dollar [OF w] c by (simp add: arith_dollar_def)
    then show ?thesis
      using take_name [of is_name_char x rest] end_rest rest ok by (simp add: arith_var_def)
  qed
  show "arith_unary env (atext w k (Argument i) @ rest) = out (aval env (Argument i)) rest"
    if ok: "aexp_ok (Argument i)"
  proof -
    have "show_nat i = [char_of (48 + i)]" "isdigit (char_of (48 + i))" "digit_val (char_of (48 + i)) = i"
      using ok by (auto simp: show_nat.simps [of i] isdigit_def digit_val_def code_def)
    then show ?thesis using unary_dollar [OF w] by (simp add: arith_dollar_def)
  qed
qed

lemma text_value:
  assumes w: "blanks w"
  shows "aexp_ok e \<Longrightarrow> \<not> is_name_char (peek rest) \<Longrightarrow>
      arith_unary env (atext w 2 e @ rest) = out (aval env e) rest"
    and "aexp_ok e \<Longrightarrow> \<not> is_name_char (peek rest) \<Longrightarrow>
      arith_term env (atext w 1 e @ rest) = abind (out (aval env e) rest) (arith_term_loop env)"
    and "aexp_ok e \<Longrightarrow> \<not> is_name_char (peek rest) \<Longrightarrow>
      peek (arith_skip_ws rest) \<notin> {CHR ''*'', CHR ''/'', CHR ''%''} \<Longrightarrow>
      arith_expr env (atext w 0 e @ rest) = abind (out (aval env e) rest) (arith_expr_loop env)"
proof (induction e arbitrary: rest)
  case (Literal ds)
  case 1 then show ?case using unary_atoms(1) [OF w] by simp
  case 2 then show ?case using unary_atoms(1) [OF w] by (intro term_of_unary) simp
  case 3 then show ?case using unary_atoms(1) [OF w] by (intro expr_of_term term_of_unary) simp_all
next
  case (Variable dollar x)
  case 1 then show ?case using unary_atoms(2) [OF w] by simp
  case 2 then show ?case using unary_atoms(2) [OF w] by (intro term_of_unary) simp
  case 3 then show ?case using unary_atoms(2) [OF w] by (intro expr_of_term term_of_unary) simp_all
next
  case (Argument i)
  case 1 then show ?case using unary_atoms(3) [OF w] by simp
  case 2 then show ?case using unary_atoms(3) [OF w] by (intro term_of_unary) simp
  case 3 then show ?case using unary_atoms(3) [OF w] by (intro expr_of_term term_of_unary) simp_all
next
  case (Signed neg e)
  have u: "arith_unary env (atext w k (Signed neg e) @ rest) = out (aval env (Signed neg e)) rest"
    if "aexp_ok (Signed neg e)" "\<not> is_name_char (peek rest)" for rest k
    using Signed.IH(1) [of rest] that w
    by (cases "aval env e")
      (auto simp: arith_unary.simps [of env "w @ _"] arith_sign_def out_bind_def)
  case 1 then show ?case using u by blast
  case 2 then show ?case using u by (intro term_of_unary) blast
  case 3 then show ?case using u by (intro expr_of_term term_of_unary) blast+
next
  case (Binary op l r)
  let ?t = "atext w (op_level op) l @ w @ op_char op # atext w (Suc (op_level op)) r"
  let ?v = "out_bind (aval env l) (\<lambda>x. out_bind (aval env r) (apply_op op x))"
  have name: "\<not> is_name_char (peek (w @ op_char op # s))" for s
    using blanks_not_name [OF w] by simp
  have close: "\<not> is_name_char (peek (w @ CHR '')'' # s))" for s
    using blanks_not_name [OF w] by simp
  consider (sum) "op_level op = 0" | (product) "op_level op = 1" by (cases op) auto
  then have *: "aexp_ok (Binary op l r) \<longrightarrow> (\<forall>rest. \<not> is_name_char (peek rest) \<longrightarrow>
      (op_level op = 1 \<longrightarrow> arith_term env (?t @ rest) = abind (out ?v rest) (arith_term_loop env)) \<and>
      (peek (arith_skip_ws rest) \<notin> {CHR ''*'', CHR ''/'', CHR ''%''} \<longrightarrow>
        arith_expr env (?t @ rest) = abind (out ?v rest) (arith_expr_loop env)))"
  proof cases
    case sum
    have "arith_expr env (?t @ rest) = abind (out ?v rest) (arith_expr_loop env)"
      if "aexp_ok l" "aexp_ok r" "\<not> is_name_char (peek rest)"
        "peek (arith_skip_ws rest) \<notin> {CHR ''*'', CHR ''/'', CHR ''%''}" for rest
    proof -
      have "peek (arith_skip_ws (w @ op_char op # s)) \<notin> {CHR ''*'', CHR ''/'', CHR ''%''}" for s
        using sum w by (cases op) auto
      then show ?thesis
        using expr_sum [OF Binary.IH(3) [OF that(1) name] Binary.IH(5) [OF that(2,3)] sum w that(4)]
          sum by simp
    qed
    then show ?thesis using sum by auto
  next
    case product
    have "arith_term env (?t @ rest) = abind (out ?v rest) (arith_term_loop env)"
      if "aexp_ok l" "aexp_ok r" "\<not> is_name_char (peek rest)" for rest
      using term_product [OF Binary.IH(2) [OF that(1) name] Binary.IH(4) [OF that(2,3)] product w]
        product by (simp add: numeral_2_eq_2)
    then show ?thesis using expr_of_term by auto
  qed
  have paren: "arith_unary env (w @ CHR ''('' # ?t @ w @ CHR '')'' # rest) = out ?v rest"
    if "aexp_ok (Binary op l r)" for rest
    using * that close w by (intro unary_paren) auto
  case 1
  then show ?case using paren [of rest] by (cases op) (simp_all add: Let_def)
  case 2
  then show ?case
    using * term_of_unary [OF paren [of rest]] by (cases op) (simp_all add: Let_def)
  case 3
  then show ?case using * by (cases op) (simp_all add: Let_def)
qed

lemma eval_text:
  assumes "aexp_ok e" and w: "blanks w"
  shows "eval_arith env (atext w 0 e) = out (aval env e) []"
proof -
  have "arith_expr env (atext w 0 e) = abind (out (aval env e) []) (arith_expr_loop env)"
    using text_value(3) [OF w assms(1), of "[]"] by (simp add: arith_skip_ws_def)
  also have "\<dots> = out (aval env e) []"
    by (cases "aval env e") (simp_all add: expr_loop_stop arith_skip_ws_def)
  finally have expr: "arith_expr env (atext w 0 e) = out (aval env e) []" .
  have skip: "arith_expr env (arith_skip_ws s) = arith_expr env s" for s
    by (simp add: arith_expr.simps arith_term.simps unary_skip)
  have "arith_expr env [] = AErr 2"
    by (simp add: arith_expr.simps arith_term.simps arith_unary.simps arith_primary.simps
        arith_skip_ws_def)
  then have "arith_skip_ws (atext w 0 e) \<noteq> []"
    using expr skip [of "atext w 0 e"] by (cases "aval env e") auto
  then show ?thesis
    by (cases "aval env e") (simp_all add: eval_arith_def Let_def skip expr)
qed

text \<open>
  C10. The evaluator of \<open>$((...))\<close> computes the value of the expression that the text
  denotes, for every expression: \<open>*\<close>, \<open>/\<close> and \<open>%\<close> bind tighter than \<open>+\<close> and \<open>-\<close>, both
  groups associate to the left, a sign binds tightest, parentheses override, blanks between
  tokens do not matter, \<open>$x\<close> and \<open>x\<close> both read a variable; a division by zero anywhere on the
  way is error 1, and an operation that leaves the 64-bit range is undefined.
\<close>

theorem eval_arith_value:
  "aexp_ok e \<Longrightarrow> blanks w \<Longrightarrow> eval_arith env (atext w 0 e) = out (aval env e) []"
  by (rule eval_text)

theorem eval_arith_value_witness:
  "eval_arith \<lparr>arith_getenv = [''n'' \<mapsto> ''7''], arith_positional = Map.empty\<rparr> '' ( 2 - 5 - n ) * - 3''
    = AOk 30 []"
proof -
  let ?env = "\<lparr>arith_getenv = [''n'' \<mapsto> ''7''], arith_positional = Map.empty\<rparr>"
  let ?e = "Binary Times (Binary Minus (Binary Minus (Literal ''2'') (Literal ''5''))
    (Variable False ''n'')) (Signed True (Literal ''3''))"
  have ok: "aexp_ok ?e" by (simp add: is_name_char_def isalnum_def isalpha_def isdigit_def code_def)
  have seven: "arith_value_from_text (Some ''7'') = 7"
    by (subst decimal_value) (simp_all add: isdigit_def code_def decimal_def digit_val_def int64_max_def)
  have "aval ?env ?e = OVal 30"
    by (simp add: seven out_bind_def decimal_def digit_val_def code_def int64_min_def int64_max_def)
  then have "eval_arith ?env (atext '' '' 0 ?e) = AOk 30 []"
    using eval_arith_value [OF ok, of "'' ''" ?env] by (simp add: blanks_def arith_ws_def)
  then show ?thesis by simp
qed

lemma mul_op_code: "arith_mul_op c l r s = AErr n \<Longrightarrow> n = 1"
  by (auto simp: arith_mul_op_def in64_def split: if_splits)

lemma add_op_code: "arith_add_op c l r s \<noteq> AErr n"
  by (auto simp: arith_add_op_def in64_def)

lemma arith_codes:
  "arith_primary env s = AErr n \<Longrightarrow> n = 1 \<or> n = 2"
  "arith_unary env s = AErr n \<Longrightarrow> n = 1 \<or> n = 2"
  "arith_term env s = AErr n \<Longrightarrow> n = 1 \<or> n = 2"
  "arith_term_loop env l s = AErr n \<Longrightarrow> n = 1 \<or> n = 2"
  "arith_expr env s = AErr n \<Longrightarrow> n = 1 \<or> n = 2"
  "arith_expr_loop env l s = AErr n \<Longrightarrow> n = 1 \<or> n = 2"
proof (induction env s and env s and env s and env l s and env s and env l s
    rule: arith_induct)
  case (1 env s)
  then show ?case
    by (cases "arith_skip_ws s")
      (auto simp: arith_primary.simps [of env s] abind_eq_AErr arith_dollar_def arith_var_def
        arith_number_def split: if_splits)
next
  case (2 env s)
  then show ?case
    by (cases "arith_skip_ws s")
      (auto simp: arith_unary.simps [of env s] abind_eq_AErr split: if_splits)
next
  case (3 env s)
  then show ?case by (auto simp: arith_term.simps [of env s] abind_eq_AErr)
next
  case (4 env l s)
  show ?case
  proof (cases "arith_skip_ws s")
    case Nil
    then show ?thesis using "4.prems" by (simp add: arith_term_loop.simps [of env l s])
  next
    case (Cons c s')
    then show ?thesis using "4.prems" "4.IH" [OF Cons] mul_op_code
      by (auto simp: arith_term_loop.simps [of env l s] abind_eq_AErr split: if_splits)
  qed
next
  case (5 env s)
  then show ?case by (auto simp: arith_expr.simps [of env s] abind_eq_AErr)
next
  case (6 env l s)
  show ?case
  proof (cases "arith_skip_ws s")
    case Nil
    then show ?thesis using "6.prems" by (simp add: arith_expr_loop.simps [of env l s])
  next
    case (Cons c s')
    then show ?thesis using "6.prems" "6.IH" [OF Cons] add_op_code
      by (auto simp: arith_expr_loop.simps [of env l s] abind_eq_AErr split: if_splits)
  qed
qed

text \<open>
  C31. The evaluator returns on every text, well-formed or not, and its outcome is one of four:
  error 1, error 2, a value between \<open>INT64_MIN\<close> and \<open>INT64_MAX\<close> with the whole text read,
  or an undefined signed operation; there is no other way out.
\<close>

theorem eval_arith_outcomes:
  "eval_arith env s \<in> {AErr 1, AErr 2, AUndef} \<or>
     (\<exists>v. eval_arith env s = AOk v [] \<and> int64_min \<le> v \<and> v \<le> int64_max)"
  using arith_codes(5) [of env "arith_skip_ws s"] arith_int64(5) [of env "arith_skip_ws s"]
  by (auto simp: eval_arith_def Let_def int64_min_def int64_max_def split: ares.splits)

text \<open>The undefined operations are within reach of a script.\<close>

theorem eval_arith_overflow: "eval_arith env ''9223372036854775807+1'' = AUndef"
proof -
  let ?e = "Binary Plus (Literal ''9223372036854775807'') (Literal ''1'')"
  have "aexp_ok ?e" by (simp add: isdigit_def code_def)
  moreover have "aval env ?e = OUndef"
    by (simp add: out_bind_def decimal_def digit_val_def code_def int64_min_def int64_max_def)
  ultimately show ?thesis using eval_text [of ?e "[]" env] by (simp add: blanks_def)
qed

end
