(* ===== verification/Slots.thy ===== *)
theory Slots
  imports Prelude
begin

text \<open>
  Tables of named entries.  Aliases (\<open>src/mid/alias.c\<close>) and functions
  (\<open>src/mid/dispatcher.c\<close>) live in arrays of a fixed number of slots, each free or used by
  one name; the environment is a list of pairs.  The locale \<open>keyed_table\<close> is what the shell
  relies on in all of them, \<open>keyed_store\<close> adds deletion.
\<close>

section \<open>The contract\<close>

text \<open>\<open>put\<close> may refuse (\<open>None\<close>): a bad name or value, or no room.  \<open>good\<close> says which names
  and values are acceptable.\<close>

locale keyed_table =
  fixes inv :: "'t \<Rightarrow> bool"
    and good :: "'k \<Rightarrow> 'v \<Rightarrow> bool"
    and get :: "'t \<Rightarrow> 'k \<Rightarrow> 'v option"
    and put :: "'k \<Rightarrow> 'v \<Rightarrow> 't \<Rightarrow> 't option"
  assumes put_inv: "inv t \<Longrightarrow> put k v t = Some t' \<Longrightarrow> inv t'"
    and put_get: "inv t \<Longrightarrow> put k v t = Some t' \<Longrightarrow> get t' k' = (if k' = k then Some v else get t k')"
    and put_good: "put k v t = Some t' \<Longrightarrow> good k v"
    and put_again: "inv t \<Longrightarrow> get t k \<noteq> None \<Longrightarrow> good k v \<Longrightarrow> put k v t \<noteq> None"
begin

lemma put_map: "inv t \<Longrightarrow> put k v t = Some t' \<Longrightarrow> get t' = (get t)(k \<mapsto> v)"
  by (auto simp: put_get)

text \<open>A sequence of insertions that all succeed.\<close>

primrec puts :: "('k \<times> 'v) list \<Rightarrow> 't \<Rightarrow> 't option" where
  "puts [] t = Some t"
| "puts (kv # kvs) t = (case put (fst kv) (snd kv) t of None \<Rightarrow> None | Some t' \<Rightarrow> puts kvs t')"

lemma puts_map: "inv t \<Longrightarrow> puts kvs t = Some t' \<Longrightarrow> inv t' \<and> get t' = get t ++ map_of (rev kvs)"
proof (induction kvs arbitrary: t)
  case (Cons kv kvs)
  then obtain u where u: "put (fst kv) (snd kv) t = Some u" "puts kvs u = Some t'"
    by (auto split: option.splits)
  then have "inv u" "get u = (get t)(fst kv \<mapsto> snd kv)"
    using Cons.prems(1) put_inv put_map by auto
  then show ?case using Cons.IH [OF _ u(2)] by (auto simp: map_add_def fun_eq_iff split: option.splits)
qed simp

text \<open>The last definition of a name wins, and a redefinition never fails for lack of room.\<close>

lemma redefine:
  assumes "inv t" and "put k v t = Some t'" and "good k v'"
  obtains t'' where "put k v' t' = Some t''" and "get t'' = (get t)(k \<mapsto> v')"
proof -
  have "inv t'" "get t' k = Some v" using assms put_inv put_get by auto
  then obtain t'' where "put k v' t' = Some t''" using put_again assms(3) by fastforce
  moreover from this have "get t'' = (get t)(k \<mapsto> v')"
    using put_map [OF \<open>inv t'\<close>] put_map [OF assms(1,2)] by simp
  ultimately show thesis by (rule that)
qed

end

locale keyed_store = keyed_table inv good get put
  for inv :: "'t \<Rightarrow> bool" and good :: "'k \<Rightarrow> 'v \<Rightarrow> bool" and get and put +
  fixes del :: "'k \<Rightarrow> 't \<Rightarrow> 't option"
  assumes del_inv: "inv t \<Longrightarrow> del k t = Some t' \<Longrightarrow> inv t'"
    and del_get: "inv t \<Longrightarrow> del k t = Some t' \<Longrightarrow> get t' k' = (if k' = k then None else get t k')"
    and del_present: "inv t \<Longrightarrow> get t k \<noteq> None \<Longrightarrow> del k t \<noteq> None"
begin

lemma del_map: "inv t \<Longrightarrow> del k t = Some t' \<Longrightarrow> get t' = (get t)(k := None)"
  by (auto simp: del_get)

text \<open>Deleting a name that was not there before its definition gives the old table back, as far
  as lookups can tell.\<close>

lemma put_del:
  assumes "inv t" and "put k v t = Some t'" and "get t k = None"
  obtains t'' where "del k t' = Some t''" and "get t'' = get t"
proof -
  have "inv t'" "get t' k = Some v" using assms put_inv put_get by auto
  then obtain t'' where "del k t' = Some t''" using del_present by fastforce
  moreover from this have "get t'' = get t"
    using del_map [OF \<open>inv t'\<close>] put_map [OF assms(1,2)] assms(3) by (auto simp: fun_eq_iff)
  ultimately show thesis by (rule that)
qed

end

section \<open>Arrays of slots\<close>

type_synonym 'v slots = "(string \<times> 'v) option list"

fun slot_get :: "'v slots \<Rightarrow> string \<Rightarrow> 'v option" where
  "slot_get [] k = None"
| "slot_get (None # t) k = slot_get t k"
| "slot_get (Some (k', v) # t) k = (if k' = k then Some v else slot_get t k)"

text \<open>The loop that updates an existing entry, the one that takes the first free slot, and the
  one that frees an entry.\<close>

fun slot_update :: "string \<Rightarrow> 'v \<Rightarrow> 'v slots \<Rightarrow> 'v slots option" where
  "slot_update k v [] = None"
| "slot_update k v (None # t) = map_option ((#) None) (slot_update k v t)"
| "slot_update k v (Some (k', v') # t) =
     (if k' = k then Some (Some (k, v) # t)
      else map_option ((#) (Some (k', v'))) (slot_update k v t))"

fun slot_fill :: "string \<Rightarrow> 'v \<Rightarrow> 'v slots \<Rightarrow> 'v slots option" where
  "slot_fill k v [] = None"
| "slot_fill k v (None # t) = Some (Some (k, v) # t)"
| "slot_fill k v (Some e # t) = map_option ((#) (Some e)) (slot_fill k v t)"

fun slot_free :: "string \<Rightarrow> 'v slots \<Rightarrow> 'v slots option" where
  "slot_free k [] = None"
| "slot_free k (None # t) = map_option ((#) None) (slot_free k t)"
| "slot_free k (Some (k', v) # t) =
     (if k' = k then Some (None # t) else map_option ((#) (Some (k', v))) (slot_free k t))"

definition slot_names :: "'v slots \<Rightarrow> string list" where
  "slot_names t = map fst (List.map_filter id t)"

definition slots_inv :: "nat \<Rightarrow> 'v slots \<Rightarrow> bool" where
  "slots_inv n t \<longleftrightarrow> length t = n \<and> distinct (slot_names t)"

lemma slot_names_simps [simp]:
  "slot_names [] = []" "slot_names (None # t) = slot_names t"
  "slot_names (Some (k, v) # t) = k # slot_names t"
  by (simp_all add: slot_names_def List.map_filter_simps)

lemma slot_names_iff: "k \<in> set (slot_names t) \<longleftrightarrow> slot_get t k \<noteq> None"
  by (induction t k rule: slot_get.induct) auto

lemma slot_names_empty [simp]: "slot_names (replicate n None) = []"
  by (induction n) auto

lemma slot_get_empty [simp]: "slot_get (replicate n None) k = None"
  by (induction n) auto

lemma slot_update_None: "slot_update k v t = None \<longleftrightarrow> slot_get t k = None"
  by (induction k v t rule: slot_update.induct) auto

lemma slot_update_names: "slot_update k v t = Some t' \<Longrightarrow> slot_names t' = slot_names t \<and> length t' = length t"
  by (induction k v t arbitrary: t' rule: slot_update.induct) (auto split: if_splits)

lemma slot_update_get:
  "slot_update k v t = Some t' \<Longrightarrow> slot_get t' k' = (if k' = k then Some v else slot_get t k')"
  by (induction k v t arbitrary: t' rule: slot_update.induct) (auto split: if_splits)

lemma slot_fill_None: "slot_fill k v t = None \<longleftrightarrow> length (slot_names t) = length t"
proof (induction k v t rule: slot_fill.induct)
  case (2 k v t)
  have "length (slot_names t) \<le> length t"
    by (simp add: slot_names_def List.map_filter_def)
  then show ?case by simp
qed auto

lemma slot_fill_names:
  "slot_fill k v t = Some t' \<Longrightarrow> set (slot_names t') = insert k (set (slot_names t)) \<and>
     length t' = length t \<and> (k \<notin> set (slot_names t) \<longrightarrow> distinct (slot_names t) \<longrightarrow> distinct (slot_names t'))"
  by (induction k v t arbitrary: t' rule: slot_fill.induct) auto

lemma slot_fill_get:
  "slot_fill k v t = Some t' \<Longrightarrow> slot_get t k = None \<Longrightarrow>
     slot_get t' k' = (if k' = k then Some v else slot_get t k')"
  by (induction k v t arbitrary: t' rule: slot_fill.induct) (auto split: if_splits)

lemma slot_free_None: "slot_free k t = None \<longleftrightarrow> slot_get t k = None"
  by (induction k t rule: slot_free.induct) auto

lemma slot_free_names:
  "slot_free k t = Some t' \<Longrightarrow> slot_names t' = remove1 k (slot_names t) \<and> length t' = length t"
  by (induction k t arbitrary: t' rule: slot_free.induct) (auto split: if_splits)

lemma slot_free_get:
  "slot_free k t = Some t' \<Longrightarrow> distinct (slot_names t) \<Longrightarrow>
     slot_get t' k' = (if k' = k then None else slot_get t k')"
proof (induction k t arbitrary: t' rule: slot_free.induct)
  case (3 k k1 v t)
  then show ?case using slot_names_iff [of k t] by (auto split: if_splits)
qed auto

end
