(* ===== verification/Alias.thy ===== *)
theory Alias
  imports Slots
begin

text \<open>
  Aliases (\<open>src/mid/alias.c\<close>) and the builtins \<open>alias\<close> and \<open>unalias\<close>
  (\<open>src/mid/dispatcher.c\<close>).  The table is an array of 64 slots; it is shown to be a finite map
  with a bound, so that its clients never see the slots.
\<close>

section \<open>The table\<close>

definition alias_max :: nat where "alias_max = 64"
definition alias_name_max :: nat where "alias_name_max = 64"
definition alias_val_max :: nat where "alias_val_max = 512"

type_synonym aliases = "string slots"

definition valid_name :: "string \<Rightarrow> bool" where
  "valid_name name \<longleftrightarrow> name \<noteq> [] \<and> (isalpha (hd name) \<or> hd name = CHR ''_'') \<and>
     list_all (\<lambda>c. isalnum c \<or> c = CHR ''_'' \<or> c = CHR ''-'') name"

definition alias_clear_all :: aliases where
  "alias_clear_all = replicate alias_max None"

definition alias_set :: "string \<Rightarrow> string \<Rightarrow> aliases \<Rightarrow> aliases option" where
  "alias_set name value t =
     (if \<not> valid_name name then None
      else if length name \<ge> alias_name_max then None
      else if length value \<ge> alias_val_max then None
      else case slot_update name value t of
        Some t' \<Rightarrow> Some t'
      | None \<Rightarrow> slot_fill name value t)"

definition alias_unset :: "string \<Rightarrow> aliases \<Rightarrow> aliases option" where
  "alias_unset name t = slot_free name t"

definition alias_get :: "aliases \<Rightarrow> string \<Rightarrow> string option" where
  "alias_get t name = slot_get t name"

definition alias_text :: "string \<Rightarrow> string \<Rightarrow> string" where
  "alias_text name value = ''alias '' @ name @ [CHR ''='', SQ] @ value @ [SQ, NL]"

definition alias_list_print :: "aliases \<Rightarrow> string" where
  "alias_list_print t =
     concat (map (\<lambda>s. case s of None \<Rightarrow> [] | Some (n, v) \<Rightarrow> alias_text n v) t)"

definition alias_word_stop :: "char \<Rightarrow> bool" where
  "alias_word_stop c \<longleftrightarrow> isspace c \<or> c \<in> {CHR ''|'', CHR ''<'', CHR ''>'', CHR ''&''}"

definition alias_expand_line :: "aliases \<Rightarrow> string \<Rightarrow> string" where
  "alias_expand_line t line0 =
     (let line = skip_space line0;
          word = takeWhile (\<lambda>c. \<not> alias_word_stop c) line;
          rest = dropWhile (\<lambda>c. \<not> alias_word_stop c) line
      in if word = [] \<or> length word \<ge> alias_name_max then line
         else case alias_get t word of
           None \<Rightarrow> line
         | Some repl \<Rightarrow> repl @ rest)"

section \<open>The builtins\<close>

text \<open>The result is the exit status, the output and the table.\<close>

fun join_args :: "string list \<Rightarrow> string" where
  "join_args [] = []"
| "join_args [a] = a"
| "join_args (a # as) = a @ CHR '' '' # join_args as"

definition alias_store :: "string \<Rightarrow> string \<Rightarrow> aliases \<Rightarrow> int \<times> string \<times> aliases" where
  "alias_store name value t =
     (case alias_set name value t of None \<Rightarrow> (1, [], t) | Some t' \<Rightarrow> (0, [], t'))"

definition builtin_alias :: "string list \<Rightarrow> aliases \<Rightarrow> int \<times> string \<times> aliases" where
  "builtin_alias args t =
     (if length args < 2 then (0, alias_list_print t, t)
      else let arg = args ! 1
      in case split_at (CHR ''='') arg of
           Some (n # ns, value) \<Rightarrow>
             if length (n # ns) \<ge> 64 then (1, [], t) else alias_store (n # ns) value t
         | _ \<Rightarrow>
             if length args \<ge> 3 then alias_store arg (join_args (drop 2 args)) t
             else case alias_get t arg of
               None \<Rightarrow> (1, [], t)
             | Some v \<Rightarrow> (0, alias_text arg v, t))"

definition builtin_unalias :: "string list \<Rightarrow> aliases \<Rightarrow> int \<times> aliases" where
  "builtin_unalias args t =
     (if length args < 2 then (1, t)
      else case alias_unset (args ! 1) t of None \<Rightarrow> (1, t) | Some t' \<Rightarrow> (0, t'))"

section \<open>The table is a bounded map\<close>

definition alias_good :: "string \<Rightarrow> string \<Rightarrow> bool" where
  "alias_good name value \<longleftrightarrow>
     valid_name name \<and> length name < alias_name_max \<and> length value < alias_val_max"

abbreviation aliases_inv :: "aliases \<Rightarrow> bool" where
  "aliases_inv \<equiv> slots_inv alias_max"

lemma alias_clear_inv: "aliases_inv alias_clear_all"
  by (simp add: slots_inv_def alias_clear_all_def)

lemma alias_set_cases:
  assumes "alias_set n v t = Some t'"
  obtains "alias_good n v" "slot_get t n \<noteq> None" "slot_update n v t = Some t'"
    | "alias_good n v" "slot_get t n = None" "slot_fill n v t = Some t'"
  using assms slot_update_None [of n v t]
  by (auto simp: alias_set_def alias_good_def split: if_splits option.splits)

interpretation alias_table: keyed_store aliases_inv alias_good alias_get alias_set alias_unset
proof unfold_locales
  fix t t' :: aliases and k v k' :: string
  show "aliases_inv t \<Longrightarrow> alias_set k v t = Some t' \<Longrightarrow> aliases_inv t'"
    using slot_names_iff [of k t] slot_update_names [of k v t] slot_fill_names [of k v t]
    by (auto simp: slots_inv_def elim!: alias_set_cases)
  show "aliases_inv t \<Longrightarrow> alias_set k v t = Some t' \<Longrightarrow>
      alias_get t' k' = (if k' = k then Some v else alias_get t k')"
    unfolding alias_get_def
    by (erule alias_set_cases) (auto simp: slot_update_get slot_fill_get)
  show "alias_set k v t = Some t' \<Longrightarrow> alias_good k v"
    by (erule alias_set_cases)
  show "aliases_inv t \<Longrightarrow> alias_get t k \<noteq> None \<Longrightarrow> alias_good k v \<Longrightarrow> alias_set k v t \<noteq> None"
    using slot_update_None [of k v t]
    by (auto simp: alias_get_def alias_set_def alias_good_def split: option.splits)
  show "aliases_inv t \<Longrightarrow> alias_unset k t = Some t' \<Longrightarrow> aliases_inv t'"
    using slot_free_names [of k t] by (auto simp: alias_unset_def slots_inv_def)
  show "aliases_inv t \<Longrightarrow> alias_unset k t = Some t' \<Longrightarrow>
      alias_get t' k' = (if k' = k then None else alias_get t k')"
    using slot_free_get [of k t] by (auto simp: alias_unset_def alias_get_def slots_inv_def)
  show "aliases_inv t \<Longrightarrow> alias_get t k \<noteq> None \<Longrightarrow> alias_unset k t \<noteq> None"
    using slot_free_None [of k t] by (simp add: alias_unset_def alias_get_def)
qed

text \<open>When a definition is refused.\<close>

lemma alias_set_None:
  assumes "aliases_inv t"
  shows "alias_set n v t = None \<longleftrightarrow>
    \<not> alias_good n v \<or> alias_get t n = None \<and> card (dom (alias_get t)) = alias_max"
proof -
  have "dom (alias_get t) = set (slot_names t)"
    by (auto simp: alias_get_def slot_names_iff)
  then have "card (dom (alias_get t)) = length (slot_names t)"
    using assms by (simp add: slots_inv_def distinct_card)
  then show ?thesis
    using assms slot_update_None [of n v t] slot_fill_None [of n v t]
    by (auto simp: alias_set_def alias_good_def alias_get_def slots_inv_def split: option.splits)
qed

text \<open>The sessions of the table: what definitions and removals lead to.\<close>

inductive alias_reach :: "aliases \<Rightarrow> bool" where
  alias_start: "alias_reach alias_clear_all"
| alias_define: "alias_reach t \<Longrightarrow> builtin_alias args t = (rc, out, t') \<Longrightarrow> alias_reach t'"
| alias_remove: "alias_reach t \<Longrightarrow> builtin_unalias args t = (rc, t') \<Longrightarrow> alias_reach t'"

lemma alias_store_cases:
  "alias_store n v t = (rc, out, t') \<Longrightarrow> t' = t \<or> alias_set n v t = Some t'"
  by (auto simp: alias_store_def split: option.splits)

lemma builtin_alias_cases:
  "builtin_alias args t = (rc, out, t') \<Longrightarrow> t' = t \<or> (\<exists>n v. alias_set n v t = Some t')"
  by (auto simp: builtin_alias_def Let_def split: if_splits option.splits list.splits
      dest!: alias_store_cases)

lemma builtin_unalias_cases:
  "builtin_unalias args t = (rc, t') \<Longrightarrow> t' = t \<or> (\<exists>n. alias_unset n t = Some t')"
  by (auto simp: builtin_unalias_def split: if_splits option.splits)

lemma alias_reach_inv:
  "alias_reach t \<Longrightarrow> aliases_inv t \<and> (\<forall>n v. alias_get t n = Some v \<longrightarrow> alias_good n v)"
proof (induction rule: alias_reach.induct)
  case alias_start
  then show ?case using alias_clear_inv by (simp add: alias_get_def alias_clear_all_def)
next
  case (alias_define t args rc out t')
  then show ?case
    using builtin_alias_cases alias_table.put_inv alias_table.put_get alias_table.put_good
    by (metis option.inject)
next
  case (alias_remove t args rc t')
  then show ?case
    using builtin_unalias_cases alias_table.del_inv alias_table.del_get by (metis option.distinct(1))
qed

text \<open>
  C27. Whatever \<open>alias\<close> and \<open>unalias\<close> commands were run, the table is a map of at most 64
  names: a definition succeeds exactly when the name and the value are acceptable and the name
  is known or there is room, it changes this name only, and a removal succeeds exactly when the
  name is defined and removes this name only.
\<close>

theorem alias_table_is_map:
  assumes "alias_reach t"
  shows "(alias_set n v t = None \<longleftrightarrow>
      \<not> alias_good n v \<or> alias_get t n = None \<and> card (dom (alias_get t)) = alias_max) \<and>
    (\<forall>t'. alias_set n v t = Some t' \<longrightarrow> alias_get t' = (alias_get t)(n \<mapsto> v)) \<and>
    (alias_unset n t = None \<longleftrightarrow> alias_get t n = None) \<and>
    (\<forall>t'. alias_unset n t = Some t' \<longrightarrow> alias_get t' = (alias_get t)(n := None))"
proof -
  have inv: "aliases_inv t" using alias_reach_inv [OF assms] ..
  then show ?thesis
    using alias_set_None [OF inv] alias_table.put_map [OF inv] alias_table.del_map [OF inv]
      slot_free_None [of n t]
    by (auto simp: alias_unset_def alias_get_def)
qed

theorem alias_table_is_map_witness:
  "\<exists>t'. alias_set ''ll'' ''ls -l'' alias_clear_all = Some t' \<and> alias_get t' = [''ll'' \<mapsto> ''ls -l'']"
proof -
  have "alias_good ''ll'' ''ls -l''"
    by (simp add: alias_good_def valid_name_def alias_name_max_def alias_val_max_def
        isalnum_def isalpha_def code_def)
  moreover have "alias_get alias_clear_all = Map.empty"
    by (auto simp: alias_get_def alias_clear_all_def)
  ultimately show ?thesis
    using alias_table_is_map [OF alias_start, of "''ll''" "''ls -l''"]
    by (cases "alias_set ''ll'' ''ls -l'' alias_clear_all") (auto simp: alias_max_def)
qed

end
