(* ===== verification/ShellVars.thy ===== *)
theory ShellVars
  imports Slots Arith Ast "HOL-Library.AList"
begin

text \<open>
  The variables of the shell: the environment (\<open>src/foundation/env.c\<close>), the positional
  parameters and options (\<open>src/mid/expand.c\<close>), the functions and the stack of saved values of
  \<open>local\<close> (\<open>src/mid/dispatcher.c\<close>), with the builtins \<open>export\<close>, \<open>unset\<close>,
  \<open>shift\<close>, \<open>return\<close> and \<open>local\<close>.
\<close>

section \<open>The C library's number parser\<close>

text \<open>\<open>strtol\<close> in base 10 with a 64-bit \<open>long\<close>: the value, whether it was out of range, and
  the text after the number (the whole text when there is none).\<close>

definition strtol10 :: "string \<Rightarrow> int \<times> bool \<times> string" where
  "strtol10 s =
     (let t = skip_space s;
          u = (if peek t = CHR ''+'' \<or> peek t = CHR ''-'' then tl t else t);
          ds = takeWhile isdigit u;
          v = (if peek t = CHR ''-'' then - int (decimal ds) else int (decimal ds))
      in if ds = [] then (0, False, s)
         else if v < int64_min then (int64_min, True, dropWhile isdigit u)
         else if v > int64_max then (int64_max, True, dropWhile isdigit u)
         else (v, False, dropWhile isdigit u))"

text \<open>The check the builtins make on a numeric argument.\<close>

definition numeric_arg :: "string \<Rightarrow> int option" where
  "numeric_arg arg =
     (case strtol10 arg of (v, erange, rest) \<Rightarrow>
        if arg = [] \<or> rest = arg \<or> rest \<noteq> [] \<or> erange then None else Some v)"

section \<open>The environment\<close>

text \<open>\<open>setenv\<close> and \<open>unsetenv\<close> refuse an empty name and a name with \<open>=\<close>.\<close>

type_synonym env = "(string \<times> string) list"

definition env_name :: "string \<Rightarrow> bool" where
  "env_name n \<longleftrightarrow> n \<noteq> [] \<and> CHR ''='' \<notin> set n"

definition petrush_getenv :: "env \<Rightarrow> string \<Rightarrow> string option" where
  "petrush_getenv e n = map_of e n"

definition petrush_setenv :: "string \<Rightarrow> string \<Rightarrow> env \<Rightarrow> env option" where
  "petrush_setenv n v e = (if env_name n then Some (AList.update n v e) else None)"

definition petrush_unsetenv :: "string \<Rightarrow> env \<Rightarrow> env option" where
  "petrush_unsetenv n e = (if env_name n then Some (AList.delete n e) else None)"

definition env_inv :: "env \<Rightarrow> bool" where
  "env_inv e \<longleftrightarrow> (\<forall>n\<in>fst ` set e. env_name n)"

interpretation env_table: keyed_store env_inv "\<lambda>n v. env_name n" petrush_getenv petrush_setenv
  petrush_unsetenv
proof unfold_locales
  fix e e' :: env and n n' v :: string
  show "env_inv e \<Longrightarrow> petrush_setenv n v e = Some e' \<Longrightarrow> env_inv e'"
    using dom_update [of n v e]
    by (auto simp only: env_inv_def petrush_setenv_def option.inject option.distinct split: if_splits)
  show "env_inv e \<Longrightarrow> petrush_setenv n v e = Some e' \<Longrightarrow>
      petrush_getenv e' n' = (if n' = n then Some v else petrush_getenv e n')"
    by (auto simp: petrush_setenv_def petrush_getenv_def update_conv' split: if_splits)
  show "petrush_setenv n v e = Some e' \<Longrightarrow> env_name n"
    by (auto simp: petrush_setenv_def split: if_splits)
  show "env_inv e \<Longrightarrow> petrush_getenv e n \<noteq> None \<Longrightarrow> env_name n \<Longrightarrow> petrush_setenv n v e \<noteq> None"
    by (simp add: petrush_setenv_def)
  show "env_inv e \<Longrightarrow> petrush_unsetenv n e = Some e' \<Longrightarrow> env_inv e'"
    by (auto simp: env_inv_def petrush_unsetenv_def AList.delete_eq split: if_splits)
  show "env_inv e \<Longrightarrow> petrush_unsetenv n e = Some e' \<Longrightarrow>
      petrush_getenv e' n' = (if n' = n then None else petrush_getenv e n')"
    by (auto simp: petrush_unsetenv_def petrush_getenv_def delete_conv' split: if_splits)
  show "env_inv e \<Longrightarrow> petrush_getenv e n \<noteq> None \<Longrightarrow> petrush_unsetenv n e \<noteq> None"
    by (auto simp: env_inv_def petrush_getenv_def petrush_unsetenv_def dest!: map_of_SomeD)
qed

section \<open>Functions\<close>

definition fn_max :: nat where "fn_max = 64"

type_synonym fn_entries = "plist slots"

text \<open>The loop of \<open>fn_set\<close>: the slot of the name, or else the first free one.\<close>

fun fn_slot :: "string \<Rightarrow> nat \<Rightarrow> nat option \<Rightarrow> fn_entries \<Rightarrow> nat option" where
  "fn_slot name i slot [] = slot"
| "fn_slot name i slot (Some (n, b) # t) =
     (if n = name then Some i else fn_slot name (Suc i) slot t)"
| "fn_slot name i slot (None # t) =
     fn_slot name (Suc i) (case slot of None \<Rightarrow> Some i | Some j \<Rightarrow> Some j) t"

definition fn_set :: "string \<Rightarrow> plist \<Rightarrow> fn_entries \<Rightarrow> fn_entries option" where
  "fn_set name body t =
     (if name = [] then None
      else case fn_slot name 0 None t of
        None \<Rightarrow> None
      | Some i \<Rightarrow> Some (t[i := Some (name, body)]))"

definition fn_get :: "fn_entries \<Rightarrow> string \<Rightarrow> plist option" where
  "fn_get t name = slot_get t name"

lemma fn_slot_update:
  "fn_slot name i slot t = (case slot_update name b t of
     Some t' \<Rightarrow> Some (i + length (takeWhile (\<lambda>e. \<forall>b. e \<noteq> Some (name, b)) t))
   | None \<Rightarrow> (case slot of Some j \<Rightarrow> Some j
       | None \<Rightarrow> if None \<in> set t then Some (i + length (takeWhile (\<lambda>e. e \<noteq> None) t)) else None))"
  by (induction name i slot t rule: fn_slot.induct) (auto split: option.splits)

lemma update_at:
  "slot_update name b t = Some t' \<Longrightarrow>
     t[length (takeWhile (\<lambda>e. \<forall>b. e \<noteq> Some (name, b)) t) := Some (name, b)] = t'"
  by (induction name b t arbitrary: t' rule: slot_update.induct) (auto split: if_splits)

lemma fill_at:
  "None \<in> set t \<Longrightarrow> slot_fill name b t = Some (t[length (takeWhile (\<lambda>e. e \<noteq> None) t) := Some (name, b)])"
  by (induction name b t rule: slot_fill.induct) auto

lemma fill_none: "None \<notin> set t \<Longrightarrow> slot_fill name b t = None"
  by (induction name b t rule: slot_fill.induct) auto

text \<open>One loop in C does what two do in the table of aliases.\<close>

lemma fn_set_slots:
  "fn_set name b t = (if name = [] then None
     else case slot_update name b t of Some t' \<Rightarrow> Some t' | None \<Rightarrow> slot_fill name b t)"
  using fn_slot_update [of name 0 None t b] update_at [of name b t] fill_at [of t name b]
    fill_none [of t name b]
  by (auto simp: fn_set_def split: option.splits)

interpretation fn_table: keyed_table "slots_inv fn_max" "\<lambda>n b. n \<noteq> []" fn_get fn_set
proof unfold_locales
  fix t t' :: fn_entries and k k' :: string and b :: plist
  show "slots_inv fn_max t \<Longrightarrow> fn_set k b t = Some t' \<Longrightarrow> slots_inv fn_max t'"
    using slot_update_None [of k b t] slot_names_iff [of k t] slot_update_names [of k b t]
      slot_fill_names [of k b t]
    by (auto simp: slots_inv_def fn_set_slots split: if_splits option.splits)
  show "slots_inv fn_max t \<Longrightarrow> fn_set k b t = Some t' \<Longrightarrow>
      fn_get t' k' = (if k' = k then Some b else fn_get t k')"
    using slot_update_None [of k b t] slot_update_get [of k b t] slot_fill_get [of k b t]
    by (auto simp: fn_get_def fn_set_slots split: if_splits option.splits)
  show "fn_set k b t = Some t' \<Longrightarrow> k \<noteq> []"
    by (auto simp: fn_set_def split: if_splits)
  show "slots_inv fn_max t \<Longrightarrow> fn_get t k \<noteq> None \<Longrightarrow> k \<noteq> [] \<Longrightarrow> fn_set k b t \<noteq> None"
    using slot_update_None [of k b t]
    by (auto simp: fn_get_def fn_set_slots split: option.splits)
qed

section \<open>Positional parameters\<close>

text \<open>An access outside an array is an outcome of its own.\<close>

datatype 'a mem = Out_Of_Bounds | Val 'a

record positional =
  pos_arg0 :: "string option"
  pos_args :: "string list"

definition positional_clear :: positional where
  "positional_clear = \<lparr>pos_arg0 = None, pos_args = []\<rparr>"

definition positional_set :: "string option \<Rightarrow> string list \<Rightarrow> positional" where
  "positional_set arg0 args = \<lparr>pos_arg0 = arg0, pos_args = args\<rparr>"

text \<open>The counts are \<open>unsigned\<close> and are compared after a cast to \<open>int\<close>.\<close>

definition positional_get :: "positional \<Rightarrow> 32 word \<Rightarrow> string option mem" where
  "positional_get p n =
     (if n = 0 then Val (Some (case pos_arg0 p of None \<Rightarrow> [] | Some a \<Rightarrow> a))
      else if sint n > int (length (pos_args p)) then Val None
      else if sint n < 0 then Out_Of_Bounds
      else Val (Some (pos_args p ! (unat n - 1))))"

definition positional_count :: "positional \<Rightarrow> nat" where
  "positional_count p = length (pos_args p)"

text \<open>\<open>Val None\<close> is the result -1.  With \<open>n\<close> negative as an \<open>int\<close>, \<open>remain\<close> exceeds the
  array: \<open>memmove\<close> reads before it and writes past its end.\<close>

definition positional_shift :: "32 word \<Rightarrow> positional \<Rightarrow> positional option mem" where
  "positional_shift n p =
     (if n = 0 then Val (Some p)
      else if sint n > int (length (pos_args p)) then Val None
      else if sint n < 0 then Out_Of_Bounds
      else Val (Some (p\<lparr>pos_args := drop (unat n) (pos_args p)\<rparr>)))"

definition builtin_shift :: "string list \<Rightarrow> positional \<Rightarrow> (int \<times> positional) mem" where
  "builtin_shift args p =
     (if length args > 2 then Val (1, p)
      else case (if length args = 2 then numeric_arg (args ! 1) else Some 1) of
        None \<Rightarrow> Val (1, p)
      | Some v \<Rightarrow>
          if v < 0 \<or> v > 2 ^ 32 - 1 then Val (1, p)
          else (case positional_shift (word_of_int v) p of
            Out_Of_Bounds \<Rightarrow> Out_Of_Bounds
          | Val None \<Rightarrow> Val (1, p)
          | Val (Some p') \<Rightarrow> Val (0, p')))"

lemma sint_small: "0 \<le> v \<Longrightarrow> v < 2 ^ 31 \<Longrightarrow> sint (word_of_int v :: 32 word) = v"
  by (subst int_word_sint) simp

lemma sint_large:
  assumes "2 ^ 31 \<le> v" and "v < 2 ^ 32"
  shows "sint (word_of_int v :: 32 word) = v - 2 ^ 32"
proof -
  have "(v - 2147483648 + 4294967296) mod 4294967296 = v - 2147483648"
    using assms by (subst mod_add_self2) simp
  then show ?thesis by (subst int_word_sint) (simp add: add.commute)
qed

text \<open>
  \<open>shift n\<close> drops the first \<open>n\<close> positional parameters, keeps \<open>$0\<close>, and fails without
  changing anything when there are fewer; but this holds for counts below \<open>2^31\<close> only.  From
  there to \<open>2^32 - 1\<close> the count passes the range check of the builtin, turns negative in
  \<open>petrush_positional_shift\<close>, and the array is moved out of its bounds.
\<close>

theorem shift_counts:
  assumes "0 \<le> v" and "v < 2 ^ 32"
  shows "positional_shift (word_of_int v) p =
    (if v \<ge> 2 ^ 31 then Out_Of_Bounds
     else if v > int (length (pos_args p)) then Val None
     else Val (Some (p\<lparr>pos_args := drop (nat v) (pos_args p)\<rparr>)))"
proof (cases "v < 2 ^ 31")
  case True
  then have s: "sint (word_of_int v :: 32 word) = v" using assms(1) by (rule sint_small [rotated])
  have u: "unat (word_of_int v :: 32 word) = nat v"
    using assms by (simp add: unsigned_of_int take_bit_int_eq_self)
  have "(word_of_int v = (0 :: 32 word)) \<longleftrightarrow> v = 0"
    using s sint_0 by (metis of_int_0)
  then show ?thesis using True s u assms(1)
    by (auto simp: positional_shift_def)
next
  case False
  then have s: "sint (word_of_int v :: 32 word) = v - 2 ^ 32" using sint_large assms(2) by simp
  then have "(word_of_int v :: 32 word) \<noteq> 0" using assms(2) by auto
  then show ?thesis using False s assms(2) by (simp add: positional_shift_def)
qed

theorem shift_counts_witness:
  "positional_shift 1 \<lparr>pos_arg0 = Some ''f'', pos_args = [''a'', ''b'']\<rparr> =
     Val (Some \<lparr>pos_arg0 = Some ''f'', pos_args = [''b'']\<rparr>)"
  using shift_counts [of 1 "\<lparr>pos_arg0 = Some ''f'', pos_args = [''a'', ''b'']\<rparr>"] by simp

text \<open>A script reaches it.\<close>

theorem shift_out_of_bounds: "builtin_shift [''shift'', ''4294967295''] p = Out_Of_Bounds"
proof -
  have arg: "numeric_arg ''4294967295'' = Some 4294967295"
    by (simp add: numeric_arg_def strtol10_def decimal_def digit_val_def code_def isdigit_def
        isspace_def int64_min_def int64_max_def)
  have neg: "sint (4294967295 :: 32 word) = - 1" by simp
  then have "(4294967295 :: 32 word) \<noteq> 0" by auto
  then have "positional_shift 4294967295 p = Out_Of_Bounds"
    using neg by (simp add: positional_shift_def)
  then show ?thesis by (simp add: builtin_shift_def arg)
qed

section \<open>Options and flags\<close>

record shellopts =
  opt_e :: bool
  opt_u :: bool
  opt_x :: bool

definition shellopt_set :: "char \<Rightarrow> bool \<Rightarrow> shellopts \<Rightarrow> shellopts option" where
  "shellopt_set flag on s =
     (if flag = CHR ''e'' then Some (s\<lparr>opt_e := on\<rparr>)
      else if flag = CHR ''u'' then Some (s\<lparr>opt_u := on\<rparr>)
      else if flag = CHR ''x'' then Some (s\<lparr>opt_x := on\<rparr>)
      else None)"

definition shellopt_get :: "char \<Rightarrow> shellopts \<Rightarrow> bool" where
  "shellopt_get flag s =
     (if flag = CHR ''e'' then opt_e s else if flag = CHR ''u'' then opt_u s
      else if flag = CHR ''x'' then opt_x s else False)"

definition shellopt_flags :: "shellopts \<Rightarrow> string" where
  "shellopt_flags s =
     ''C'' @ (if opt_e s then ''e'' else []) @ (if opt_u s then ''u'' else []) @
     (if opt_x s then ''x'' else [])"

section \<open>Local variables\<close>

text \<open>A saved value: the depth of the function, the name and the value it had (\<open>None\<close> when it
  was not set).  The top of the stack is the head of the list.\<close>

record local_save =
  save_depth :: nat
  save_name :: string
  save_old :: "string option"

definition local_stack_max :: nat where "local_stack_max = 256"

definition local_push :: "string \<Rightarrow> nat \<Rightarrow> env \<Rightarrow> local_save list \<Rightarrow> local_save list option" where
  "local_push name depth e st =
     (if name = [] \<or> length st \<ge> local_stack_max then None
      else Some (\<lparr>save_depth = depth, save_name = name, save_old = petrush_getenv e name\<rparr> # st))"

definition or_same :: "'a option \<Rightarrow> 'a \<Rightarrow> 'a" where
  "or_same r x = (case r of None \<Rightarrow> x | Some y \<Rightarrow> y)"

fun local_restore_frame :: "nat \<Rightarrow> env \<Rightarrow> local_save list \<Rightarrow> env \<times> local_save list" where
  "local_restore_frame depth e [] = (e, [])"
| "local_restore_frame depth e (s # st) =
     (if save_depth s \<noteq> depth then (e, s # st)
      else local_restore_frame depth
        (case save_old s of
           Some v \<Rightarrow> or_same (petrush_setenv (save_name s) v e) e
         | None \<Rightarrow> or_same (petrush_unsetenv (save_name s) e) e) st)"

text \<open>The loop of \<open>builtin_local\<close> over its arguments, with the status so far.\<close>

definition local_one :: "string \<Rightarrow> string option \<Rightarrow> env \<Rightarrow> bool \<times> env" where
  "local_one name val e =
     (case val of
        Some v \<Rightarrow> (case petrush_setenv name v e of None \<Rightarrow> (False, e) | Some e' \<Rightarrow> (True, e'))
      | None \<Rightarrow> (True, or_same (petrush_unsetenv name e) e))"

definition local_split :: "string \<Rightarrow> string \<times> string option" where
  "local_split arg =
     (case split_at (CHR ''='') arg of None \<Rightarrow> (arg, None) | Some (n, v) \<Rightarrow> (n, Some v))"

fun local_loop :: "nat \<Rightarrow> string list \<Rightarrow> int \<Rightarrow> env \<Rightarrow> local_save list \<Rightarrow> int \<times> env \<times> local_save list" where
  "local_loop depth [] ret e st = (ret, e, st)"
| "local_loop depth (arg # args) ret e st =
     (if arg = [] then local_loop depth args 1 e st
      else if peek arg = CHR ''-'' then (1, e, st)
      else
        case local_split arg of (name, val) \<Rightarrow>
           if val \<noteq> None \<and> (name = [] \<or> length name \<ge> 256) then local_loop depth args 1 e st
           else case local_push name depth e st of
             None \<Rightarrow> (1, e, st)
           | Some st' \<Rightarrow> (case local_one name val e of (ok, e') \<Rightarrow>
               local_loop depth args (if ok then ret else 1) e' st'))"

definition builtin_local :: "string list \<Rightarrow> nat \<Rightarrow> env \<Rightarrow> local_save list \<Rightarrow> int \<times> env \<times> local_save list" where
  "builtin_local args depth e st =
     (if depth = 0 \<or> length args < 2 then (1, e, st) else local_loop depth (tl args) 0 e st)"

text \<open>\<open>return\<close> gives its status and, when it is accepted, the status to return with.\<close>

definition builtin_return :: "string list \<Rightarrow> nat \<Rightarrow> int \<times> int option" where
  "builtin_return args depth =
     (if depth = 0 \<or> length args > 2 then (1, None)
      else case (if length args = 2 then numeric_arg (args ! 1) else Some 0) of
        None \<Rightarrow> (1, None)
      | Some v \<Rightarrow> (v mod 256, Some (v mod 256)))"

section \<open>The environment builtins\<close>

definition export_one :: "string \<Rightarrow> env \<Rightarrow> bool \<times> env" where
  "export_one arg e =
     (case split_at (CHR ''='') arg of
        Some (name, value) \<Rightarrow>
          if length name \<ge> 256 then (False, e)
          else (case petrush_setenv name value e of None \<Rightarrow> (False, e) | Some e' \<Rightarrow> (True, e'))
      | None \<Rightarrow> (petrush_getenv e arg \<noteq> None, e))"

fun export_loop :: "string list \<Rightarrow> int \<Rightarrow> env \<Rightarrow> int \<times> env" where
  "export_loop [] ret e = (ret, e)"
| "export_loop (arg # args) ret e =
     (case export_one arg e of (ok, e') \<Rightarrow> export_loop args (if ok then ret else 1) e')"

definition builtin_export :: "string list \<Rightarrow> env \<Rightarrow> int \<times> env" where
  "builtin_export args e = (if length args < 2 then (1, e) else export_loop (tl args) 0 e)"

fun unset_loop :: "string list \<Rightarrow> int \<Rightarrow> env \<Rightarrow> int \<times> env" where
  "unset_loop [] ret e = (ret, e)"
| "unset_loop (arg # args) ret e =
     (case petrush_unsetenv arg e of
        None \<Rightarrow> unset_loop args 1 e
      | Some e' \<Rightarrow> unset_loop args ret e')"

definition builtin_unset :: "string list \<Rightarrow> env \<Rightarrow> int \<times> env" where
  "builtin_unset args e = (if length args < 2 then (1, e) else unset_loop (tl args) 0 e)"

section \<open>Leaving a function undoes its locals\<close>

definition frame_of :: "nat \<Rightarrow> local_save list \<Rightarrow> local_save list" where
  "frame_of d st = takeWhile (\<lambda>s. save_depth s = d) st"

text \<open>What a function of depth \<open>d\<close> does to its variables: \<open>local\<close> commands, and changes of
  variables that it declared.\<close>

inductive frame_run :: "nat \<Rightarrow> env \<Rightarrow> local_save list \<Rightarrow> env \<Rightarrow> local_save list \<Rightarrow> bool"
  for d e0 st0 where
  frame_enter: "frame_run d e0 st0 e0 st0"
| frame_local: "frame_run d e0 st0 e st \<Longrightarrow> builtin_local args d e st = (rc, e', st') \<Longrightarrow>
    frame_run d e0 st0 e' st'"
| frame_set: "frame_run d e0 st0 e st \<Longrightarrow> n \<in> save_name ` set (frame_of d st) \<Longrightarrow>
    petrush_setenv n v e = Some e' \<Longrightarrow> frame_run d e0 st0 e' st"
| frame_unset: "frame_run d e0 st0 e st \<Longrightarrow> n \<in> save_name ` set (frame_of d st) \<Longrightarrow>
    petrush_unsetenv n e = Some e' \<Longrightarrow> frame_run d e0 st0 e' st"

text \<open>The values that undoing a frame leaves.\<close>

fun undo :: "local_save list \<Rightarrow> (string \<Rightarrow> string option) \<Rightarrow> string \<Rightarrow> string option" where
  "undo [] f = f"
| "undo (s # fr) f = undo fr (f(save_name s := save_old s))"

lemma undo_other: "n \<notin> save_name ` set fr \<Longrightarrow> undo fr f n = f n"
  by (induction fr arbitrary: f) auto

lemma undo_upd: "n \<in> save_name ` set fr \<Longrightarrow> undo fr (f(n := x)) = undo fr f"
proof (induction fr arbitrary: f)
  case (Cons s fr)
  show ?case
  proof (cases "n = save_name s")
    case True
    have "(f(n := x))(n := save_old s) = f(n := save_old s)" by (rule fun_upd_upd)
    then show ?thesis using True by (simp only: undo.simps)
  next
    case False
    then have "n \<in> save_name ` set fr" using Cons.prems by auto
    moreover have "(f(n := x))(save_name s := save_old s) = (f(save_name s := save_old s))(n := x)"
      using False by (auto simp: fun_eq_iff)
    ultimately show ?thesis using Cons.IH by (simp only: undo.simps)
  qed
qed simp

definition save_ok :: "local_save \<Rightarrow> bool" where
  "save_ok s \<longleftrightarrow> save_old s \<noteq> None \<longrightarrow> env_name (save_name s)"

lemma getenv_bad_name: "env_inv e \<Longrightarrow> \<not> env_name n \<Longrightarrow> petrush_getenv e n = None"
  by (auto simp: env_inv_def petrush_getenv_def map_of_eq_None_iff)

lemma restore_frame:
  assumes "list_all save_ok (frame_of d st)" and "env_inv e"
  shows "petrush_getenv (fst (local_restore_frame d e st)) = undo (frame_of d st) (petrush_getenv e) \<and>
    env_inv (fst (local_restore_frame d e st)) \<and>
    snd (local_restore_frame d e st) = drop (length (frame_of d st)) st"
  using assms
proof (induction d e st rule: local_restore_frame.induct)
  case (2 d e s st)
  show ?case
  proof (cases "save_depth s = d")
    case True
    let ?e = "case save_old s of Some v \<Rightarrow> or_same (petrush_setenv (save_name s) v e) e
         | None \<Rightarrow> or_same (petrush_unsetenv (save_name s) e) e"
    have ok: "save_ok s" "list_all save_ok (frame_of d st)"
      using 2(2) True by (auto simp: frame_of_def)
    have "env_inv ?e \<and> petrush_getenv ?e = (petrush_getenv e)(save_name s := save_old s)"
    proof (cases "env_name (save_name s)")
      case True
      obtain u w where "petrush_unsetenv (save_name s) e = Some u"
        "petrush_setenv (save_name s) (the (save_old s)) e = Some w"
        using True by (simp add: petrush_unsetenv_def petrush_setenv_def)
      then show ?thesis
        using env_table.put_inv [OF 2(3)] env_table.put_map [OF 2(3)] env_table.del_inv [OF 2(3)]
          env_table.del_map [OF 2(3)]
        by (cases "save_old s") (simp_all add: or_same_def)
    next
      case False
      then have "save_old s = None" using ok(1) by (auto simp: save_ok_def)
      then show ?thesis using False getenv_bad_name [OF 2(3) False] 2(3)
        by (auto simp: petrush_unsetenv_def or_same_def fun_eq_iff)
    qed
    then show ?thesis using 2(1) [OF _ ok(2)] True by (simp add: frame_of_def del: fun_upd_apply)
  next
    case False
    then show ?thesis using 2(3) by (simp add: frame_of_def)
  qed
qed (simp add: frame_of_def)

text \<open>What the commands of a function keep: undoing would give back the first environment.\<close>

definition frame_inv :: "nat \<Rightarrow> env \<Rightarrow> local_save list \<Rightarrow> env \<Rightarrow> local_save list \<Rightarrow> bool" where
  "frame_inv d e0 st0 e st \<longleftrightarrow> env_inv e \<and> list_all save_ok (frame_of d st) \<and>
     st = frame_of d st @ st0 \<and> undo (frame_of d st) (petrush_getenv e) = petrush_getenv e0"

lemma frame_inv_change:
  assumes "frame_inv d e0 st0 e st" and "n \<in> save_name ` set (frame_of d st)"
    and "env_inv e'" and "petrush_getenv e' = (petrush_getenv e)(n := x)"
  shows "frame_inv d e0 st0 e' st"
  using assms undo_upd [OF assms(2)] by (simp add: frame_inv_def)

lemma frame_inv_push:
  assumes "frame_inv d e0 st0 e st" and "local_push n d e st = Some st'"
  shows "frame_inv d e0 st0 e st' \<and> n \<in> save_name ` set (frame_of d st')"
proof -
  have st': "st' = \<lparr>save_depth = d, save_name = n, save_old = petrush_getenv e n\<rparr> # st"
    using assms(2) by (simp add: local_push_def split: if_splits)
  have "petrush_getenv e n \<noteq> None \<longrightarrow> env_name n"
    using assms(1) getenv_bad_name [of e n] by (cases "env_name n") (simp_all add: frame_inv_def)
  then show ?thesis using assms(1)
    by (simp add: st' frame_of_def frame_inv_def save_ok_def fun_upd_idem)
qed

lemma frame_inv_one:
  assumes "frame_inv d e0 st0 e st" and "n \<in> save_name ` set (frame_of d st)"
    and "local_one n val e = (ok, e')"
  shows "frame_inv d e0 st0 e' st"
proof -
  have inv: "env_inv e" using assms(1) by (simp add: frame_inv_def)
  show ?thesis
  proof (cases "e' = e")
    case False
    then have "(\<exists>v. petrush_setenv n v e = Some e') \<or> petrush_unsetenv n e = Some e'"
      using assms(3) by (auto simp: local_one_def or_same_def split: option.splits)
    then obtain x where "env_inv e'" "petrush_getenv e' = (petrush_getenv e)(n := x)"
      using env_table.put_inv [OF inv] env_table.put_map [OF inv] env_table.del_inv [OF inv]
        env_table.del_map [OF inv] by metis
    then show ?thesis by (rule frame_inv_change [OF assms(1,2)])
  qed (use assms(1) in simp)
qed

lemma frame_inv_loop:
  "frame_inv d e0 st0 e st \<Longrightarrow> local_loop d args ret e st = (rc, e', st') \<Longrightarrow> frame_inv d e0 st0 e' st'"
proof (induction d args ret e st rule: local_loop.induct)
  case (2 d arg args ret e st)
  obtain name val where split: "local_split arg = (name, val)" by force
  consider (skip) "local_loop d args 1 e st = (rc, e', st')" "arg = []"
    | (stop) "e' = e" "st' = st"
    | (bad) "local_loop d args 1 e st = (rc, e', st')" "arg \<noteq> []" "peek arg \<noteq> CHR ''-''"
        "val \<noteq> None \<and> (name = [] \<or> length name \<ge> 256)"
    | (push) st1 ok e1 where "arg \<noteq> []" "peek arg \<noteq> CHR ''-''"
        "\<not> (val \<noteq> None \<and> (name = [] \<or> length name \<ge> 256))" "local_push name d e st = Some st1"
        "local_one name val e = (ok, e1)"
        "local_loop d args (if ok then ret else 1) e1 st1 = (rc, e', st')"
    using "2.prems"(2) split by (auto split: if_splits option.splits prod.splits)
  then show ?case
  proof cases
    case skip
    then show ?thesis using "2.IH"(1) "2.prems"(1) by blast
  next
    case stop
    then show ?thesis using "2.prems"(1) by simp
  next
    case bad
    then show ?thesis using "2.IH"(2) [OF bad(2,3) split [symmetric] bad(4)] "2.prems"(1) by blast
  next
    case push
    have "frame_inv d e0 st0 e st1 \<and> name \<in> save_name ` set (frame_of d st1)"
      using frame_inv_push [OF "2.prems"(1) push(4)] .
    then have "frame_inv d e0 st0 e1 st1" using frame_inv_one push(5) by blast
    then show ?thesis
      using "2.IH"(3) [OF push(1,2) split [symmetric] push(3,4) push(5) [symmetric]] push(6)
      by blast
  qed
qed simp

lemma frame_run_inv:
  "frame_run d e0 st0 e st \<Longrightarrow> env_inv e0 \<Longrightarrow> frame_of d st0 = [] \<Longrightarrow> frame_inv d e0 st0 e st"
proof (induction rule: frame_run.induct)
  case frame_enter
  then show ?case by (simp add: frame_inv_def)
next
  case (frame_local e st args rc e' st')
  then show ?case using frame_inv_loop
    by (fastforce simp: builtin_local_def split: if_splits)
next
  case (frame_set e st n v e')
  then have "env_inv e" by (simp add: frame_inv_def)
  then show ?case
    using frame_inv_change frame_set env_table.put_inv env_table.put_map by metis
next
  case (frame_unset e st n e')
  then have "env_inv e" by (simp add: frame_inv_def)
  then show ?case
    using frame_inv_change frame_unset env_table.del_inv env_table.del_map by metis
qed

text \<open>
  C28. A function leaves the environment as it found it when it declares its variables with
  \<open>local\<close> before it changes them: however many declarations it makes, of whatever names,
  repeated or not, with or without values, refused or not, restoring its frame gives every
  variable the value, or the absence of one, that it had at the call, and the stack of saved
  values is back to that of the caller.
\<close>

theorem locals_restored:
  assumes "frame_run d e0 st0 e st" and "env_inv e0" and "\<forall>s\<in>set st0. save_depth s < d"
  shows "petrush_getenv (fst (local_restore_frame d e st)) = petrush_getenv e0 \<and>
    snd (local_restore_frame d e st) = st0"
proof -
  have "frame_of d st0 = []" using assms(3) by (cases st0) (auto simp: frame_of_def)
  then have inv: "frame_inv d e0 st0 e st" using frame_run_inv assms by blast
  then have "drop (length (frame_of d st)) st = st0"
    unfolding frame_inv_def by (metis append_eq_conv_conj)
  then show ?thesis using restore_frame inv by (auto simp: frame_inv_def)
qed

theorem locals_restored_witness:
  "\<exists>e st. builtin_local [''local'', ''x=1'', ''y''] 1 [(''x'', ''0'')] [] = (0, e, st) \<and>
     petrush_getenv e ''x'' = Some ''1'' \<and>
     petrush_getenv (fst (local_restore_frame 1 e st)) = [''x'' \<mapsto> ''0'']"
proof -
  obtain rc e st where run: "builtin_local [''local'', ''x=1'', ''y''] 1 [(''x'', ''0'')] [] = (rc, e, st)"
    by (cases "builtin_local [''local'', ''x=1'', ''y''] 1 [(''x'', ''0'')] []")
  have rc: "rc = 0 \<and> petrush_getenv e ''x'' = Some ''1''"
    using run by (auto simp: builtin_local_def local_split_def local_push_def local_one_def
        local_stack_max_def petrush_setenv_def petrush_unsetenv_def petrush_getenv_def env_name_def
        or_same_def)
  have "frame_run 1 [(''x'', ''0'')] [] e st"
    using frame_local [OF frame_enter run] .
  moreover have "env_inv [(''x'', ''0'')]" by (simp add: env_inv_def env_name_def)
  ultimately have "petrush_getenv (fst (local_restore_frame 1 e st)) = petrush_getenv [(''x'', ''0'')]"
    using locals_restored by simp
  then show ?thesis using run rc by (auto simp: petrush_getenv_def)
qed

end
