(* ===== verification/Jobs.thy ===== *)
theory Jobs
  imports Prelude
begin

text \<open>
  The table of background jobs (\<open>src/foundation/job.c\<close>): sixteen slots, the job in slot
  \<open>i\<close> has the number \<open>i + 1\<close>.  \<open>waitpid\<close> is a parameter.  The table is shown to keep its
  numbering, to lose no running job and to let a job only go from running to done.
\<close>

section \<open>Jobs\<close>

datatype job_state = Running | Done

text \<open>The order of the enumeration: a job only moves up.\<close>

instantiation job_state :: linorder
begin

definition less_eq_job_state :: "job_state \<Rightarrow> job_state \<Rightarrow> bool" where
  "less_eq_job_state a b \<longleftrightarrow> a = Running \<or> b = Done"

definition less_job_state :: "job_state \<Rightarrow> job_state \<Rightarrow> bool" where
  "less_job_state a b \<longleftrightarrow> a = Running \<and> b = Done"

instance
proof
  fix a b c :: job_state
  show "a < b \<longleftrightarrow> a \<le> b \<and> \<not> b \<le> a"
    by (cases a; cases b) (auto simp: less_eq_job_state_def less_job_state_def)
  show "a \<le> a" by (cases a) (auto simp: less_eq_job_state_def)
  show "a \<le> b \<Longrightarrow> b \<le> c \<Longrightarrow> a \<le> c" by (auto simp: less_eq_job_state_def)
  show "a \<le> b \<Longrightarrow> b \<le> a \<Longrightarrow> a = b" by (auto simp: less_eq_job_state_def)
  show "a \<le> b \<or> b \<le> a" by (cases a; cases b) (auto simp: less_eq_job_state_def)
qed

end

record job =
  job_id :: nat
  job_pid :: int
  job_state :: job_state
  job_status :: nat
  job_command :: string
  job_notified :: bool

definition job_max :: nat where "job_max = 16"

type_synonym jobs = "job option list"

definition job_reset :: jobs where
  "job_reset = replicate job_max None"

text \<open>The \<open>W*\<close> macros on a wait status, as Linux encodes it.\<close>

definition status_to_code :: "nat \<Rightarrow> nat" where
  "status_to_code s =
     (if s mod 128 = 0 then s div 256 mod 256
      else if s mod 128 \<noteq> 127 then 128 + s mod 128
      else if s mod 256 = 127 then 128 + s div 256 mod 256
      else 1)"

definition job_count :: "jobs \<Rightarrow> nat" where
  "job_count t = length (filter (\<lambda>j. j \<noteq> None) t)"

fun free_slot :: "nat \<Rightarrow> jobs \<Rightarrow> nat option" where
  "free_slot i [] = None"
| "free_slot i (None # t) = Some i"
| "free_slot i (Some j # t) = free_slot (Suc i) t"

text \<open>The number of the new job, \<open>None\<close> for -1.\<close>

definition job_add :: "int \<Rightarrow> string \<Rightarrow> jobs \<Rightarrow> (nat \<times> jobs) option" where
  "job_add pid command t =
     (if pid \<le> 0 then None
      else case free_slot 0 t of
        None \<Rightarrow> None
      | Some i \<Rightarrow> Some (i + 1, t[i := Some \<lparr>job_id = i + 1, job_pid = pid, job_state = Running,
          job_status = 0, job_command = (if command \<noteq> [] then command else ''?''),
          job_notified = False\<rparr>]))"

text \<open>What \<open>waitpid(pid, &st, WNOHANG)\<close> reports: the process itself with its status, an error,
  or nothing yet.\<close>

datatype wait_result = Exited nat | Wait_Error | Not_Yet

definition reap_job :: "(int \<Rightarrow> wait_result) \<Rightarrow> job \<Rightarrow> job" where
  "reap_job waitpid j =
     (if job_state j \<noteq> Running then j
      else case waitpid (job_pid j) of
        Exited st \<Rightarrow> j\<lparr>job_state := Done, job_status := status_to_code st\<rparr>
      | Wait_Error \<Rightarrow> j\<lparr>job_state := Done, job_status := 0\<rparr>
      | Not_Yet \<Rightarrow> j)"

definition job_reap :: "(int \<Rightarrow> wait_result) \<Rightarrow> jobs \<Rightarrow> jobs" where
  "job_reap waitpid t = map (map_option (reap_job waitpid)) t"

definition clear_done :: "job option \<Rightarrow> job option" where
  "clear_done s = (case s of None \<Rightarrow> None
     | Some j \<Rightarrow> if job_state j = Done then None else Some j)"

definition notify_text :: "job option \<Rightarrow> string" where
  "notify_text s = (case s of None \<Rightarrow> []
     | Some j \<Rightarrow> if job_state j \<noteq> Done \<or> job_notified j then []
         else ''['' @ show_nat (job_id j) @ '']+ Done  '' @ job_command j @ [NL])"

definition job_notify :: "jobs \<Rightarrow> string \<times> jobs" where
  "job_notify t = (concat (map notify_text t), map clear_done t)"

definition print_text :: "job option \<Rightarrow> string" where
  "print_text s = (case s of None \<Rightarrow> []
     | Some j \<Rightarrow> ''['' @ show_nat (job_id j) @ '']  '' @
         (if job_state j = Running then ''Running'' else ''Done'') @ ''  '' @ job_command j @ [NL])"

definition job_print :: "jobs \<Rightarrow> string" where
  "job_print t = concat (map print_text t)"

definition job_prune_done :: "jobs \<Rightarrow> jobs" where
  "job_prune_done t = map clear_done t"

definition job_probe :: "jobs \<Rightarrow> nat \<Rightarrow> job option" where
  "job_probe t i = (if i < 1 \<or> i > job_max then None else t ! (i - 1))"

section \<open>What the table keeps\<close>

definition job_inv :: "jobs \<Rightarrow> bool" where
  "job_inv t \<longleftrightarrow> length t = job_max \<and>
     (\<forall>i j. job_probe t i = Some j \<longrightarrow> job_id j = i \<and> 0 < job_pid j \<and> job_command j \<noteq> [] \<and>
        \<not> job_notified j \<and> (job_state j = Running \<longrightarrow> job_status j = 0))"

inductive job_step :: "jobs \<Rightarrow> jobs \<Rightarrow> bool" where
  step_add: "job_add pid c t = Some (n, t') \<Longrightarrow> job_step t t'"
| step_reap: "job_step t (job_reap w t)"
| step_notify: "job_notify t = (out, t') \<Longrightarrow> job_step t t'"
| step_prune: "job_step t (job_prune_done t)"

inductive_cases job_stepE: "job_step t t'"

lemma free_slot_Some: "free_slot k t = Some i \<Longrightarrow> k \<le> i \<and> i - k < length t \<and> t ! (i - k) = None"
proof (induction k t rule: free_slot.induct)
  case (3 k j t)
  then have "Suc k \<le> i \<and> i - Suc k < length t \<and> t ! (i - Suc k) = None" by simp
  moreover from this have "i - k = Suc (i - Suc k)" by arith
  ultimately show ?case by simp
qed auto

lemma free_slot_None: "free_slot k t = None \<longleftrightarrow> None \<notin> set t"
  by (induction k t rule: free_slot.induct) auto

lemma count_full: "None \<notin> set t \<longleftrightarrow> job_count t = length t"
proof (cases "None \<in> set t")
  case True
  then have "job_count t < length t" unfolding job_count_def by (intro length_filter_less) auto
  then show ?thesis using True by simp
next
  case False
  then have "filter (\<lambda>j. j \<noteq> None) t = t" by (metis (mono_tags) filter_True)
  then show ?thesis using False by (simp only: job_count_def) simp
qed

lemma job_add_probe:
  assumes "job_add pid c t = Some (n, t')" and "length t = job_max"
  shows "1 \<le> n" "n \<le> job_max" "job_probe t n = None" "0 < pid" "length t' = job_max"
    "job_probe t' = (job_probe t)(n \<mapsto> \<lparr>job_id = n, job_pid = pid, job_state = Running,
      job_status = 0, job_command = (if c \<noteq> [] then c else ''?''), job_notified = False\<rparr>)"
  using assms free_slot_Some [of 0 t "n - 1"]
  by (auto simp: job_add_def job_probe_def fun_eq_iff nth_list_update split: if_splits option.splits)

lemma job_reap_probe: "length t = job_max \<Longrightarrow> job_probe (job_reap w t) i = map_option (reap_job w) (job_probe t i)"
  by (auto simp: job_reap_def job_probe_def)

lemma clear_done_probe:
  "length t = job_max \<Longrightarrow> job_probe (map clear_done t) i = clear_done (job_probe t i)"
  by (auto simp: job_probe_def clear_done_def)

lemma not_done: "s \<noteq> Done \<longleftrightarrow> s = Running"
  by (cases s) auto

lemma not_running: "s \<noteq> Running \<longleftrightarrow> s = Done"
  by (cases s) auto

lemma clear_done_Some: "clear_done s = Some j \<longleftrightarrow> s = Some j \<and> job_state j = Running"
  by (cases s) (auto simp: clear_done_def not_done)

lemma reap_same:
  "job_id (reap_job w j) = job_id j" "job_pid (reap_job w j) = job_pid j"
  "job_command (reap_job w j) = job_command j" "job_notified (reap_job w j) = job_notified j"
  "job_state j \<le> job_state (reap_job w j)"
  "job_state (reap_job w j) = Running \<Longrightarrow> reap_job w j = j"
  by (cases "job_state j"; auto simp: reap_job_def less_eq_job_state_def
      split: wait_result.splits if_splits)+

lemma job_inv_step: "job_step t t' \<Longrightarrow> job_inv t \<Longrightarrow> job_inv t'"
proof (induction rule: job_step.induct)
  case (step_add pid c t n t')
  then have len: "length t = job_max" by (simp add: job_inv_def)
  show ?case
    using job_add_probe [OF step_add.hyps len] step_add.prems
    by (auto simp: job_inv_def)
next
  case (step_reap t w)
  then have "length t = job_max" by (simp add: job_inv_def)
  then have "length (job_reap w t) = job_max"
    "\<And>i. job_probe (job_reap w t) i = map_option (reap_job w) (job_probe t i)"
    using job_reap_probe by (auto simp: job_reap_def)
  then show ?case using step_reap.prems reap_same by (fastforce simp: job_inv_def)
next
  case (step_notify t out t')
  then show ?case
    by (auto simp: job_inv_def job_notify_def clear_done_probe clear_done_Some)
next
  case (step_prune t)
  then show ?case
    by (auto simp: job_inv_def job_prune_done_def clear_done_probe clear_done_Some)
qed

lemma job_probe_reset: "job_probe job_reset i = None"
  by (auto simp: job_probe_def job_reset_def)

lemma job_inv_reset: "job_inv job_reset"
  by (simp add: job_inv_def job_probe_reset) (simp add: job_reset_def)

lemma job_reach_inv: "job_step\<^sup>*\<^sup>* job_reset t \<Longrightarrow> job_inv t"
  by (induction rule: rtranclp_induct) (auto intro: job_inv_reset job_inv_step)

text \<open>
  C25. In every table that the shell can reach, a slot holds the job of its own number with a
  valid process and a command to show, a running job has no status yet, and a new job is refused
  exactly for a bad process number or when all sixteen slots are taken.
\<close>

theorem jobs_numbered:
  assumes "job_step\<^sup>*\<^sup>* job_reset t"
  shows "(\<forall>i j. job_probe t i = Some j \<longrightarrow> job_id j = i \<and> 0 < job_pid j \<and> job_command j \<noteq> [] \<and>
      (job_state j = Running \<longrightarrow> job_status j = 0)) \<and>
    (job_add pid c t = None \<longleftrightarrow> pid \<le> 0 \<or> job_count t = job_max)"
  using job_reach_inv [OF assms] free_slot_None [of 0 t] count_full [of t]
  by (auto simp: job_inv_def job_add_def split: option.splits)

theorem jobs_numbered_witness:
  "job_add 0 ''x'' job_reset = None \<and> job_add 7 ''sleep'' job_reset \<noteq> None"
  using jobs_numbered [of job_reset] by (auto simp: job_count_def job_reset_def job_max_def)

text \<open>
  C26. No operation loses a job or rewrites one: from a reachable table, a job that is in the
  table is afterwards still there under its number with the same process and command, in the
  same state or a later one, or it was done and has been reported or pruned.  A running job is
  never dropped, and its number is not given to another.
\<close>

theorem jobs_kept:
  assumes "job_step\<^sup>*\<^sup>* job_reset t" and "job_step t t'" and "job_probe t i = Some j"
  shows "(\<exists>j'. job_probe t' i = Some j' \<and> job_id j' = job_id j \<and> job_pid j' = job_pid j \<and>
      job_command j' = job_command j \<and> job_state j \<le> job_state j') \<or>
    job_state j = Done \<and> job_probe t' i = None"
proof -
  have len: "length t = job_max" using job_reach_inv [OF assms(1)] by (simp add: job_inv_def)
  from assms(2) show ?thesis
  proof (cases rule: job_step.cases)
    case (step_add pid c n)
    note 1 = step_add
    then have "n \<noteq> i" using job_add_probe(3) [OF 1 len] assms(3) by auto
    then show ?thesis using job_add_probe(6) [OF 1 len] assms(3) by simp
  next
    case (step_reap w)
    then show ?thesis using assms(3) reap_same by (auto simp: job_reap_probe len)
  next
    case (step_notify out)
    then show ?thesis using assms(3) clear_done_probe [OF len, of i]
      by (auto simp: job_notify_def clear_done_def)
  next
    case step_prune
    then show ?thesis using assms(3) clear_done_probe [OF len, of i]
      by (auto simp: job_prune_done_def clear_done_def)
  qed
qed

lemma free_reset: "free_slot 0 job_reset = Some 0"
  by (simp add: job_reset_def job_max_def numeral_eq_Suc)

theorem jobs_kept_witness:
  "\<exists>t. job_add 7 ''make'' job_reset = Some (1, t) \<and>
     (\<exists>j. job_probe (job_reap (\<lambda>p. Exited 256) t) 1 = Some j \<and> job_pid j = 7)"
proof -
  obtain t where t: "job_add 7 ''make'' job_reset = Some (1, t)"
    using free_reset by (auto simp: job_add_def)
  have r: "job_step\<^sup>*\<^sup>* job_reset t" using step_add [OF t] by blast
  have p: "\<exists>j. job_probe t 1 = Some j \<and> job_pid j = 7 \<and> job_state j = Running"
    using job_add_probe(6) [OF t] by (simp add: job_reset_def)
  then obtain j where j: "job_probe t 1 = Some j" "job_pid j = 7" "job_state j = Running" by blast
  show ?thesis
    using t j jobs_kept [OF r step_reap j(1), of "\<lambda>p. Exited 256"] by fastforce
qed

end
