(* ===== verification/History.thy ===== *)
theory History
  imports ShellVars
begin

text \<open>
  History expansion (\<open>src/mid/hist_expand.c\<close>: \<open>!!\<close>, \<open>!n\<close>, \<open>!$\<close>, \<open>!^\<close>), over the port
  that the front end binds (\<open>src/mid/ui_port.c\<close>), and the directory stack
  (\<open>src/mid/dirstack.c\<close>).
\<close>

section \<open>The port\<close>

record ui_port =
  port_history_len :: int
  port_history_get :: "int \<Rightarrow> string option"

definition noop_port :: ui_port where
  "noop_port = \<lparr>port_history_len = 0, port_history_get = (\<lambda>i. None)\<rparr>"

text \<open>What is bound: each callback, or its default when it is missing.\<close>

definition ui_port_bind :: "(int option \<times> (int \<Rightarrow> string option) option) option \<Rightarrow> ui_port" where
  "ui_port_bind port =
     (case port of
        None \<Rightarrow> noop_port
      | Some (len, get) \<Rightarrow>
          \<lparr>port_history_len = (case len of None \<Rightarrow> port_history_len noop_port | Some n \<Rightarrow> n),
           port_history_get = (case get of None \<Rightarrow> port_history_get noop_port | Some g \<Rightarrow> g)\<rparr>)"

section \<open>Expansion\<close>

fun last_event_from :: "(int \<Rightarrow> string option) \<Rightarrow> nat \<Rightarrow> string option" where
  "last_event_from get 0 = None"
| "last_event_from get (Suc i) =
     (case get (int i) of
        Some h \<Rightarrow> if h \<noteq> [] \<and> h \<noteq> ''!!'' then Some h else last_event_from get i
      | None \<Rightarrow> last_event_from get i)"

definition hist_last_event :: "ui_port \<Rightarrow> string option" where
  "hist_last_event port =
     (if port_history_len port \<le> 0 then None
      else last_event_from (port_history_get port) (nat (port_history_len port)))"

definition hist_words_max :: nat where "hist_words_max = 64"

primrec hist_words :: "nat \<Rightarrow> string \<Rightarrow> string list" where
  "hist_words 0 p = []"
| "hist_words (Suc n) p =
     (let q = skip_space p
      in if q = [] then []
         else takeWhile (\<lambda>c. \<not> isspace c) q # hist_words n (dropWhile (\<lambda>c. \<not> isspace c) q))"

definition hist_word_designator :: "string \<Rightarrow> char \<Rightarrow> string option" where
  "hist_word_designator event which =
     (let ws = hist_words hist_words_max event
      in if ws = [] then None
         else if which = CHR ''$'' then Some (ws ! (length ws - 1))
         else if which = CHR ''^'' then if length ws < 2 then None else Some (ws ! 1)
         else None)"

text \<open>\<open>(int)num - 1\<close> on a \<open>long\<close>: the cast keeps 32 bits, and the subtraction overflows for
  the least \<open>int\<close> (\<open>None\<close>).\<close>

definition to_int :: "int \<Rightarrow> int" where
  "to_int v = sint (word_of_int v :: 32 word)"

definition hist_index :: "int \<Rightarrow> int option" where
  "hist_index num = (if to_int num = - (2 ^ 31) then None else Some (to_int num - 1))"

datatype hist_result = Hist_Undef | Hist "string option"

definition hist_expand_line :: "ui_port \<Rightarrow> string \<Rightarrow> hist_result" where
  "hist_expand_line port line0 =
     (let line = skip_space line0
      in if line = ''!!'' then Hist (hist_last_event port)
         else if line = ''!$'' then
           Hist (case hist_last_event port of None \<Rightarrow> None
             | Some h \<Rightarrow> hist_word_designator h (CHR ''$''))
         else if line = ''!^'' then
           Hist (case hist_last_event port of None \<Rightarrow> None
             | Some h \<Rightarrow> hist_word_designator h (CHR ''^''))
         else if peek line = CHR ''!'' \<and> isdigit (at line 1) then
           (case strtol10 (tl line) of (num, erange, rest) \<Rightarrow>
              if rest = [] \<and> num \<ge> 1 then
                (case hist_index num of
                   None \<Rightarrow> Hist_Undef
                 | Some i \<Rightarrow> Hist (port_history_get port i))
              else Hist None)
         else Hist None)"

section \<open>Numbers name events\<close>

text \<open>A port over a list of events, oldest first, as the front end binds it.\<close>

definition list_port :: "string list \<Rightarrow> ui_port" where
  "list_port hs = \<lparr>port_history_len = int (length hs),
     port_history_get = (\<lambda>i. if 0 \<le> i \<and> i < int (length hs) then Some (hs ! nat i) else None)\<rparr>"

lemma decimal_snoc: "decimal (ds @ [c]) = 10 * decimal ds + digit_val c"
  by (simp add: decimal_def)

lemma decimal_show_nat: "decimal (show_nat n) = n"
proof (induction n rule: show_nat.induct)
  case (1 n)
  show ?case
  proof (cases "n < 10")
    case True
    then show ?thesis
      by (subst show_nat.simps) (simp add: decimal_def digit_val_def code_digit)
  next
    case False
    then show ?thesis using 1
      by (subst show_nat.simps) (simp add: decimal_snoc digit_val_def code_digit)
  qed
qed

lemma strtol10_digits:
  assumes "ds \<noteq> []" and "list_all isdigit ds"
  shows "strtol10 ds = (if int (decimal ds) > int64_max then (int64_max, True, [])
    else (int (decimal ds), False, []))"
proof -
  have d: "isdigit (peek ds)" using assms by (cases ds) auto
  then have "\<not> isspace (peek ds)" "peek ds \<noteq> CHR ''+''" "peek ds \<noteq> CHR ''-''"
    by (auto simp: isdigit_def isspace_def code_def)
  moreover from this have "skip_space ds = ds" by (intro skip_space_id) auto
  moreover have "takeWhile isdigit ds = ds" "dropWhile isdigit ds = []"
    using assms(2) by (auto simp: list_all_iff takeWhile_eq_all_conv)
  ultimately show ?thesis using assms(1)
    by (simp add: strtol10_def Let_def int64_min_def del: takeWhile_eq_all_conv dropWhile_eq_Nil_conv)
qed

lemma bang_number:
  assumes "list_all isspace w" and "1 \<le> n" and "int n \<le> int64_max"
  shows "hist_expand_line port (w @ CHR ''!'' # show_nat n) =
    (case hist_index (int n) of None \<Rightarrow> Hist_Undef | Some i \<Rightarrow> Hist (port_history_get port i))"
proof -
  have skip: "skip_space (w @ CHR ''!'' # show_nat n) = CHR ''!'' # show_nat n"
    using assms(1) by (induction w) (auto simp: isspace_def code_def)
  obtain d ds where ds: "show_nat n = d # ds" "isdigit d"
    using show_nat_nonempty [of n] show_nat_digits [of n] by (cases "show_nat n") auto
  have num: "strtol10 (show_nat n) = (int n, False, [])"
    using strtol10_digits [OF show_nat_nonempty, of n] show_nat_digits [of n] assms(3)
    by (simp add: list_all_iff decimal_show_nat)
  have "d \<noteq> CHR ''!''" "d \<noteq> CHR ''$''" "d \<noteq> CHR ''^''"
    using ds(2) by (auto simp: isdigit_def code_def)
  then show ?thesis using num ds assms(2)
    by (simp add: hist_expand_line_def skip [unfolded ds(1)])
qed

lemma to_int_small: "0 \<le> v \<Longrightarrow> v < 2 ^ 31 \<Longrightarrow> to_int v = v"
  unfolding to_int_def by (rule sint_small)

text \<open>
  \<open>!n\<close> is replaced by event \<open>n\<close> of the history, counted from 1 and from the oldest, for
  every number of an event, whatever blanks come before it; a number that is too large gives
  nothing.  This holds for numbers below \<open>2^31\<close>: from there on the cast to \<open>int\<close> makes
  a larger number name an event again.
\<close>

theorem hist_number_event:
  assumes "list_all isspace w" and "1 \<le> n" and "n < 2 ^ 31"
  shows "hist_expand_line (list_port hs) (w @ CHR ''!'' # show_nat n) =
    Hist (if n \<le> length hs then Some (hs ! (n - 1)) else None)"
proof -
  have "int n \<le> int64_max" using assms(3) by (simp add: int64_max_def)
  moreover have "hist_index (int n) = Some (int n - 1)"
    using assms(2,3) to_int_small [of "int n"] by (simp add: hist_index_def)
  moreover have "nat (int n - 1) = n - 1" by simp
  ultimately show ?thesis
    using bang_number [OF assms(1,2)] assms(2) by (auto simp: list_port_def)
qed

theorem hist_number_event_witness:
  "hist_expand_line (list_port [''ls'', ''pwd'']) '' !2'' = Hist (Some ''pwd'')"
proof -
  have "show_nat 2 = ''2''" by code_simp
  then show ?thesis
    using hist_number_event [of "'' ''" 2 "[''ls'', ''pwd'']"] by (simp add: isspace_def code_def)
qed

text \<open>A number that no event has is taken for another one.\<close>

theorem hist_number_wraps:
  "hist_expand_line (list_port [''rm x'']) (''!'' @ show_nat 4294967297) = Hist (Some ''rm x'')"
proof -
  have "to_int 4294967297 = 1" by (simp add: to_int_def)
  then have "hist_index 4294967297 = Some 0" by (simp add: hist_index_def)
  then show ?thesis
    using bang_number [of "[]" 4294967297 "list_port [''rm x'']"]
    by (simp add: int64_max_def list_port_def)
qed

section \<open>The directory stack\<close>

text \<open>
  The system is a parameter: \<open>getcwd\<close> and \<open>chdir\<close> on its states.  The top of the stack is the
  head of the list.
\<close>

definition dirstack_max :: nat where "dirstack_max = 32"

definition dirstack_pushd ::
  "('w \<Rightarrow> string option) \<Rightarrow> (string \<Rightarrow> 'w \<Rightarrow> 'w option) \<Rightarrow> string \<Rightarrow> 'w \<times> string list \<Rightarrow>
    int \<times> 'w \<times> string list" where
  "dirstack_pushd getcwd chdir path s =
     (case s of (w, st) \<Rightarrow>
        if path = [] \<or> length st \<ge> dirstack_max then (- 1, w, st)
        else case getcwd w of
          None \<Rightarrow> (- 1, w, st)
        | Some cwd \<Rightarrow> (case chdir path w of
            None \<Rightarrow> (- 1, w, st)
          | Some w' \<Rightarrow> (0, w', cwd # st)))"

definition dirstack_popd ::
  "(string \<Rightarrow> 'w \<Rightarrow> 'w option) \<Rightarrow> 'w \<times> string list \<Rightarrow> int \<times> 'w \<times> string list" where
  "dirstack_popd chdir s =
     (case s of (w, st) \<Rightarrow> (case st of
        [] \<Rightarrow> (- 1, w, [])
      | d # st' \<Rightarrow> (case chdir d w of
          None \<Rightarrow> (- 1, w, st')
        | Some w' \<Rightarrow> (0, w', st'))))"

definition dirstack_print :: "('w \<Rightarrow> string option) \<Rightarrow> 'w \<times> string list \<Rightarrow> string" where
  "dirstack_print getcwd s =
     (case s of (w, st) \<Rightarrow>
        (case getcwd w of None \<Rightarrow> [] | Some cwd \<Rightarrow> cwd @ [NL]) @ concat (map (\<lambda>d. d @ [NL]) st))"

text \<open>The commands of a session that nests: every \<open>pushd\<close> has its \<open>popd\<close>.\<close>

inductive dir_session ::
  "('w \<Rightarrow> string option) \<Rightarrow> (string \<Rightarrow> 'w \<Rightarrow> 'w option) \<Rightarrow> 'w \<times> string list \<Rightarrow> 'w \<times> string list \<Rightarrow> bool"
  for getcwd chdir where
  session_none: "dir_session getcwd chdir s s"
| session_nest: "dirstack_pushd getcwd chdir p s = (0, s1) \<Longrightarrow> dir_session getcwd chdir s1 s2 \<Longrightarrow>
    dirstack_popd chdir s2 = (0, s3) \<Longrightarrow> dir_session getcwd chdir s3 s4 \<Longrightarrow>
    dir_session getcwd chdir s s4"

lemma dir_session_stack:
  assumes "dir_session getcwd chdir s s'"
    and "\<And>w d w'. chdir d w = Some w' \<Longrightarrow> (\<exists>v. getcwd v = Some d) \<Longrightarrow> getcwd w' = Some d"
  shows "snd s' = snd s \<and> getcwd (fst s') = getcwd (fst s)"
  using assms(1)
proof (induction rule: dir_session.induct)
  case (session_nest p s s1 s2 s3 s4)
  obtain w st where s: "s = (w, st)" by (cases s)
  obtain cwd w1 where push: "getcwd w = Some cwd" "s1 = (w1, cwd # st)"
    using session_nest.hyps(1) s by (auto simp: dirstack_pushd_def split: if_splits option.splits)
  obtain w2 where s2: "s2 = (w2, cwd # st)" using session_nest.IH(1) push(2) by (cases s2) auto
  obtain w3 where "s3 = (w3, st)" "chdir cwd w2 = Some w3"
    using session_nest.hyps(3) s2 by (auto simp: dirstack_popd_def split: option.splits)
  then show ?case using assms(2) [of cwd w2 w3] push(1) session_nest.IH(2) s by auto
qed simp

text \<open>
  Pushes and pops that match return to where they started: after any session in which every
  successful \<open>pushd\<close> is matched by a successful \<open>popd\<close>, nested as deep as the stack allows, the
  directory and the stack are those of the start, provided that changing to a directory by
  the absolute name that \<open>getcwd\<close> gave leads there.
\<close>

theorem dir_session_returns:
  assumes "dir_session getcwd chdir s s'"
    and "\<And>w d w'. chdir d w = Some w' \<Longrightarrow> (\<exists>v. getcwd v = Some d) \<Longrightarrow> getcwd w' = Some d"
  shows "snd s' = snd s \<and> getcwd (fst s') = getcwd (fst s)"
  using assms by (rule dir_session_stack)

text \<open>A system that counts its changes of directory.\<close>

theorem dir_session_returns_witness:
  "dirstack_pushd (\<lambda>w. Some (fst w)) (\<lambda>d w. Some (d, snd w + 1)) ''/b'' ((''/a'', 0 :: nat), []) =
     (0, (''/b'', 1), [''/a'']) \<and>
   dirstack_popd (\<lambda>d w. Some (d, snd w + 1)) ((''/b'', 1 :: nat), [''/a'']) = (0, (''/a'', 2), []) \<and>
   Some (fst (''/a'', 2 :: nat)) = Some (fst (''/a'', 0 :: nat))"
proof -
  let ?cd = "\<lambda>d w. Some (d, snd w + 1) :: (string \<times> nat) option"
  let ?s = "((''/a'', 0 :: nat), [] :: string list)"
  have push: "dirstack_pushd (\<lambda>w. Some (fst w)) ?cd ''/b'' ?s = (0, (''/b'', 1), [''/a''])"
    by (simp add: dirstack_pushd_def dirstack_max_def)
  have pop: "dirstack_popd ?cd ((''/b'', 1), [''/a'']) = (0, (''/a'', 2), [])"
    by (simp add: dirstack_popd_def)
  have run: "dir_session (\<lambda>w. Some (fst w)) ?cd ?s ((''/a'', 2), [])"
    using session_nest [OF push session_none pop session_none] .
  have "Some (fst (fst ((''/a'', 2 :: nat), [] :: string list))) = Some (fst (fst ?s))"
    by (rule conjunct2 [OF dir_session_returns [OF run]]) simp
  with push pop show ?thesis by (intro conjI) (simp_all only: fst_conv)
qed

end
