(* ===== verification/Shell.thy ===== *)
theory Shell
  imports Alias ShellVars Jobs
begin

text \<open>
  The state of the running shell, the results of its computations, and the system it runs on.
  Computations thread the state; a computation may also end the process (\<open>Exits\<close>), reach an
  operation that C leaves undefined (\<open>Undefined\<close>), or, for programs that may loop, run out of
  the steps it is given (\<open>No_Fuel\<close>).
\<close>

section \<open>The state\<close>

text \<open>The globals of the components, what has been written to standard output, and the rest of
  the system, which only the operations of \<open>sys\<close> below look into.  Diagnostics on standard
  error are not part of the state.\<close>

record 'w shell =
  sh_env :: env
  sh_pos :: positional
  sh_opts :: shellopts
  sh_status :: int
  sh_arith_error :: bool
  sh_nounset :: bool
  sh_fns :: fn_entries
  sh_locals :: "local_save list"
  sh_depth :: nat
  sh_returning :: bool
  sh_return_status :: int
  sh_abort :: bool
  sh_no_errexit :: nat
  sh_cmdsubst_depth :: nat
  sh_source_depth :: nat
  sh_traps :: "string option list"
  sh_pending :: "bool list"
  sh_in_exit :: bool
  sh_subshell :: bool
  sh_in_poll :: bool
  sh_aliases :: aliases
  sh_dirs :: "string list"
  sh_jobs :: jobs
  sh_out :: string
  sh_world :: 'w

datatype ('w, 'a) run =
    No_Fuel
  | Undefined
  | Exits int "'w shell"
  | Ret 'a "'w shell"

fun rbind :: "('w, 'a) run \<Rightarrow> ('a \<Rightarrow> 'w shell \<Rightarrow> ('w, 'b) run) \<Rightarrow> ('w, 'b) run" where
  "rbind (Ret a s) k = k a s"
| "rbind No_Fuel k = No_Fuel"
| "rbind Undefined k = Undefined"
| "rbind (Exits c s) k = Exits c s"

lemma rbind_cong [fundef_cong]:
  "r = r' \<Longrightarrow> (\<And>a s. r' = Ret a s \<Longrightarrow> k a s = k' a s) \<Longrightarrow> rbind r k = rbind r' k'"
  by (cases r') auto

lemma rbind_Ret: "rbind r k = Ret b t \<longleftrightarrow> (\<exists>a s. r = Ret a s \<and> k a s = Ret b t)"
  by (cases r) auto

lemma rbind_assoc: "rbind (rbind r f) g = rbind r (\<lambda>a s. rbind (f a s) g)"
  by (cases r) auto

text \<open>The state at the start: the globals as C initialises them, with 65 slots of traps.\<close>

definition initial_shell :: "env \<Rightarrow> 'w \<Rightarrow> 'w shell" where
  "initial_shell e w = \<lparr>sh_env = e, sh_pos = positional_clear,
     sh_opts = \<lparr>opt_e = False, opt_u = False, opt_x = False\<rparr>, sh_status = 0,
     sh_arith_error = False, sh_nounset = False, sh_fns = replicate fn_max None, sh_locals = [],
     sh_depth = 0, sh_returning = False, sh_return_status = 0, sh_abort = False, sh_no_errexit = 0,
     sh_cmdsubst_depth = 0, sh_source_depth = 0, sh_traps = replicate 65 None,
     sh_pending = replicate 65 False, sh_in_exit = False, sh_subshell = False, sh_in_poll = False,
     sh_aliases = alias_clear_all, sh_dirs = [], sh_jobs = job_reset, sh_out = [], sh_world = w\<rparr>"

section \<open>The system\<close>

text \<open>
  What the shell asks of the system it runs on.  The shell sees only the results; what a
  process does to the rest of the system is in its next state.
  A redirection is opened before a process runs or a builtin is called; \<open>No_Body\<close> is the
  refusal of a here-document without a body.
\<close>

datatype redir_op =
    Here_In string
  | Open_In string
  | Open_Out bool string
  | Open_Err bool string
  | Err_To_Out
  | No_Body

record file_stat =
  st_regular :: bool
  st_directory :: bool
  st_uid :: nat
  st_mode :: nat

text \<open>A process of a pipeline: what the child does after its redirections.\<close>

datatype child_action = Run_Builtin "string list" | Exec string "string list" | Not_Found nat

record 'w sys =
  sys_readdir :: "'w \<Rightarrow> string \<Rightarrow> string list option"
  sys_getcwd :: "'w \<Rightarrow> string option"
  sys_chdir :: "string \<Rightarrow> 'w \<Rightarrow> 'w option"
  sys_executable :: "'w \<Rightarrow> string \<Rightarrow> bool"
  sys_exists :: "'w \<Rightarrow> string \<Rightarrow> bool"
  sys_stat :: "'w \<Rightarrow> string \<Rightarrow> file_stat option"
  sys_uid :: nat
  sys_read_file :: "'w \<Rightarrow> string \<Rightarrow> string option"
  sys_open :: "redir_op \<Rightarrow> 'w \<Rightarrow> bool \<times> 'w"
  sys_write :: "string \<Rightarrow> string \<Rightarrow> 'w \<Rightarrow> 'w"
  sys_exec :: "string \<Rightarrow> string list \<Rightarrow> env \<Rightarrow> redir_op list \<Rightarrow> 'w \<Rightarrow> (nat \<times> string \<times> 'w) option"
  sys_pipeline :: "'w shell \<Rightarrow> (redir_op list \<times> child_action) list \<Rightarrow> (nat \<times> string \<times> 'w) option"
  sys_spawn :: "'w shell \<Rightarrow> cmd list \<Rightarrow> (int \<times> 'w) option"
  sys_wait :: "'w \<Rightarrow> int \<Rightarrow> wait_result"
  sys_signals :: "'w \<Rightarrow> nat list \<times> 'w"
  sys_builtin :: "cmd \<Rightarrow> 'w shell \<Rightarrow> int \<times> string \<times> env \<times> 'w"

end
