(* ===== verification/Expand.thy ===== *)
theory Expand
  imports Spans Lexer Shell Globbing
begin

text \<open>
  The expansion of words (\<open>src/mid/expand.c\<close>): parameters, \<open>${...}\<close>, arithmetic, command
  substitution through a hook, tilde, here-document bodies, and the splicing of \<open>$@\<close> and of
  pathname matches into the arguments of a command.
\<close>

section \<open>The hook\<close>

text \<open>The hook of command substitution: the text between the parentheses to what the command
  printed, or \<open>None\<close> for a failure.  Before a list is dispatched there is no hook.\<close>

type_synonym 'w hook = "(string \<Rightarrow> 'w shell \<Rightarrow> ('w, string option) run) option"

section \<open>Parameters\<close>

definition nounset_fail :: "'w shell \<Rightarrow> 'w shell" where
  "nounset_fail s = s\<lparr>sh_nounset := True\<rparr>"

text \<open>The value of a variable, empty when it is not set, which is an error under \<open>set -u\<close>.\<close>

definition var_value :: "string \<Rightarrow> 'w shell \<Rightarrow> string \<times> 'w shell" where
  "var_value name s =
     (case petrush_getenv (sh_env s) (take 255 name) of
        Some v \<Rightarrow> (v, s)
      | None \<Rightarrow> ([], if opt_u (sh_opts s) then nounset_fail s else s))"

definition positional_text :: "nat \<Rightarrow> positional \<Rightarrow> string option" where
  "positional_text i p =
     (case positional_get p (word_of_nat i) of Val v \<Rightarrow> v | Out_Of_Bounds \<Rightarrow> None)"

definition digit_value :: "nat \<Rightarrow> 'w shell \<Rightarrow> string \<times> 'w shell" where
  "digit_value i s =
     (case positional_text i (sh_pos s) of
        Some v \<Rightarrow> (v, s)
      | None \<Rightarrow> ([], if opt_u (sh_opts s) \<and> i \<ge> 1 then nounset_fail s else s))"

definition ifs_join_char :: "env \<Rightarrow> char" where
  "ifs_join_char e = (case petrush_getenv e ''IFS'' of Some (c # _) \<Rightarrow> c | _ \<Rightarrow> CHR '' '')"

fun join_with :: "char \<Rightarrow> string list \<Rightarrow> string" where
  "join_with c [] = []"
| "join_with c [v] = v"
| "join_with c (v # vs) = v @ c # join_with c vs"

definition positional_join :: "'w shell \<Rightarrow> string" where
  "positional_join s = join_with (ifs_join_char (sh_env s)) (pos_args (sh_pos s))"

section \<open>Braces\<close>

text \<open>The forms \<open>${#VAR}\<close>, \<open>${VAR}\<close>, \<open>${VAR:-word}\<close> and \<open>${VAR:+word}\<close>.\<close>

datatype brace = Brace_Len string | Brace_Var string | Brace_Op char string string

text \<open>From the opening brace on: the form and the text after the closing brace; \<open>None\<close> when the
  dollar is literal.\<close>

definition parse_brace :: "string \<Rightarrow> (brace \<times> string) option" where
  "parse_brace p =
     (let body = tl p;
          inner = takeWhile (\<lambda>c. c \<noteq> CHR ''}'') body;
          closed = dropWhile (\<lambda>c. c \<noteq> CHR ''}'') body
      in if closed = [] then None
         else let after = tl closed in
           if peek inner = CHR ''#'' then
             let name = takeWhile is_name_char (tl inner) in
             if name = [] \<or> dropWhile is_name_char (tl inner) \<noteq> [] then None
             else Some (Brace_Len name, after)
           else
             let name = takeWhile is_name_char inner; rest = dropWhile is_name_char inner in
             if name = [] then None
             else if rest = [] then Some (Brace_Var name, after)
             else if peek rest = CHR '':'' \<and> (at rest 1 = CHR ''-'' \<or> at rest 1 = CHR ''+'')
               then Some (Brace_Op (at rest 1) name (drop 2 rest), after)
             else None)"

fun brace_size :: "brace \<Rightarrow> nat" where
  "brace_size (Brace_Op c n w) = length w"
| "brace_size b = 0"

lemma parse_brace_parts:
  assumes "parse_brace p = Some (b, rest)"
  shows "\<exists>inner. tl p = inner @ CHR ''}'' # rest \<and> brace_size b \<le> length inner"
proof -
  define inner where "inner = takeWhile (\<lambda>c. c \<noteq> CHR ''}'') (tl p)"
  define closed where "closed = dropWhile (\<lambda>c. c \<noteq> CHR ''}'') (tl p)"
  have split: "tl p = inner @ closed" by (simp add: inner_def closed_def)
  have "closed \<noteq> []"
    using assms unfolding parse_brace_def Let_def closed_def [symmetric] by (auto simp del: dropWhile_eq_Nil_conv)
  moreover have "rest = tl closed" "brace_size b \<le> length (dropWhile is_name_char inner)"
    using assms
    by (auto simp: parse_brace_def Let_def inner_def [symmetric] closed_def [symmetric] split: if_splits)
  moreover from \<open>closed \<noteq> []\<close> have "hd closed = CHR ''}''"
    using hd_dropWhile [of "\<lambda>c. c \<noteq> CHR ''}''" "tl p"] unfolding closed_def
    by (auto simp del: hd_dropWhile)
  ultimately have "closed = CHR ''}'' # rest" by (cases closed) auto
  then show ?thesis
    using split \<open>brace_size b \<le> _\<close> length_dropWhile_le [of is_name_char inner] by auto
qed

lemma parse_brace_size:
  assumes "parse_brace p = Some (b, rest)"
  shows "brace_size b < length p" and "length rest < length p"
proof -
  from parse_brace_parts [OF assms] obtain inner
    where "tl p = inner @ CHR ''}'' # rest" "brace_size b \<le> length inner" by blast
  moreover then have "length (tl p) = length inner + 1 + length rest" by simp
  then have "length inner + 1 + length rest \<le> length p" by (simp add: length_tl)
  ultimately show "brace_size b < length p" "length rest < length p" by auto
qed

section \<open>Words\<close>

definition strip_newlines :: "string \<Rightarrow> string" where
  "strip_newlines s = rev (dropWhile (\<lambda>c. c = NL) (rev s))"

definition emit :: "string \<Rightarrow> ('w, string) run \<Rightarrow> ('w, string) run" where
  "emit x r = rbind r (\<lambda>y s. Ret (x @ y) s)"

lemma emit_cong [fundef_cong]: "x = x' \<Longrightarrow> r = r' \<Longrightarrow> emit x r = emit x' r'"
  by simp

text \<open>\<open>$((...))\<close>: a division by zero sets a flag, any error gives 0.\<close>

definition arith_value :: "string \<Rightarrow> 'w shell \<Rightarrow> ('w, string) run" where
  "arith_value inner s =
     (case eval_arith \<lparr>arith_getenv = petrush_getenv (sh_env s),
          arith_positional = (\<lambda>i. positional_text i (sh_pos s))\<rparr> inner of
        AUndef \<Rightarrow> Undefined
      | AErr n \<Rightarrow> Ret ''0'' (if n = 1 then s\<lparr>sh_arith_error := True\<rparr> else s)
      | AOk v rest \<Rightarrow> Ret (show_int v) s)"

definition tilde_word :: "string \<Rightarrow> bool" where
  "tilde_word w \<longleftrightarrow> peek w = CHR ''~'' \<and> (tl w = [] \<or> at w 1 = SLASH)"

function expand_params :: "'w hook \<Rightarrow> bool \<Rightarrow> string \<Rightarrow> 'w shell \<Rightarrow> ('w, string) run"
and expand_brace :: "'w hook \<Rightarrow> brace \<Rightarrow> 'w shell \<Rightarrow> ('w, string) run"
and expand_word :: "'w hook \<Rightarrow> string \<Rightarrow> 'w shell \<Rightarrow> ('w, string) run" where
  "expand_params hook here p s =
     (case p of [] \<Rightarrow> Ret [] s
      | c # r \<Rightarrow>
        if here \<and> c = BSL then
          (case r of [] \<Rightarrow> Ret [BSL] s
           | d # r' \<Rightarrow>
               if d \<in> {CHR ''$'', CHR 0x60, BSL} then emit [d] (expand_params hook here r' s)
               else if d = NL then expand_params hook here r' s
               else emit [BSL, d] (expand_params hook here r' s))
        else if c \<noteq> CHR ''$'' then emit [c] (expand_params hook here r s)
        else (case r of [] \<Rightarrow> Ret [c] s
        | d # r' \<Rightarrow>
          if d = CHR ''{'' then
            (case parse_brace r of
               None \<Rightarrow> emit [c] (expand_params hook here r s)
             | Some (b, rest) \<Rightarrow> rbind (expand_brace hook b s) (\<lambda>x s.
                 emit x (expand_params hook here rest s)))
          else if d = CHR ''#'' then
            emit (show_nat (positional_count (sh_pos s))) (expand_params hook here r' s)
          else if d = CHR ''?'' then emit (show_int (sh_status s)) (expand_params hook here r' s)
          else if d = CHR ''-'' then
            emit (shellopt_flags (sh_opts s)) (expand_params hook here r' s)
          else if d = CHR ''@'' \<or> d = CHR ''*'' then
            emit (positional_join s) (expand_params hook here r' s)
          else if isdigit d then
            (case digit_value (digit_val d) s of (v, s) \<Rightarrow>
               emit v (expand_params hook here r' s))
          else if is_name_char d then
            (case var_value (takeWhile is_name_char r) s of (v, s) \<Rightarrow>
               emit v (expand_params hook here (dropWhile is_name_char r) s))
          else if d = CHR ''('' \<and> arith_span p > 0 then
            rbind (arith_value (take (arith_span p - 5) (drop 3 p)) s) (\<lambda>x s.
              emit x (expand_params hook here (drop (arith_span p) p) s))
          else if d = CHR ''('' \<and> cmdsubst_span p > 0 then
            (case hook of
               None \<Rightarrow> emit [c] (expand_params hook here r s)
             | Some h \<Rightarrow> rbind (h (take (cmdsubst_span p - 3) (drop 2 p)) s) (\<lambda>x s.
                 emit (case x of None \<Rightarrow> [] | Some captured \<Rightarrow> strip_newlines captured)
                   (expand_params hook here (drop (cmdsubst_span p) p) s)))
          else emit [c] (expand_params hook here r s)))"
| "expand_brace hook b s =
     (case b of
        Brace_Len name \<Rightarrow> (case var_value name s of (v, s) \<Rightarrow> Ret (show_nat (length v)) s)
      | Brace_Var name \<Rightarrow> (case var_value name s of (v, s) \<Rightarrow> Ret v s)
      | Brace_Op op name word \<Rightarrow>
          (case petrush_getenv (sh_env s) (take 255 name) of
             Some (v # vs) \<Rightarrow>
               if op = CHR ''-'' then Ret (v # vs) s else expand_word hook word s
           | _ \<Rightarrow> if op = CHR ''-'' then expand_word hook word s else Ret [] s))"
| "expand_word hook w s =
     (if tilde_word w then
        Ret ((case petrush_getenv (sh_env s) ''HOME'' of None \<Rightarrow> [] | Some h \<Rightarrow> h) @ tl w) s
      else expand_params hook False w s)"
  by pat_completeness auto

definition expand_size where
  "expand_size = case_sum (\<lambda>(hook, here, p, s). 2 * length p)
     (case_sum (\<lambda>(hook, b, s). 2 * brace_size b + 2) (\<lambda>(hook, w, s). 2 * length w + 1))"

lemma skip_name_less: "2 * length (dropWhile P r) < Suc (Suc (Suc (Suc (2 * length r))))"
  using length_dropWhile_le [of P r] by simp

termination expand_params
  by (relation "measure expand_size")
    (auto simp: expand_size_def skip_name_less dest: parse_brace_size)

declare expand_params.simps [simp del] expand_brace.simps [simp del] expand_word.simps [simp del]

definition expand_heredoc_body :: "'w hook \<Rightarrow> string \<Rightarrow> 'w shell \<Rightarrow> ('w, string) run" where
  "expand_heredoc_body hook body s = expand_params hook True body s"

section \<open>The arguments of a command\<close>

text \<open>The two arrays as one list of cells.  A word that is exactly \<open>$@\<close> or \<open>$*\<close> becomes one
  final word for each parameter, or one joined word for \<open>"$*"\<close>.  The code shrinks
  \<open>argv_quoted\<close> before it moves the tail down: with no parameters and a tail, the move reads
  the cell that was just given back.\<close>

type_synonym cells = "(string \<times> nat) list"

definition cells_of :: "cmd \<Rightarrow> cells" where
  "cells_of c = zip (argv c)
     (case argv_quoted c of None \<Rightarrow> replicate (argc c) 0 | Some qs \<Rightarrow> qs)"

definition put_cells :: "bool \<Rightarrow> cells \<Rightarrow> cmd \<Rightarrow> cmd" where
  "put_cells allocated cs c = c\<lparr>argv := List.map fst cs,
     argv_quoted := (if allocated \<or> argv_quoted c \<noteq> None then Some (List.map snd cs) else None)\<rparr>"

datatype token = Plain | Joined | Splice

definition positional_token :: "string \<Rightarrow> nat \<Rightarrow> token" where
  "positional_token w q =
     (if w = ''$*'' \<and> q \<noteq> 0 then Joined else if w = ''$*'' \<or> w = ''$@'' then Splice else Plain)"

text \<open>The first pass also tells whether it has spliced, which allocates \<open>argv_quoted\<close>.\<close>

fun expand_args :: "'w hook \<Rightarrow> cells \<Rightarrow> 'w shell \<Rightarrow> ('w, cells \<times> bool) run" where
  "expand_args hook [] s = Ret ([], False) s"
| "expand_args hook ((w, q) # cs) s =
     (if q = 1 then rbind (expand_args hook cs s) (\<lambda>(ds, b) s. Ret ((w, q) # ds, b) s)
      else case positional_token w q of
        Joined \<Rightarrow> rbind (expand_args hook cs s)
          (\<lambda>(ds, b) s'. Ret ((positional_join s, q) # ds, b) s')
      | Splice \<Rightarrow>
          if pos_args (sh_pos s) = [] \<and> cs \<noteq> [] then Undefined
          else rbind (expand_args hook cs s) (\<lambda>(ds, b) s'.
            Ret (List.map (\<lambda>v. (v, 1)) (pos_args (sh_pos s)) @ ds, True) s')
      | Plain \<Rightarrow> rbind (expand_word hook w s) (\<lambda>x s.
          rbind (expand_args hook cs s) (\<lambda>(ds, b) s. Ret ((x, q) # ds, b) s)))"

text \<open>The second pass: the matches of an unquoted pattern, when there are any.\<close>

fun glob_args :: "(string \<Rightarrow> string list option) \<Rightarrow> cells \<Rightarrow> cells \<times> bool" where
  "glob_args ls [] = ([], False)"
| "glob_args ls ((w, q) # cs) =
     (case glob_args ls cs of (ds, b) \<Rightarrow>
        if q \<noteq> 0 \<or> \<not> pattern_has_meta w then ((w, q) # ds, b)
        else case glob_word ls w of
          None \<Rightarrow> ((w, q) # ds, b)
        | Some ms \<Rightarrow> if ms = [w] then ((w, q) # ds, b)
                     else (List.map (\<lambda>m. (m, 1)) ms @ ds, True))"

definition expand_opt :: "'w hook \<Rightarrow> string option \<Rightarrow> 'w shell \<Rightarrow> ('w, string option) run" where
  "expand_opt hook x s =
     (case x of None \<Rightarrow> Ret None s | Some w \<Rightarrow> rbind (expand_word hook w s) (\<lambda>v. Ret (Some v)))"

definition expand_here :: "'w hook \<Rightarrow> cmd \<Rightarrow> 'w shell \<Rightarrow> ('w, string option) run" where
  "expand_here hook c s =
     (case here_body c of
        Some body \<Rightarrow> if here_quoted c then Ret (Some body) s
                     else rbind (expand_heredoc_body hook body s) (\<lambda>v. Ret (Some v))
      | None \<Rightarrow> Ret None s)"

definition expand_cmd_argv :: "'w hook \<Rightarrow> ('w \<Rightarrow> string \<Rightarrow> string list option) \<Rightarrow> cmd \<Rightarrow> 'w shell \<Rightarrow> ('w, cmd) run" where
  "expand_cmd_argv hook ls c s =
     rbind (expand_args hook (cells_of c) s) (\<lambda>(cs, b) s.
     case glob_args (ls (sh_world s)) cs of (cs, b') \<Rightarrow>
     rbind (expand_opt hook (redir_in c) s) (\<lambda>ri s.
     rbind (expand_opt hook (redir_out c) s) (\<lambda>ro s.
     rbind (expand_opt hook (redir_err c) s) (\<lambda>re s.
     rbind (expand_here hook c s) (\<lambda>hb s.
       Ret ((put_cells (b \<or> b') cs c)\<lparr>redir_in := ri, redir_out := ro, redir_err := re,
              here_body := hb\<rparr>) s)))))"

section \<open>What words expand to\<close>

text \<open>Words as a sequence of segments: text without a dollar and the forms of parameters.\<close>

datatype seg =
    Seg_Lit string
  | Seg_Var string
  | Seg_Brace string
  | Seg_Len string
  | Seg_Op char string string
  | Seg_Digit nat
  | Seg_Count
  | Seg_Status
  | Seg_Flags
  | Seg_All char

definition plain_text :: "string \<Rightarrow> bool" where
  "plain_text t \<longleftrightarrow> CHR ''$'' \<notin> set t"

definition param_name :: "string \<Rightarrow> bool" where
  "param_name n \<longleftrightarrow> n \<noteq> [] \<and> list_all is_name_char n \<and> length n \<le> 255"

fun seg_ok :: "seg \<Rightarrow> bool" where
  "seg_ok (Seg_Lit t) \<longleftrightarrow> plain_text t"
| "seg_ok (Seg_Var n) \<longleftrightarrow> param_name n \<and> \<not> isdigit (hd n)"
| "seg_ok (Seg_Brace n) \<longleftrightarrow> param_name n"
| "seg_ok (Seg_Len n) \<longleftrightarrow> param_name n"
| "seg_ok (Seg_Op c n w) \<longleftrightarrow> param_name n \<and> (c = CHR ''-'' \<or> c = CHR ''+'') \<and> plain_text w \<and>
     CHR ''}'' \<notin> set w \<and> \<not> tilde_word w"
| "seg_ok (Seg_Digit i) \<longleftrightarrow> i < 10"
| "seg_ok (Seg_All c) \<longleftrightarrow> c = CHR ''@'' \<or> c = CHR ''*''"
| "seg_ok g \<longleftrightarrow> True"

fun seg_text :: "seg \<Rightarrow> string" where
  "seg_text (Seg_Lit t) = t"
| "seg_text (Seg_Var n) = CHR ''$'' # n"
| "seg_text (Seg_Brace n) = ''${'' @ n @ ''}''"
| "seg_text (Seg_Len n) = ''${#'' @ n @ ''}''"
| "seg_text (Seg_Op c n w) = ''${'' @ n @ CHR '':'' # c # w @ ''}''"
| "seg_text (Seg_Digit i) = [CHR ''$'', char_of (48 + i)]"
| "seg_text Seg_Count = ''$#''"
| "seg_text Seg_Status = ''$?''"
| "seg_text Seg_Flags = ''$-''"
| "seg_text (Seg_All c) = [CHR ''$'', c]"

definition segs_text :: "seg list \<Rightarrow> string" where
  "segs_text gs = concat (List.map seg_text gs)"

text \<open>\<open>$NAME\<close> ends where no name character follows.\<close>

fun segs_ok :: "seg list \<Rightarrow> bool" where
  "segs_ok [] \<longleftrightarrow> True"
| "segs_ok (g # gs) \<longleftrightarrow> seg_ok g \<and> segs_ok gs \<and>
     (case g of Seg_Var n \<Rightarrow> \<not> is_name_char (peek (segs_text gs)) | _ \<Rightarrow> True)"

definition text_of :: "string option \<Rightarrow> string" where
  "text_of v = (case v of None \<Rightarrow> [] | Some x \<Rightarrow> x)"

fun seg_value :: "'w shell \<Rightarrow> seg \<Rightarrow> string" where
  "seg_value s (Seg_Lit t) = t"
| "seg_value s (Seg_Var n) = text_of (petrush_getenv (sh_env s) n)"
| "seg_value s (Seg_Brace n) = text_of (petrush_getenv (sh_env s) n)"
| "seg_value s (Seg_Len n) = show_nat (length (text_of (petrush_getenv (sh_env s) n)))"
| "seg_value s (Seg_Op c n w) =
     (let v = text_of (petrush_getenv (sh_env s) n)
      in if c = CHR ''-'' then if v = [] then w else v else if v = [] then [] else w)"
| "seg_value s (Seg_Digit i) = text_of (positional_text i (sh_pos s))"
| "seg_value s Seg_Count = show_nat (positional_count (sh_pos s))"
| "seg_value s Seg_Status = show_int (sh_status s)"
| "seg_value s Seg_Flags = shellopt_flags (sh_opts s)"
| "seg_value s (Seg_All c) = positional_join s"

text \<open>The segments that \<open>set -u\<close> rejects; a default or alternative is exempt.\<close>

fun seg_unset :: "'w shell \<Rightarrow> seg \<Rightarrow> bool" where
  "seg_unset s (Seg_Var n) \<longleftrightarrow> petrush_getenv (sh_env s) n = None"
| "seg_unset s (Seg_Brace n) \<longleftrightarrow> petrush_getenv (sh_env s) n = None"
| "seg_unset s (Seg_Len n) \<longleftrightarrow> petrush_getenv (sh_env s) n = None"
| "seg_unset s (Seg_Digit i) \<longleftrightarrow> i \<ge> 1 \<and> positional_text i (sh_pos s) = None"
| "seg_unset s _ \<longleftrightarrow> False"

definition seg_state :: "'w shell \<Rightarrow> seg \<Rightarrow> 'w shell" where
  "seg_state s g = (if opt_u (sh_opts s) \<and> seg_unset s g then nounset_fail s else s)"

lemma name_chars [simp]:
  "\<not> is_name_char NUL" "\<not> is_name_char (CHR ''}'')" "\<not> is_name_char (CHR '':'')"
  "\<not> is_name_char (CHR ''{'')" "\<not> is_name_char (CHR ''#'')" "\<not> is_name_char (CHR ''?'')"
  "\<not> is_name_char (CHR ''-'')" "\<not> is_name_char (CHR ''@'')" "\<not> is_name_char (CHR ''*'')"
  "\<not> is_name_char (CHR ''$'')"
  by (simp_all add: is_name_char_def ctype_defs)

lemma name_chars_all:
  assumes "list_all is_name_char n"
  shows "takeWhile is_name_char n = n" "dropWhile is_name_char n = []" "CHR ''}'' \<notin> set n"
  using assms by (auto simp: list_all_iff takeWhile_eq_all_conv)

lemma name_prefix:
  assumes "list_all is_name_char n" and "\<not> is_name_char (peek r)"
  shows "takeWhile is_name_char (n @ r) = n" "dropWhile is_name_char (n @ r) = r"
  using assms by (cases r; auto simp: list_all_iff takeWhile_append dropWhile_append)+

lemma braces_split:
  assumes "CHR ''}'' \<notin> set b"
  shows "takeWhile (\<lambda>c. c \<noteq> CHR ''}'') (b @ CHR ''}'' # r) = b"
    and "dropWhile (\<lambda>c. c \<noteq> CHR ''}'') (b @ CHR ''}'' # r) = CHR ''}'' # r"
  using assms by (induction b) auto

lemma parse_brace_forms:
  assumes "n \<noteq> []" and "list_all is_name_char n"
  shows "parse_brace (CHR ''{'' # n @ CHR ''}'' # r) = Some (Brace_Var n, r)"
    and "parse_brace (CHR ''{'' # CHR ''#'' # n @ CHR ''}'' # r) = Some (Brace_Len n, r)"
    and "c = CHR ''-'' \<or> c = CHR ''+'' \<Longrightarrow> CHR ''}'' \<notin> set w \<Longrightarrow>
      parse_brace (CHR ''{'' # n @ CHR '':'' # c # w @ CHR ''}'' # r) = Some (Brace_Op c n w, r)"
proof -
  note n = name_chars_all [OF assms(2)]
  have "peek n \<noteq> CHR ''#''" using assms by (cases n) auto
  then have hd: "peek (n @ x) \<noteq> CHR ''#''" for x using assms by (simp add: peek_append)
  show "parse_brace (CHR ''{'' # n @ CHR ''}'' # r) = Some (Brace_Var n, r)"
    using braces_split [OF n(3)] n hd [of "[]"] assms(1)
    by (simp add: parse_brace_def Let_def del: takeWhile_eq_all_conv dropWhile_eq_Nil_conv)
  have "CHR ''}'' \<notin> set (CHR ''#'' # n)" using n by simp
  from braces_split [OF this]
  show "parse_brace (CHR ''{'' # CHR ''#'' # n @ CHR ''}'' # r) = Some (Brace_Len n, r)"
    using n assms(1)
    by (simp add: parse_brace_def Let_def del: takeWhile_eq_all_conv dropWhile_eq_Nil_conv)
  assume c: "c = CHR ''-'' \<or> c = CHR ''+''" and w: "CHR ''}'' \<notin> set w"
  have "CHR ''}'' \<notin> set (n @ CHR '':'' # c # w)" using n(3) c w by auto
  from braces_split [OF this, of r]
  show "parse_brace (CHR ''{'' # n @ CHR '':'' # c # w @ CHR ''}'' # r) = Some (Brace_Op c n w, r)"
    using name_prefix [OF assms(2), of "CHR '':'' # c # w"] hd assms(1) c
    by (auto simp: parse_brace_def)
qed

lemma expand_plain:
  "plain_text t \<Longrightarrow>
    expand_params hook False (t @ r) s = emit t (expand_params hook False r s)"
proof (induction t)
  case Nil
  then show ?case by (simp add: emit_def) (cases "expand_params hook False r s"; simp)
next
  case (Cons c t)
  then have "c \<noteq> CHR ''$''" by (auto simp: plain_text_def)
  with Cons show ?case
    by (simp add: plain_text_def expand_params.simps [of _ _ "c # t @ r"] emit_def rbind_assoc)
qed

lemma expand_plain_word:
  assumes "plain_text w" and "\<not> tilde_word w"
  shows "expand_word hook w s = Ret w s"
  using expand_plain [OF assms(1), of hook "[]" s] assms(2)
  by (simp add: expand_word.simps expand_params.simps [of _ _ "[]"] emit_def)

lemma digit_char:
  assumes "i < 10"
  shows "isdigit (char_of (48 + i))" and "digit_val (char_of (48 + i)) = i"
  using assms by (simp_all add: isdigit_def digit_val_def code_def of_char_of)

lemma nondigits: "\<not> isdigit (CHR ''{'')" "\<not> isdigit (CHR ''#'')" "\<not> isdigit (CHR ''?'')"
  "\<not> isdigit (CHR ''-'')" "\<not> isdigit (CHR ''@'')" "\<not> isdigit (CHR ''*'')"
  by (simp_all add: ctype_defs)

lemma expand_seg:
  assumes "seg_ok g" and "\<And>n. g = Seg_Var n \<Longrightarrow> \<not> is_name_char (peek r)"
  shows "expand_params hook False (seg_text g @ r) s =
    emit (seg_value s g) (expand_params hook False r (seg_state s g))"
proof (cases g)
  case (Seg_Lit t)
  then show ?thesis using assms by (simp add: expand_plain seg_state_def)
next
  case (Seg_Var n)
  then obtain c m where n: "n = c # m" and c: "is_name_char c" "\<not> isdigit c" "length n \<le> 255"
    "list_all is_name_char n"
    using assms by (cases n) (auto simp: param_name_def)
  have [simp]: "c \<noteq> CHR ''{''" "c \<noteq> CHR ''#''" "c \<noteq> CHR ''?''" "c \<noteq> CHR ''-''" "c \<noteq> CHR ''@''" "c \<noteq> CHR ''*''"
    using c by auto
  have "expand_params hook False (CHR ''$'' # n @ r) s =
      (case var_value n s of (v, s) \<Rightarrow> emit v (expand_params hook False r s))"
    using c name_prefix [OF c(4) assms(2) [OF Seg_Var]]
    by (subst expand_params.simps) (simp add: n)
  then show ?thesis using Seg_Var c(3)
    by (auto simp: var_value_def seg_state_def text_of_def split: option.splits)
next
  case (Seg_Digit i)
  then have i: "i < 10" using assms by simp
  have [simp]: "char_of (48 + i) \<noteq> CHR ''{''" "char_of (48 + i) \<noteq> CHR ''#''"
     "char_of (48 + i) \<noteq> CHR ''?''" "char_of (48 + i) \<noteq> CHR ''-''"
     "char_of (48 + i) \<noteq> CHR ''@''" "char_of (48 + i) \<noteq> CHR ''*''"
    using digit_char(1) [OF i] nondigits by auto
  show ?thesis using Seg_Digit digit_char [OF i]
    by (subst expand_params.simps) (auto simp: digit_value_def seg_state_def text_of_def split: option.splits)
next
  case (Seg_Brace n)
  then have n: "n \<noteq> []" "list_all is_name_char n" "length n \<le> 255" using assms by (auto simp: param_name_def)
  show ?thesis using Seg_Brace n(3) parse_brace_forms(1) [OF n(1,2)]
    by (subst expand_params.simps)
      (auto simp: expand_brace.simps var_value_def seg_state_def text_of_def split: option.splits)
next
  case (Seg_Len n)
  then have n: "n \<noteq> []" "list_all is_name_char n" "length n \<le> 255" using assms by (auto simp: param_name_def)
  show ?thesis using Seg_Len n(3) parse_brace_forms(2) [OF n(1,2)]
    by (subst expand_params.simps)
      (auto simp: expand_brace.simps var_value_def seg_state_def text_of_def split: option.splits)
next
  case (Seg_Op c n w)
  then have n: "n \<noteq> []" "list_all is_name_char n" "length n \<le> 255" and
    c: "c = CHR ''-'' \<or> c = CHR ''+''" "CHR ''}'' \<notin> set w" "plain_text w" "\<not> tilde_word w"
    using assms by (auto simp: param_name_def)
  show ?thesis using Seg_Op n(3) c(1) parse_brace_forms(3) [OF n(1,2) c(1,2), of r]
    by (subst expand_params.simps)
      (auto simp: expand_brace.simps seg_state_def text_of_def Let_def expand_plain_word [OF c(3,4)]
        split: option.splits list.splits)
qed (use assms nondigits in \<open>subst expand_params.simps, auto simp: seg_state_def\<close>)+

lemma nounset_fail_frame [simp]:
  "sh_env (nounset_fail s) = sh_env s" "sh_pos (nounset_fail s) = sh_pos s"
  "sh_opts (nounset_fail s) = sh_opts s" "sh_status (nounset_fail s) = sh_status s"
  "nounset_fail (nounset_fail s) = nounset_fail s"
  by (simp_all add: nounset_fail_def)

lemma seg_value_nounset [simp]:
  "seg_value (nounset_fail s) g = seg_value s g" "seg_unset (nounset_fail s) g = seg_unset s g"
  by (cases g; simp add: positional_join_def)+

lemma seg_value_nounset_fun [simp]: "seg_value (nounset_fail s) = seg_value s"
  by (rule ext) simp

lemma expand_segs:
  assumes "segs_ok gs"
  shows "expand_params hook False (segs_text gs) s =
    Ret (concat (List.map (seg_value s) gs))
      (if opt_u (sh_opts s) \<and> (\<exists>g\<in>set gs. seg_unset s g) then nounset_fail s else s)"
  using assms
proof (induction gs arbitrary: s)
  case Nil
  then show ?case by (simp add: segs_text_def expand_params.simps)
next
  case (Cons g gs)
  have t: "segs_text (g # gs) = seg_text g @ segs_text gs" by (simp add: segs_text_def)
  have "expand_params hook False (segs_text (g # gs)) s =
      emit (seg_value s g) (expand_params hook False (segs_text gs) (seg_state s g))"
    unfolding t using Cons.prems by (intro expand_seg) auto
  then show ?case
    using Cons by (auto simp: seg_state_def emit_def)
qed

text \<open>
  C3. What a word expands to. For a word made of text without a dollar and of the parameter
  forms \<open>$NAME\<close>, \<open>${NAME}\<close>, \<open>${#NAME}\<close>, \<open>${NAME:-word}\<close>, \<open>${NAME:+word}\<close>, \<open>$0\<close>
  to \<open>$9\<close>, \<open>$#\<close>, \<open>$?\<close>, \<open>$-\<close> and \<open>$@\<close> or \<open>$*\<close> inside text, the result is the text
  with each form replaced by its value, in order and without reading the values again; the
  state changes only in that a parameter that is not set is reported under \<open>set -u\<close>.
\<close>

theorem expand_word_value:
  assumes "segs_ok gs" and "\<not> tilde_word (segs_text gs)"
  shows "expand_word hook (segs_text gs) s =
    Ret (concat (List.map (seg_value s) gs))
      (if opt_u (sh_opts s) \<and> (\<exists>g\<in>set gs. seg_unset s g) then nounset_fail s else s)"
  using assms by (simp add: expand_word.simps expand_segs)

definition shell_example :: "unit shell" where
  "shell_example = (initial_shell [(''HOME'', ''/root''), (''X'', ''a $X'')] ())
     \<lparr>sh_opts := \<lparr>opt_e = False, opt_u = True, opt_x = False\<rparr>, sh_status := 3\<rparr>"

theorem expand_word_value_witness:
  "expand_word None ''$X-${#X}/${Y:-none}$?'' shell_example = Ret ''a $X-4/none3'' shell_example"
proof -
  let ?gs = "[Seg_Var ''X'', Seg_Lit ''-'', Seg_Len ''X'', Seg_Lit ''/'', Seg_Op CHR ''-'' ''Y'' ''none'',
    Seg_Status]"
  have t: "segs_text ?gs = ''$X-${#X}/${Y:-none}$?''" by (simp add: segs_text_def)
  have ok: "segs_ok ?gs"
    by (simp add: segs_text_def param_name_def plain_text_def tilde_word_def is_name_char_def ctype_defs)
  have no_tilde: "\<not> tilde_word (segs_text ?gs)" by (simp add: t tilde_word_def)
  have v: "concat (List.map (seg_value shell_example) ?gs) = ''a $X-4/none3''" by code_simp
  have u: "\<not> (\<exists>g\<in>set ?gs. seg_unset shell_example g)" by code_simp
  show ?thesis
    using expand_word_value [OF ok no_tilde, of None shell_example] unfolding t v
    by (simp only: u simp_thms if_False)
qed

section \<open>What the arguments of a command expand to\<close>

abbreviation final :: "string list \<Rightarrow> cells" where
  "final ws \<equiv> List.map (\<lambda>w. (w, Suc 0)) ws"

lemma expand_args_final:
  "expand_args hook (final ws @ cs) s =
    rbind (expand_args hook cs s) (\<lambda>(ds, b) s. Ret (final ws @ ds, b) s)"
  by (induction ws) (auto simp: rbind_assoc split_def cong: rbind_cong,
      cases "expand_args hook cs s", auto)

lemma glob_args_final: "glob_args ls (final ws @ cs) =
    (case glob_args ls cs of (ds, b) \<Rightarrow> (final ws @ ds, b))"
  by (induction ws) (auto split: prod.splits)

lemma put_cells_simps [simp]:
  "argv (put_cells b cs c) = List.map fst cs"
  "argv_quoted (put_cells True cs c) = Some (List.map snd cs)"
  by (simp_all add: put_cells_def)

lemma cells_of_Some: "argv_quoted c = Some qs \<Longrightarrow> cells_of c = zip (argv c) qs"
  by (simp add: cells_of_def)

text \<open>A command without redirections and here-document.\<close>

definition only_args :: "cmd \<Rightarrow> bool" where
  "only_args c \<longleftrightarrow> redir_in c = None \<and> redir_out c = None \<and> redir_err c = None \<and> here_body c = None"

lemma expand_only_args:
  "only_args c \<Longrightarrow> expand_cmd_argv hook ls c s =
    rbind (expand_args hook (cells_of c) s) (\<lambda>(cs, b) s.
      case glob_args (ls (sh_world s)) cs of (cs, b') \<Rightarrow> Ret (put_cells (b \<or> b') cs c) s)"
  by (auto simp: expand_cmd_argv_def only_args_def expand_opt_def expand_here_def put_cells_def
      split: prod.splits intro!: rbind_cong)

lemma zip_final: "zip ws (replicate (length ws) (Suc 0)) = final ws"
  by (induction ws) auto

lemma splice_args:
  assumes c: "argv c = pre @ w # post" "argv_quoted c = Some (replicate (length pre) 1 @ q # replicate (length post) 1)"
    and q: "q \<noteq> 1" "positional_token w q = Splice" and only: "only_args c"
  shows "expand_cmd_argv hook ls c s =
    (let args = pos_args (sh_pos s)
     in if args = [] \<and> post \<noteq> [] then Undefined
        else Ret (c\<lparr>argv := pre @ args @ post,
          argv_quoted := Some (replicate (length pre + length args + length post) 1)\<rparr>) s)"
proof -
  have cells: "cells_of c = final pre @ (w, q) # final post"
    using c by (simp add: cells_of_Some zip_append zip_final)
  have post: "expand_args hook (final post) s = Ret (final post, False) s"
    using expand_args_final [of hook post "[]" s] by simp
  have globs: "glob_args l (final ws) = (final ws, False)" for l ws
    using glob_args_final [of l ws "[]"] by simp
  show ?thesis
    using q post globs [of "ls (sh_world s)" "pre @ pos_args (sh_pos s) @ post"]
    by (auto simp: expand_only_args [OF only] cells expand_args_final Let_def put_cells_def
        replicate_add comp_def map_replicate_const)
qed

text \<open>
  C33. The parameters as arguments. An unquoted \<open>$@\<close> or \<open>$*\<close>, or \<open>"$@"\<close>, among single-quoted
  words is replaced by one word for each positional parameter, in order; every word of the
  result is final, so no value is expanded, split or matched against file names again. When
  there is no parameter and words follow, the code reads past the end of the array of quote
  marks that it has just shrunk.
\<close>

theorem positional_splice:
  assumes "argv c = pre @ w # post"
    and "argv_quoted c = Some (replicate (length pre) 1 @ q # replicate (length post) 1)"
    and "q \<noteq> 1" and "positional_token w q = Splice" and "only_args c"
  shows "expand_cmd_argv hook ls c s =
    (let args = pos_args (sh_pos s)
     in if args = [] \<and> post \<noteq> [] then Undefined
        else Ret (c\<lparr>argv := pre @ args @ post,
          argv_quoted := Some (replicate (length pre + length args + length post) 1)\<rparr>) s)"
  by (rule splice_args [OF assms])

definition at_command :: cmd where
  "at_command = cmd_zero\<lparr>argv := [''echo'', ''$@'', ''$HOME''], argv_quoted := Some [1, 2, 1]\<rparr>"

theorem positional_splice_witness:
  "expand_cmd_argv None (\<lambda>_ _. None) at_command
     (shell_example\<lparr>sh_pos := positional_set None [''*'', ''$X'']\<rparr>) =
   Ret (at_command\<lparr>argv := [''echo'', ''*'', ''$X'', ''$HOME''], argv_quoted := Some [1, 1, 1, 1]\<rparr>)
     (shell_example\<lparr>sh_pos := positional_set None [''*'', ''$X'']\<rparr>)"
  using positional_splice [of at_command "[''echo'']" "''$@''" "[''$HOME'']" 2 None "\<lambda>_ _. None"
      "shell_example\<lparr>sh_pos := positional_set None [''*'', ''$X'']\<rparr>"]
  by (simp add: at_command_def cmd_zero_def only_args_def positional_token_def positional_set_def
      numeral_eq_Suc)

text \<open>\<open>echo $@ x\<close> in a shell without parameters.\<close>

theorem splice_out_of_bounds:
  "expand_cmd_argv None (\<lambda>_ _. None)
     (cmd_zero\<lparr>argv := [''echo'', ''$@'', ''x''], argv_quoted := Some [0, 0, 0]\<rparr>) shell_example = Undefined"
  by (simp add: expand_only_args only_args_def cmd_zero_def cells_of_def positional_token_def
      expand_plain_word plain_text_def tilde_word_def shell_example_def initial_shell_def positional_clear_def)

text \<open>Words that expansion has nothing to do with.\<close>

definition inert :: "string \<times> nat \<Rightarrow> bool" where
  "inert cell \<longleftrightarrow> (case cell of (w, q) \<Rightarrow> q = 1 \<or>
     plain_text w \<and> \<not> tilde_word w \<and> (q \<noteq> 0 \<or> \<not> pattern_has_meta w))"

lemma inert_cells:
  assumes "list_all inert cs"
  shows "expand_args hook cs s = Ret (cs, False) s" and "glob_args ls cs = (cs, False)"
  using assms
  by (induction cs) (auto simp: inert_def positional_token_def expand_plain_word plain_text_def)

lemma put_cells_of: "cmd_wf c \<Longrightarrow> put_cells False (cells_of c) c = c"
  by (cases c) (auto simp: put_cells_def cells_of_def cmd_wf_def)

lemma expand_inert:
  "\<lbrakk>cmd_wf c; list_all inert (cells_of c); only_args c\<rbrakk> \<Longrightarrow> expand_cmd_argv hook ls c s = Ret c s"
  by (simp add: expand_only_args inert_cells put_cells_of)

text \<open>
  C34. Words that stay. Expansion returns a command as it is, and leaves the state as it is, when
  each of its words is single-quoted, or has no dollar, no leading tilde to expand and, unless
  it is quoted, no \<open>*\<close> or \<open>?\<close>.
\<close>

theorem expansion_keeps_inert:
  assumes "cmd_wf c" and "list_all inert (cells_of c)" and "only_args c"
  shows "expand_cmd_argv hook ls c s = Ret c s"
  by (rule expand_inert [OF assms])

theorem expansion_keeps_inert_witness:
  "expand_cmd_argv None (\<lambda>_ _. Some [''a.c'']) (cmd_zero\<lparr>argv := [''trap'', ''echo $?'', ''*.c'', ''~x''],
      argv_quoted := Some [0, 1, 2, 0]\<rparr>) shell_example =
   Ret (cmd_zero\<lparr>argv := [''trap'', ''echo $?'', ''*.c'', ''~x''], argv_quoted := Some [0, 1, 2, 0]\<rparr>)
     shell_example"
  by (rule expansion_keeps_inert)
    (simp_all add: cmd_zero_def cmd_wf_def cells_of_def inert_def plain_text_def tilde_word_def
      pattern_has_meta_def only_args_def)

section \<open>What expansion may change\<close>

definition flags_only :: "'w shell \<Rightarrow> 'w shell \<Rightarrow> bool" where
  "flags_only s t \<longleftrightarrow>
     t = s\<lparr>sh_arith_error := sh_arith_error t, sh_nounset := sh_nounset t, sh_world := sh_world t\<rparr> \<and>
     (sh_arith_error s \<longrightarrow> sh_arith_error t) \<and> (sh_nounset s \<longrightarrow> sh_nounset t)"

text \<open>\<open>lim\<close> tells whether the hook may run out of steps.\<close>

fun flags_run :: "bool \<Rightarrow> 'w shell \<Rightarrow> ('w, 'a) run \<Rightarrow> bool" where
  "flags_run lim s (Ret a t) \<longleftrightarrow> flags_only s t"
| "flags_run lim s Undefined \<longleftrightarrow> True"
| "flags_run lim s No_Fuel \<longleftrightarrow> lim"
| "flags_run lim s (Exits c t) \<longleftrightarrow> False"

definition hook_returns :: "bool \<Rightarrow> 'w hook \<Rightarrow> bool" where
  "hook_returns lim hook \<longleftrightarrow> (\<forall>h. hook = Some h \<longrightarrow> (\<forall>x s. flags_run lim s (h x s)))"

lemma flags_only_refl [simp]: "flags_only s s"
  by (simp add: flags_only_def)

lemma flags_only_trans: "flags_only s t \<Longrightarrow> flags_only t u \<Longrightarrow> flags_only s u"
  unfolding flags_only_def by (cases s; cases t; cases u) simp

lemma flags_run_bind:
  assumes "flags_run lim s r" and "\<And>a t. r = Ret a t \<Longrightarrow> flags_only s t \<Longrightarrow> flags_run lim t (k a t)"
  shows "flags_run lim s (rbind r k)"
proof (cases r)
  case (Ret a t)
  then have "flags_only s t" "flags_run lim t (k a t)" using assms by auto
  then show ?thesis using Ret by (cases "k a t") (auto intro: flags_only_trans)
qed (use assms in auto)

lemma flags_run_emit [intro]: "flags_run lim s r \<Longrightarrow> flags_run lim s (emit x r)"
  unfolding emit_def by (erule flags_run_bind) auto

lemma flags_run_from: "flags_only s t \<Longrightarrow> flags_run lim t r \<Longrightarrow> flags_run lim s r"
  by (cases r) (auto intro: flags_only_trans)

lemma flags_values:
  "var_value n s = (v, t) \<Longrightarrow> flags_only s t" "digit_value i s = (v, t) \<Longrightarrow> flags_only s t"
  by (auto simp: var_value_def digit_value_def nounset_fail_def flags_only_def
      split: option.splits if_splits)

lemma flags_arith: "flags_run lim s (arith_value x s)"
  by (auto simp: arith_value_def flags_only_def split: ares.splits)

text \<open>Rules that follow the shape of a computation.\<close>

lemma flags_shape:
  "(P \<Longrightarrow> flags_run lim s r) \<Longrightarrow> (\<not> P \<Longrightarrow> flags_run lim s r') \<Longrightarrow> flags_run lim s (if P then r else r')"
  "(xs = [] \<Longrightarrow> flags_run lim s r) \<Longrightarrow> (\<And>y ys. xs = y # ys \<Longrightarrow> flags_run lim s (f y ys)) \<Longrightarrow>
     flags_run lim s (case xs of [] \<Rightarrow> r | y # ys \<Rightarrow> f y ys)"
  "(x = None \<Longrightarrow> flags_run lim s r) \<Longrightarrow> (\<And>y. x = Some y \<Longrightarrow> flags_run lim s (g y)) \<Longrightarrow>
     flags_run lim s (case x of None \<Rightarrow> r | Some y \<Rightarrow> g y)"
  "(\<And>v t. pr = (v, t) \<Longrightarrow> flags_run lim s (k v t)) \<Longrightarrow> flags_run lim s (case pr of (v, t) \<Rightarrow> k v t)"
  by (auto split: list.splits option.splits prod.splits)

lemma expand_word_flags:
  "flags_run lim s (expand_params hook False w s) \<Longrightarrow> flags_run lim s (expand_word hook w s)"
  by (auto simp: expand_word.simps)

lemma expand_brace_flags:
  assumes "\<And>w s. length w \<le> brace_size b \<Longrightarrow> flags_run lim s (expand_params hook False w s)"
  shows "flags_run lim s (expand_brace hook b s)"
  using assms
  by (cases b) (auto simp: expand_brace.simps dest: flags_values intro!: expand_word_flags
      split: option.split list.split prod.split)

lemma expand_params_flags:
  assumes h: "hook_returns lim hook"
  shows "flags_run lim s (expand_params hook here p s)"
proof (induction p arbitrary: here s rule: length_induct)
  case (1 p)
  then have IH: "length q < length p \<Longrightarrow> flags_run lim s (expand_params hook here q s)" for q here s
    by blast
  have IH': "hook = h' \<Longrightarrow> length q < length p \<Longrightarrow> flags_run lim s (expand_params h' here q s)"
    for h' q here s using IH by blast
  have hook: "hook = Some f \<Longrightarrow> flags_run lim s (f x s)" for f x s
    using h by (simp add: hook_returns_def)
  have vals: "var_value n s = (v, t) \<Longrightarrow> length q < length p \<Longrightarrow>
      flags_run lim s (expand_params hook here q t)"
    "digit_value i s = (v, t) \<Longrightarrow> length q < length p \<Longrightarrow>
      flags_run lim s (expand_params hook here q t)" for n i s v t q here
    by (blast intro: flags_run_from flags_values IH)+
  have brace: "parse_brace r = Some (b, q) \<Longrightarrow> length r \<le> length p \<Longrightarrow>
      flags_run lim s (rbind (expand_brace hook b s) (\<lambda>x s. emit x (expand_params hook here q s)))"
    for r b q s
    by (intro flags_run_bind flags_run_emit expand_brace_flags IH)
      (auto dest: parse_brace_size)
  show ?case
    by (subst expand_params.simps, intro flags_shape flags_run_emit, simp_all add: IH)
      (auto intro!: IH' flags_run_bind flags_run_emit flags_arith hook elim!: vals brace
        simp: le_imp_less_Suc length_dropWhile_le le_SucI)
qed

text \<open>
  C35. What expansion may touch. With a hook that keeps to the same rule, the expansion of a
  word returns, unless it reaches a signed overflow of an arithmetic expression or the hook runs
  out of steps, and leaves the state of the shell as it is except for the two marks of a failed
  expansion, which it only ever sets, and what the hook's processes do to the system:
  variables, parameters, options, functions and status are never written.
\<close>

theorem expansion_writes_nothing:
  assumes "hook_returns lim hook"
  shows "case expand_word hook w s of Ret v t \<Rightarrow> flags_only s t | Undefined \<Rightarrow> True
    | No_Fuel \<Rightarrow> lim | Exits c t \<Rightarrow> False"
  using expand_word_flags [OF expand_params_flags [OF assms], of s w]
  by (cases "expand_word hook w s") auto

theorem expansion_writes_nothing_witness:
  "flags_only shell_example (shell_example\<lparr>sh_nounset := True\<rparr>) \<and>
   expand_word None ''$Y'' shell_example = Ret [] (shell_example\<lparr>sh_nounset := True\<rparr>)"
proof -
  have "expand_word None ''$Y'' shell_example = Ret [] (shell_example\<lparr>sh_nounset := True\<rparr>)"
    by code_simp
  then show ?thesis using expansion_writes_nothing [of False None shell_example "''$Y''"]
    by (simp add: hook_returns_def)
qed

end
