(* ===== verification/Process.thy ===== *)
theory Process
  imports Shell Globbing
begin

text \<open>
  External commands (\<open>src/foundation/process.c\<close>): the search along \<open>PATH\<close>, the order of
  redirections, the status of a child, and the two ways to run a command.  Terminal control and
  the dispositions of signals around \<open>fork\<close> are not modelled; a pipeline's processes run
  concurrently, which is up to the system.
\<close>

section \<open>Finding the program\<close>

text \<open>The fields that repeated calls of \<open>strtok\<close> with one separator give.\<close>

fun strtok_fields :: "char \<Rightarrow> string \<Rightarrow> string \<Rightarrow> string list" where
  "strtok_fields sep acc [] = (if acc = [] then [] else [rev acc])"
| "strtok_fields sep acc (c # s) =
     (if c = sep then (if acc = [] then [] else [rev acc]) @ strtok_fields sep [] s
      else strtok_fields sep (c # acc) s)"

definition default_path :: string where "default_path = ''/bin:/usr/bin''"

text \<open>\<open>snprintf(fullpath, PATH_MAX, "%s/%s", dir, name)\<close>.\<close>

definition path_in :: "string \<Rightarrow> string \<Rightarrow> string" where
  "path_in dir name = take (path_max - 1) (dir @ SLASH # name)"

definition search_path :: "env \<Rightarrow> string list" where
  "search_path e = strtok_fields (CHR '':'') []
     (case petrush_getenv e ''PATH'' of None \<Rightarrow> default_path | Some p \<Rightarrow> p)"

fun first_executable :: "(string \<Rightarrow> bool) \<Rightarrow> string list \<Rightarrow> string \<Rightarrow> string option" where
  "first_executable x [] name = None"
| "first_executable x (d # ds) name =
     (if x (path_in d name) then Some (path_in d name) else first_executable x ds name)"

definition find_executable :: "(string \<Rightarrow> bool) \<Rightarrow> env \<Rightarrow> string \<Rightarrow> string option" where
  "find_executable x e name =
     (if SLASH \<in> set name then if x name then Some name else None
      else first_executable x (search_path e) name)"

definition shell_error_code_for :: "(string \<Rightarrow> bool) \<Rightarrow> string \<Rightarrow> nat" where
  "shell_error_code_for there name = (if SLASH \<in> set name \<and> there name then 126 else 127)"

section \<open>Redirections\<close>

text \<open>\<open>petrush_apply_redirs\<close>: standard input, then output, then error.\<close>

definition redir_plan :: "cmd \<Rightarrow> redir_op list" where
  "redir_plan c =
     (case here_body c of Some b \<Rightarrow> [Here_In b] | None \<Rightarrow>
        if here_delim c \<noteq> None then [No_Body]
        else case redir_in c of Some p \<Rightarrow> [Open_In p] | None \<Rightarrow> []) @
     (case redir_out c of Some p \<Rightarrow> [Open_Out (redir_append c) p] | None \<Rightarrow> []) @
     (case redir_err c of Some p \<Rightarrow> [Open_Err (redir_err_append c) p] | None \<Rightarrow>
        if redir_err_to_out c then [Err_To_Out] else [])"

fun open_all :: "'w sys \<Rightarrow> redir_op list \<Rightarrow> 'w \<Rightarrow> bool \<times> 'w" where
  "open_all sys [] w = (True, w)"
| "open_all sys (r # rs) w =
     (if r = No_Body then (False, w)
      else case sys_open sys r w of (ok, w') \<Rightarrow> if ok then open_all sys rs w' else (False, w'))"

definition petrush_apply_redirs :: "'w sys \<Rightarrow> cmd \<Rightarrow> 'w \<Rightarrow> bool \<times> 'w" where
  "petrush_apply_redirs sys c w = open_all sys (redir_plan c) w"

section \<open>Running\<close>

text \<open>The child of \<open>execute_external\<close>, to its wait status and what it wrote to the standard
  output of the shell; \<open>None\<close> when there is no child.\<close>

definition external_child :: "'w sys \<Rightarrow> string \<Rightarrow> cmd \<Rightarrow> 'w shell \<Rightarrow> (nat \<times> string \<times> 'w) option" where
  "external_child sys exe c s =
     (case petrush_apply_redirs sys c (sh_world s) of
        (False, w) \<Rightarrow> Some (256, [], w)
      | (True, w) \<Rightarrow> sys_exec sys exe (argv c) (sh_env s) (redir_plan c) w)"

text \<open>The result and the status it sets, if any; \<open>poll\<close> runs the traps of the signals that came
  in while the shell waited.\<close>

definition execute_external ::
  "'w sys \<Rightarrow> ('w shell \<Rightarrow> ('w, unit) run) \<Rightarrow> cmd \<Rightarrow> 'w shell \<Rightarrow> ('w, int \<times> nat option) run" where
  "execute_external sys poll c s =
     (case argv c of [] \<Rightarrow> Ret (- 1, None) s | name # args \<Rightarrow>
     (case find_executable (sys_executable sys (sh_world s)) (sh_env s) name of
        None \<Rightarrow> Ret (- 1, Some (shell_error_code_for (sys_exists sys (sh_world s)) name)) s
      | Some exe \<Rightarrow> (case external_child sys exe c s of
          None \<Rightarrow> Ret (- 1, None) s
        | Some (st, text, w) \<Rightarrow>
            rbind (poll (s\<lparr>sh_out := sh_out s @ text, sh_world := w\<rparr>)) (\<lambda>_ s.
              Ret (0, Some (status_to_code st)) s))))"

text \<open>What each child of a pipeline does: a builtin before a program of that name.\<close>

definition pipeline_child :: "'w sys \<Rightarrow> (string \<Rightarrow> bool) \<Rightarrow> 'w shell \<Rightarrow> cmd \<Rightarrow> redir_op list \<times> child_action" where
  "pipeline_child sys is_builtin s c =
     (redir_plan c,
      case argv c of
        [] \<Rightarrow> Not_Found 127
      | name # args \<Rightarrow>
          if is_builtin name then Run_Builtin (argv c)
          else case find_executable (sys_executable sys (sh_world s)) (sh_env s) name of
            None \<Rightarrow> Not_Found (shell_error_code_for (sys_exists sys (sh_world s)) name)
          | Some exe \<Rightarrow> Exec exe (argv c))"

definition execute_pipeline_with_hook ::
  "'w sys \<Rightarrow> ('w shell \<Rightarrow> ('w, unit) run) \<Rightarrow> (string \<Rightarrow> bool) \<Rightarrow> cmd list \<Rightarrow> 'w shell \<Rightarrow>
    ('w, int \<times> nat option) run" where
  "execute_pipeline_with_hook sys poll is_builtin cs s =
     (case cs of
        [] \<Rightarrow> Ret (- 1, None) s
      | [c] \<Rightarrow> execute_external sys poll c s
      | _ \<Rightarrow> (case sys_pipeline sys s (List.map (pipeline_child sys is_builtin s) cs) of
          None \<Rightarrow> Ret (- 1, None) s
        | Some (st, text, w) \<Rightarrow>
            rbind (poll (s\<lparr>sh_out := sh_out s @ text, sh_world := w\<rparr>)) (\<lambda>_ s.
              Ret (0, Some (status_to_code st)) s)))"

text \<open>How the dispatcher reads the pair: a program that could not be started is status 127 unless
  another one was set.\<close>

definition exec_status :: "int \<times> nat option \<Rightarrow> int" where
  "exec_status r = (case r of (rc, st) \<Rightarrow>
     let v = (case st of None \<Rightarrow> 0 | Some n \<Rightarrow> int n)
     in if rc = 0 then v else if v \<noteq> 0 then v else 127)"

end
