(* ===== verification/Builtins.thy ===== *)
theory Builtins
  imports Process History
begin

text \<open>
  The builtins of \<open>src/mid/dispatcher.c\<close> that do not run other commands: \<open>test\<close> and
  the condition of \<open>[[ ]]\<close>, \<open>cd\<close> and \<open>pwd\<close>, \<open>echo\<close>, \<open>set\<close>, \<open>which\<close>, and the
  entry points of the components for aliases, variables, jobs and directories.
\<close>

section \<open>\<open>test\<close>\<close>

text \<open>0 is true, 1 is false, 2 is an error.\<close>

definition truth :: "bool \<Rightarrow> int" where
  "truth b = (if b then 0 else 1)"

definition feat_test_unary :: "'w sys \<Rightarrow> 'w \<Rightarrow> string \<Rightarrow> string \<Rightarrow> int" where
  "feat_test_unary sys w opr x =
     (if opr = ''-z'' then truth (x = [])
      else if opr = ''-n'' then truth (x \<noteq> [])
      else if opr = ''-e'' then truth (sys_exists sys w x)
      else if opr = ''-f'' then truth (case sys_stat sys w x of None \<Rightarrow> False | Some st \<Rightarrow> st_regular st)
      else if opr = ''-d'' then truth (case sys_stat sys w x of None \<Rightarrow> False | Some st \<Rightarrow> st_directory st)
      else 2)"

definition feat_test_binary :: "string \<Rightarrow> string \<Rightarrow> string \<Rightarrow> int" where
  "feat_test_binary l opr r =
     (if opr = ''='' then truth (l = r)
      else if opr = ''!='' then truth (l \<noteq> r)
      else case (numeric_arg l, numeric_arg r) of
        (Some a, Some b) \<Rightarrow>
          if opr = ''-eq'' then truth (a = b)
          else if opr = ''-ne'' then truth (a \<noteq> b)
          else if opr = ''-lt'' then truth (a < b)
          else if opr = ''-gt'' then truth (a > b)
          else 2
      | _ \<Rightarrow> 2)"

definition builtin_test :: "'w sys \<Rightarrow> string list \<Rightarrow> 'w \<Rightarrow> int" where
  "builtin_test sys args w =
     (if args = [] then 2
      else if hd args = ''['' \<and> (length args < 2 \<or> last args \<noteq> '']'') then 2
      else case (if hd args = ''['' then butlast (tl args) else tl args) of
        [] \<Rightarrow> 1
      | [x] \<Rightarrow> truth (x \<noteq> [])
      | [opr, x] \<Rightarrow> feat_test_unary sys w opr x
      | [l, opr, r] \<Rightarrow> feat_test_binary l opr r
      | _ \<Rightarrow> 2)"

section \<open>The condition of \<open>[[ ]]\<close>\<close>

text \<open>A word with its quote mark; a position in the array is the list of the words from it on.\<close>

type_synonym tokens = "(string \<times> bool) list"

definition dbr_is_unary :: "string \<Rightarrow> bool" where
  "dbr_is_unary x \<longleftrightarrow> x \<in> {''-f'', ''-d'', ''-e'', ''-z'', ''-n''}"

definition dbr_is_binop :: "string \<Rightarrow> bool" where
  "dbr_is_binop x \<longleftrightarrow> x \<in> {''='', ''=='', ''!='', ''-eq'', ''-ne'', ''-lt'', ''-gt''}"

definition dbr_str_cmp :: "string \<Rightarrow> string \<Rightarrow> string \<Rightarrow> bool \<Rightarrow> int" where
  "dbr_str_cmp l opr r quoted =
     (let eq = (if quoted then l = r else case_pat_match r l)
      in truth (if opr = ''!='' then \<not> eq else eq))"

fun skip_bangs :: "bool \<Rightarrow> tokens \<Rightarrow> bool \<times> tokens" where
  "skip_bangs neg [] = (neg, [])"
| "skip_bangs neg ((x, q) # ts) =
     (if x = ''!'' then skip_bangs (\<not> neg) ts else (neg, (x, q) # ts))"

text \<open>\<open>None\<close> is the result 2.\<close>

definition dbr_skip_term :: "tokens \<Rightarrow> tokens option" where
  "dbr_skip_term ts =
     (let ts = snd (skip_bangs False ts) in
      if ts = [] then None
      else if length ts > 1 \<and> dbr_is_unary (fst (hd ts)) then Some (drop 2 ts)
      else if length ts > 2 \<and> dbr_is_binop (fst (ts ! 1)) then Some (drop 3 ts)
      else Some (tl ts))"

definition dbr_eval_primary :: "'w sys \<Rightarrow> 'w \<Rightarrow> tokens \<Rightarrow> int \<times> tokens" where
  "dbr_eval_primary sys w ts =
     (if ts = [] then (2, [])
      else if length ts > 1 \<and> dbr_is_unary (fst (hd ts)) then
        (feat_test_unary sys w (fst (hd ts)) (fst (ts ! 1)), drop 2 ts)
      else if length ts > 2 \<and> dbr_is_binop (fst (ts ! 1)) then
        (let l = fst (hd ts); opr = fst (ts ! 1); r = fst (ts ! 2)
         in (if opr \<in> {''='', ''=='', ''!=''} then dbr_str_cmp l opr r (snd (ts ! 2))
             else feat_test_binary l opr r, drop 3 ts))
      else (truth (fst (hd ts) \<noteq> []), tl ts))"

definition dbr_eval_term :: "'w sys \<Rightarrow> 'w \<Rightarrow> tokens \<Rightarrow> int \<times> tokens" where
  "dbr_eval_term sys w ts =
     (case skip_bangs False ts of (neg, ts) \<Rightarrow> case dbr_eval_primary sys w ts of (st, rest) \<Rightarrow>
        (if st = 2 then 2 else if neg then (if st = 0 then 1 else 0) else st, rest))"

lemma skip_bangs_length: "length (snd (skip_bangs b ts)) \<le> length ts"
  by (induction b ts rule: skip_bangs.induct) auto

lemma dbr_shrinks:
  "dbr_eval_term sys w ts = (st, rest) \<Longrightarrow> length rest \<le> length ts"
  "dbr_skip_term ts = Some rest \<Longrightarrow> length rest \<le> length ts"
  using skip_bangs_length [of False ts]
  by (auto simp: dbr_eval_term_def dbr_eval_primary_def dbr_skip_term_def Let_def
      split: prod.splits if_splits)

lemma dbr_eval_shrinks:
  "(case dbr_eval_term sys w ts of (st, rest) \<Rightarrow> length rest) < Suc (length ts)"
  by (cases "dbr_eval_term sys w ts") (auto dest!: dbr_shrinks(1))

function dbr_eval_rest :: "'w sys \<Rightarrow> 'w \<Rightarrow> int \<Rightarrow> tokens \<Rightarrow> int" where
  "dbr_eval_rest sys w status [] = status"
| "dbr_eval_rest sys w status ((x, q) # ts) =
     (if x = ''&&'' \<or> x = ''||'' then
        if status = 2 then 2
        else if (x = ''&&'') = (status = 0) then
          (case dbr_eval_term sys w ts of (r, rest) \<Rightarrow>
             if r = 2 then 2 else dbr_eval_rest sys w r rest)
        else (case dbr_skip_term ts of None \<Rightarrow> 2 | Some rest \<Rightarrow> dbr_eval_rest sys w status rest)
      else 2)"
  by pat_completeness auto
termination
  by (relation "measure (\<lambda>(_, _, _, ts). length ts)")
    (auto simp: le_imp_less_Suc dbr_eval_shrinks dbr_shrinks(2))

definition dbr_eval_expr :: "'w sys \<Rightarrow> 'w \<Rightarrow> tokens \<Rightarrow> int" where
  "dbr_eval_expr sys w ts =
     (if ts = [] then 1
      else case dbr_eval_term sys w ts of (st, rest) \<Rightarrow> dbr_eval_rest sys w st rest)"

section \<open>The directory\<close>

definition cd_target :: "string list \<Rightarrow> env \<Rightarrow> string" where
  "cd_target args e =
     (let p = (if length args > 1 then args ! 1
               else case petrush_getenv e ''HOME'' of None \<Rightarrow> [] | Some h \<Rightarrow> h)
      in if p = [] then ''.'' else p)"

definition set_some :: "string \<Rightarrow> string option \<Rightarrow> env \<Rightarrow> env" where
  "set_some name v e = (case v of None \<Rightarrow> e | Some x \<Rightarrow> or_same (petrush_setenv name x e) e)"

definition builtin_cd :: "'w sys \<Rightarrow> string list \<Rightarrow> 'w shell \<Rightarrow> int \<times> 'w shell" where
  "builtin_cd sys args s =
     (let old = (case sys_getcwd sys (sh_world s) of Some [] \<Rightarrow> None | d \<Rightarrow> d);
          back = cd_target args (sh_env s) = ''-'';
          path = (if back then (case petrush_getenv (sh_env s) ''OLDPWD'' of None \<Rightarrow> [] | Some p \<Rightarrow> p)
                  else cd_target args (sh_env s));
          s = (if back \<and> path \<noteq> [] then s\<lparr>sh_out := sh_out s @ path @ [NL]\<rparr> else s)
      in if path = [] then (1, s)
         else case sys_chdir sys path (sh_world s) of
           None \<Rightarrow> (1, s)
         | Some w \<Rightarrow> (0, s\<lparr>sh_world := w,
             sh_env := set_some ''PWD'' (sys_getcwd sys w) (set_some ''OLDPWD'' old (sh_env s))\<rparr>))"

definition builtin_pwd :: "'w sys \<Rightarrow> 'w shell \<Rightarrow> int \<times> 'w shell" where
  "builtin_pwd sys s =
     (case sys_getcwd sys (sh_world s) of
        Some d \<Rightarrow> (0, s\<lparr>sh_out := sh_out s @ d @ [NL]\<rparr>)
      | None \<Rightarrow> (1, s))"

definition builtin_echo :: "string list \<Rightarrow> string" where
  "builtin_echo args = join_args (tl args) @ [NL]"

definition builtin_which :: "'w sys \<Rightarrow> (string \<Rightarrow> bool) \<Rightarrow> string list \<Rightarrow> 'w shell \<Rightarrow> int \<times> string" where
  "builtin_which sys is_builtin args s =
     (if length args < 2 then (1, [])
      else let name = args ! 1 in
        if is_builtin name then (0, name @ '': shell builtin'' @ [NL])
        else case find_executable (sys_executable sys (sh_world s)) (sh_env s) name of
          Some p \<Rightarrow> (0, p @ [NL])
        | None \<Rightarrow> (1, []))"

section \<open>\<open>set\<close>\<close>

definition set_apply_letter :: "char \<Rightarrow> bool \<Rightarrow> shellopts \<Rightarrow> shellopts option" where
  "set_apply_letter l on o' =
     (if l = CHR ''x'' \<or> l = CHR ''u'' \<or> l = CHR ''e'' then shellopt_set l on o'
      else if l = CHR ''C'' \<and> on then Some o'
      else None)"

definition set_apply_o_name :: "string \<Rightarrow> bool \<Rightarrow> shellopts \<Rightarrow> shellopts option" where
  "set_apply_o_name name on o' =
     (if name = ''xtrace'' then shellopt_set (CHR ''x'') on o'
      else if name = ''nounset'' then shellopt_set (CHR ''u'') on o'
      else if name = ''errexit'' then shellopt_set (CHR ''e'') on o'
      else if name = ''noclobber'' \<and> on then Some o'
      else None)"

text \<open>The letters of one argument, up to the first that is refused.\<close>

fun set_letters :: "string \<Rightarrow> bool \<Rightarrow> shellopts \<Rightarrow> bool \<times> shellopts" where
  "set_letters [] on o' = (True, o')"
| "set_letters (l # ls) on o' =
     (case set_apply_letter l on o' of None \<Rightarrow> (False, o') | Some o'' \<Rightarrow> set_letters ls on o'')"

text \<open>The loop over the arguments: whether no option was refused, the options, and the new
  parameters when there are some to set.\<close>

fun set_loop :: "string list \<Rightarrow> shellopts \<Rightarrow> bool \<times> shellopts \<times> string list option" where
  "set_loop [] o' = (True, o', None)"
| "set_loop (arg # args) o' =
     (if arg = ''--'' then (True, o', Some args)
      else if (peek arg = CHR ''-'' \<or> peek arg = CHR ''+'') \<and> tl arg \<noteq> [] then
        if tl arg = ''o'' then
          (case args of
             [] \<Rightarrow> (False, o', None)
           | name # args' \<Rightarrow> (case set_apply_o_name name (peek arg = CHR ''-'') o' of
               None \<Rightarrow> (False, o', None)
             | Some o'' \<Rightarrow> set_loop args' o''))
        else (case set_letters (tl arg) (peek arg = CHR ''-'') o' of
          (ok, o'') \<Rightarrow> if ok then set_loop args o'' else (False, o'', None))
      else (True, o', Some (arg # args)))"

definition env_dump :: "env \<Rightarrow> string" where
  "env_dump e = concat (List.map (\<lambda>(k, v). k @ CHR ''='' # v @ [NL]) e)"

definition builtin_set :: "string list \<Rightarrow> 'w shell \<Rightarrow> int \<times> 'w shell" where
  "builtin_set args s =
     (if length args \<le> 1 then (0, s\<lparr>sh_out := sh_out s @ env_dump (sh_env s)\<rparr>)
      else case set_loop (tl args) (sh_opts s) of (ok, o', ps) \<Rightarrow>
        if \<not> ok then (1, s\<lparr>sh_opts := o', sh_abort := True\<rparr>)
        else (0, case ps of
            None \<Rightarrow> s\<lparr>sh_opts := o'\<rparr>
          | Some ws \<Rightarrow> s\<lparr>sh_opts := o',
              sh_pos := positional_set (Some (case pos_arg0 (sh_pos s) of None \<Rightarrow> [] | Some a \<Rightarrow> a)) ws\<rparr>))"

end
