(* ===== verification/Traps.thy ===== *)
theory Traps
  imports Shell History ListParser
begin

text \<open>
  The traps of \<open>src/mid/dispatcher.c\<close>: the table of actions, the names of conditions, the
  builtin \<open>trap\<close>, the points at which the actions of caught signals run, and the action at
  the exit of the shell.  A slot holds \<open>None\<close> for the default, the empty action to ignore, or a
  command.  A caught signal is only marked; the system tells at each look which ones have come
  in since the last.
\<close>

section \<open>Conditions\<close>

definition trap_nsig :: nat where "trap_nsig = 65"

text \<open>The table of names, with the numbers of Linux.\<close>

definition trap_conds :: "(string \<times> nat) list" where
  "trap_conds = [(''EXIT'', 0), (''HUP'', 1), (''INT'', 2), (''QUIT'', 3), (''ILL'', 4), (''TRAP'', 5),
     (''ABRT'', 6), (''BUS'', 7), (''FPE'', 8), (''USR1'', 10), (''SEGV'', 11), (''USR2'', 12),
     (''PIPE'', 13), (''ALRM'', 14), (''TERM'', 15), (''STKFLT'', 16), (''CONT'', 18), (''TSTP'', 20),
     (''TTIN'', 21), (''TTOU'', 22), (''URG'', 23), (''XCPU'', 24), (''XFSZ'', 25), (''VTALRM'', 26),
     (''PROF'', 27), (''WINCH'', 28), (''POLL'', 29), (''PWR'', 30), (''SYS'', 31)]"

definition sig_kill :: nat where "sig_kill = 9"
definition sig_chld :: nat where "sig_chld = 17"
definition sig_stop :: nat where "sig_stop = 19"

datatype trap_error = Trap_Invalid | Trap_Killstop | Trap_Chld

definition trap_number :: "int \<Rightarrow> trap_error + nat" where
  "trap_number v =
     (if v = 0 then Inr 0
      else if v = int sig_kill \<or> v = int sig_stop then Inl Trap_Killstop
      else if v = int sig_chld then Inl Trap_Chld
      else if to_int v \<in> set (List.map (int \<circ> snd) trap_conds) then Inr (nat (to_int v))
      else Inl Trap_Invalid)"

definition trap_resolve_cond :: "string \<Rightarrow> trap_error + nat" where
  "trap_resolve_cond raw =
     (let name = (if take 3 raw = ''SIG'' \<and> length raw > 3 then drop 3 raw else raw) in
      if raw = [] then Inl Trap_Invalid
      else if name = ''KILL'' \<or> name = ''STOP'' then Inl Trap_Killstop
      else if name = ''CHLD'' \<or> name = ''CLD'' then Inl Trap_Chld
      else if name \<in> {''ERR'', ''DEBUG'', ''RETURN''} then Inl Trap_Invalid
      else case numeric_arg raw of
        Some v \<Rightarrow> trap_number v
      | None \<Rightarrow> (case map_of trap_conds name of Some n \<Rightarrow> Inr n | None \<Rightarrow> Inl Trap_Invalid))"

section \<open>The table\<close>

definition trap_action :: "'w shell \<Rightarrow> nat \<Rightarrow> string option" where
  "trap_action s i = (if i < length (sh_traps s) then sh_traps s ! i else None)"

definition trap_pending :: "'w shell \<Rightarrow> nat \<Rightarrow> bool" where
  "trap_pending s i \<longleftrightarrow> i < length (sh_pending s) \<and> sh_pending s ! i"

definition trap_is_command :: "'w shell \<Rightarrow> nat \<Rightarrow> bool" where
  "trap_is_command s i \<longleftrightarrow> 0 < i \<and> i < trap_nsig \<and> trap_action s i \<noteq> None \<and> trap_action s i \<noteq> Some []"

text \<open>The handler, which is installed for the signals whose action is a command.\<close>

definition trap_signal_handler :: "nat \<Rightarrow> 'w shell \<Rightarrow> 'w shell" where
  "trap_signal_handler i s =
     (if 0 < i \<and> i < trap_nsig then s\<lparr>sh_pending := (sh_pending s)[i := True]\<rparr> else s)"

text \<open>Setting a slot; a slot that no longer holds a command forgets a mark.\<close>

definition trap_set_slot :: "nat \<Rightarrow> string option \<Rightarrow> 'w shell \<Rightarrow> 'w shell" where
  "trap_set_slot i action s =
     s\<lparr>sh_traps := (sh_traps s)[i := action],
       sh_pending := (if i > 0 \<and> (action = None \<or> action = Some []) then (sh_pending s)[i := False]
                      else sh_pending s)\<rparr>"

fun trap_loop :: "string list \<Rightarrow> string option \<Rightarrow> 'w shell \<Rightarrow> int \<times> 'w shell" where
  "trap_loop [] action s = (0, s)"
| "trap_loop (cond # conds) action s =
     (case trap_resolve_cond cond of
        Inl _ \<Rightarrow> (1, s\<lparr>sh_abort := True\<rparr>)
      | Inr i \<Rightarrow> trap_loop conds action (trap_set_slot i action s))"

definition quote_text :: "string \<Rightarrow> string" where
  "quote_text s = SQ # concat (List.map (\<lambda>c. if c = SQ then [SQ, BSL, SQ, SQ] else [c]) s) @ [SQ]"

definition trap_dump :: "'w shell \<Rightarrow> string" where
  "trap_dump s = concat (List.map (\<lambda>(name, i). case trap_action s i of
       None \<Rightarrow> []
     | Some a \<Rightarrow> ''trap -- '' @ quote_text a @ CHR '' '' # name @ [NL]) trap_conds)"

definition builtin_trap :: "string list \<Rightarrow> 'w shell \<Rightarrow> int \<times> 'w shell" where
  "builtin_trap args s =
     (case args of
        _ # a # rest \<Rightarrow>
          (let usage = (1, s\<lparr>sh_abort := True\<rparr>);
               set_all = (\<lambda>action conds. if conds = [] then usage
                 else trap_loop conds (if action = ''-'' then None else Some action) s)
           in if a = ''--'' then
                (case rest of [] \<Rightarrow> usage | action # conds \<Rightarrow> set_all action conds)
              else if peek a = CHR ''-'' \<and> tl a \<noteq> [] then usage
              else set_all a rest)
      | _ \<Rightarrow> (0, s\<lparr>sh_out := sh_out s @ trap_dump s\<rparr>))"

text \<open>In a child the commands go, the ignored signals stay.\<close>

definition petrush_trap_reset_for_child :: "'w shell \<Rightarrow> 'w shell" where
  "petrush_trap_reset_for_child s =
     s\<lparr>sh_traps := List.map (\<lambda>a. if a = Some [] then a else None) (sh_traps s),
       sh_pending := List.map (\<lambda>(a, b). b \<and> (a = None \<or> a = Some [])) (zip (sh_traps s) (sh_pending s)),
       sh_in_exit := False, sh_subshell := True\<rparr>"

section \<open>What the table holds\<close>

text \<open>Actions only for the conditions of the table of names, so none for \<open>KILL\<close>, \<open>STOP\<close> and
  \<open>CHLD\<close>; and never the text that asks for the default.\<close>

definition trap_slots :: "nat list" where
  "trap_slots = List.map snd trap_conds"

definition trap_slot_ok :: "nat \<Rightarrow> string option \<Rightarrow> bool" where
  "trap_slot_ok i action \<longleftrightarrow> action = None \<or> i \<in> set trap_slots \<and> action \<noteq> Some ''-''"

definition traps_inv :: "string option list \<Rightarrow> bool" where
  "traps_inv ts \<longleftrightarrow> length ts = trap_nsig \<and> list_all (\<lambda>i. trap_slot_ok i (ts ! i)) [0..<trap_nsig]"

lemma trap_slots_facts:
  "list_all (\<lambda>(name, i). trap_resolve_cond name = Inr i) trap_conds"
  "distinct trap_slots" "list_all (\<lambda>i. i < trap_nsig) trap_slots"
  "sig_kill \<notin> set trap_slots" "sig_chld \<notin> set trap_slots" "sig_stop \<notin> set trap_slots"
  by code_simp+

lemma trap_slots_less: "i \<in> set trap_slots \<Longrightarrow> i < trap_nsig"
  using trap_slots_facts(3) by (simp add: list_all_iff)

lemma trap_number_slot:
  assumes "trap_number v = Inr i"
  shows "i \<in> set trap_slots"
proof (cases "v = 0")
  case True
  then show ?thesis using assms by (simp add: trap_number_def trap_slots_def trap_conds_def)
next
  case False
  with assms obtain p where "p \<in> set trap_conds" "i = snd p"
    by (auto simp: trap_number_def split: if_splits)
  then show ?thesis by (simp add: trap_slots_def)
qed

lemma trap_resolve_slot: "trap_resolve_cond x = Inr i \<Longrightarrow> i \<in> set trap_slots"
  by (auto simp: trap_resolve_cond_def Let_def trap_slots_def split: if_splits option.splits
      dest: trap_number_slot [unfolded trap_slots_def] map_of_SomeD intro: rev_image_eqI)

lemma traps_inv_none [simp]: "traps_inv (replicate 65 None)"
  by (simp add: traps_inv_def list_all_iff trap_slot_ok_def trap_nsig_def)

lemma traps_inv_update: "traps_inv ts \<Longrightarrow> trap_slot_ok i a \<Longrightarrow> traps_inv (ts[i := a])"
proof -
  assume ts: "traps_inv ts" and a: "trap_slot_ok i a"
  have "trap_slot_ok j (ts[i := a] ! j)" if "j < trap_nsig" for j
    using ts a that by (cases "j = i") (simp_all add: traps_inv_def list_all_iff)
  with ts show ?thesis by (simp add: traps_inv_def list_all_iff)
qed

lemma trap_action_inv: "traps_inv (sh_traps s) \<Longrightarrow> trap_slot_ok i (trap_action s i)"
  by (auto simp: traps_inv_def list_all_iff trap_action_def trap_slot_ok_def)

section \<open>Running the actions\<close>

text \<open>The results of the dispatcher: the status and the list as it is afterwards, since
  expansion writes its results into the list.\<close>

type_synonym 'w dispatcher = "plist \<Rightarrow> 'w shell \<Rightarrow> ('w, int \<times> plist) run"

definition run_action :: "'w dispatcher \<Rightarrow> string \<Rightarrow> 'w shell \<Rightarrow> ('w, unit) run" where
  "run_action dl act s =
     (let s = s\<lparr>sh_no_errexit := sh_no_errexit s + 1\<rparr> in
      rbind (case petrush_parse_list act of
          None \<Rightarrow> Ret () s
        | Some l \<Rightarrow> if l = [] then Ret () s else rbind (dl l s) (\<lambda>_ s. Ret () s))
        (\<lambda>_ s. Ret () (s\<lparr>sh_no_errexit := sh_no_errexit s - 1\<rparr>)))"

text \<open>The signals that have come in; then slot after slot.\<close>

definition take_signals :: "'w sys \<Rightarrow> 'w shell \<Rightarrow> 'w shell" where
  "take_signals sys s =
     (case sys_signals sys (sh_world s) of (sigs, w) \<Rightarrow>
        fold (\<lambda>i s. if trap_is_command s i then trap_signal_handler i s else s) sigs (s\<lparr>sh_world := w\<rparr>))"

fun poll_slots :: "'w sys \<Rightarrow> 'w dispatcher \<Rightarrow> nat list \<Rightarrow> 'w shell \<Rightarrow> ('w, unit) run" where
  "poll_slots sys dl [] s = Ret () s"
| "poll_slots sys dl (i # is) s =
     (let s = take_signals sys s in
      if \<not> trap_pending s i then poll_slots sys dl is s
      else let s = s\<lparr>sh_pending := (sh_pending s)[i := False]\<rparr> in
        case trap_action s i of
          None \<Rightarrow> poll_slots sys dl is s
        | Some [] \<Rightarrow> poll_slots sys dl is s
        | Some act \<Rightarrow>
            rbind (run_action dl act (s\<lparr>sh_status := 128 + int i\<rparr>)) (\<lambda>_ s'.
              poll_slots sys dl is (s'\<lparr>sh_status := sh_status s\<rparr>)))"

definition petrush_traps_poll :: "'w sys \<Rightarrow> 'w dispatcher \<Rightarrow> 'w shell \<Rightarrow> ('w, unit) run" where
  "petrush_traps_poll sys dl s =
     (if sh_in_poll s then Ret () s
      else rbind (poll_slots sys dl [1..<trap_nsig] (s\<lparr>sh_in_poll := True\<rparr>)) (\<lambda>_ s.
        Ret () (s\<lparr>sh_in_poll := False\<rparr>)))"

definition petrush_run_exit_trap :: "'w sys \<Rightarrow> 'w dispatcher \<Rightarrow> int \<Rightarrow> 'w shell \<Rightarrow> ('w, unit) run" where
  "petrush_run_exit_trap sys dl status s =
     rbind (petrush_traps_poll sys dl s) (\<lambda>_ s.
       if sh_in_exit s \<or> sh_subshell s \<or> sh_cmdsubst_depth s > 0 then Ret () s
       else case trap_action s 0 of
         None \<Rightarrow> Ret () s
       | Some [] \<Rightarrow> Ret () s
       | Some act \<Rightarrow> rbind (run_action dl act (s\<lparr>sh_in_exit := True, sh_status := status\<rparr>)) (\<lambda>_ s.
           Ret () (s\<lparr>sh_status := status, sh_in_exit := False\<rparr>)))"

end
