(* ===== verification/Source.thy ===== *)
theory Source
  imports Traps Heredoc
begin

text \<open>
  Running a file (\<open>src/mid/source.c\<close>): its lines, the here-documents that take lines of it, the
  builtin \<open>source\<close>, script mode, and the check that the file is the user's own
  (\<open>src/foundation/rc_trust.c\<close>).  The text of the file is what \<open>fopen\<close> found; the dispatcher
  is an argument.
\<close>

section \<open>Lines\<close>

text \<open>\<open>fgets\<close> into a buffer of 4096 bytes, and the line as the code sees it: up to a NUL byte,
  without its newline.\<close>

definition linebuf_size :: nat where "linebuf_size = 4096"

definition fgets_chunk :: "string \<Rightarrow> nat" where
  "fgets_chunk t = min (linebuf_size - 1)
     (let n = length (takeWhile (\<lambda>c. c \<noteq> NL) t) in if n < length t then n + 1 else n)"

definition chop_newline :: "string \<Rightarrow> string" where
  "chop_newline l = (if l \<noteq> [] \<and> last l = NL then butlast l else l)"

definition fgets_line :: "string \<Rightarrow> (string \<times> string) option" where
  "fgets_line t =
     (if t = [] then None
      else Some (chop_newline (takeWhile (\<lambda>c. c \<noteq> NUL) (take (fgets_chunk t) t)),
                 drop (fgets_chunk t) t))"

lemma fgets_line_less: "fgets_line t = Some (l, rest) \<Longrightarrow> length rest < length t"
  by (cases t) (auto simp: fgets_line_def fgets_chunk_def linebuf_size_def Let_def)

section \<open>Here-documents\<close>

text \<open>\<open>Filled l rest eof\<close>: the list, the text after the lines taken, and whether the end of the
  file was reached.\<close>

datatype fill = Fill_Error | Filled plist string bool

function fill_heredocs :: "string \<Rightarrow> plist \<Rightarrow> fill" where
  "fill_heredocs t l =
     (if \<not> list_heredoc_pending l then Filled l t False
      else case fgets_line t of
        None \<Rightarrow> (case petrush_heredoc_feed_line l None of (r, l') \<Rightarrow>
          if r < 0 then Fill_Error else Filled l' [] True)
      | Some (line, rest) \<Rightarrow> (case petrush_heredoc_feed_line l (Some line) of (r, l') \<Rightarrow>
          if r < 0 then Fill_Error else fill_heredocs rest l'))"
  by pat_completeness auto
termination
  by (relation "measure (\<lambda>(t, l). length t)") (auto dest: fgets_line_less)

declare fill_heredocs.simps [simp del]

lemma fill_heredocs_shrinks: "fill_heredocs t l = Filled l' rest eof \<Longrightarrow> length rest \<le> length t"
proof (induction t l rule: fill_heredocs.induct)
  case (1 t l)
  then show ?case
    by (subst (asm) (2) fill_heredocs.simps)
      (fastforce dest: fgets_line_less split: if_splits option.splits prod.splits)
qed

section \<open>The runner\<close>

definition file_blank :: "char \<Rightarrow> bool" where
  "file_blank c \<longleftrightarrow> c = CHR '' '' \<or> c = TAB"

function run_file_loop :: "'w dispatcher \<Rightarrow> string \<Rightarrow> int \<Rightarrow> 'w shell \<Rightarrow> ('w, int) run" where
  "run_file_loop dl t status s =
     (case fgets_line t of
        None \<Rightarrow> Ret status s
      | Some (line, rest) \<Rightarrow>
         (let start = dropWhile file_blank line in
          if start = [] \<or> hd start = CHR ''#'' then run_file_loop dl rest status s
          else case petrush_parse_list (alias_expand_line (sh_aliases s) start) of
            None \<Rightarrow> run_file_loop dl rest 1 s
          | Some l \<Rightarrow> (case fill_heredocs rest l of
              Fill_Error \<Rightarrow> Ret 1 s
            | Filled l' rest' eof \<Rightarrow>
                rbind (if l' = [] then Ret status s else rbind (dl l' s) (\<lambda>(st, _). Ret st)) (\<lambda>status s.
                  if sh_abort s then Ret status (s\<lparr>sh_abort := False\<rparr>)
                  else if eof then Ret status s
                  else run_file_loop dl rest' status s))))"
  by pat_completeness auto
termination
  by (relation "measure (\<lambda>(dl, t, status, s). length t)")
    (auto dest!: fgets_line_less fill_heredocs_shrinks)

declare run_file_loop.simps [simp del]

definition run_file_lines :: "'w dispatcher \<Rightarrow> string \<Rightarrow> 'w shell \<Rightarrow> ('w, int) run" where
  "run_file_lines dl t s = run_file_loop dl t 0 (s\<lparr>sh_abort := False\<rparr>)"

section \<open>Files\<close>

definition source_max_depth :: nat where "source_max_depth = 8"

text \<open>\<open>petrush_rc_stat_ok\<close>: a regular file of the user that no one else may write.\<close>

definition petrush_rc_stat_ok :: "file_stat \<Rightarrow> nat \<Rightarrow> bool" where
  "petrush_rc_stat_ok st uid \<longleftrightarrow> st_regular st \<and> st_uid st = uid \<and> and (st_mode st) 18 = 0"

definition run_opened :: "'w dispatcher \<Rightarrow> string \<Rightarrow> 'w shell \<Rightarrow> ('w, int) run" where
  "run_opened dl t s =
     rbind (run_file_lines dl t (s\<lparr>sh_source_depth := sh_source_depth s + 1\<rparr>))
       (\<lambda>status s. Ret status (s\<lparr>sh_source_depth := sh_source_depth s - 1\<rparr>))"

definition petrush_source_file :: "'w sys \<Rightarrow> 'w dispatcher \<Rightarrow> string \<Rightarrow> bool \<Rightarrow> 'w shell \<Rightarrow> ('w, int) run" where
  "petrush_source_file sys dl path missing_ok s =
     (if path = [] \<or> sh_source_depth s \<ge> source_max_depth then Ret 1 s
      else case sys_read_file sys (sh_world s) path of
        None \<Rightarrow> Ret (if missing_ok \<and> \<not> sys_exists sys (sh_world s) path then 0 else 1) s
      | Some t \<Rightarrow> (case sys_stat sys (sh_world s) path of
          None \<Rightarrow> Ret 1 s
        | Some st \<Rightarrow> if petrush_rc_stat_ok st (sys_uid sys) then run_opened dl t s else Ret 1 s))"

definition petrush_run_script :: "'w sys \<Rightarrow> 'w dispatcher \<Rightarrow> string \<Rightarrow> 'w shell \<Rightarrow> ('w, int) run" where
  "petrush_run_script sys dl path s =
     (if path = [] then Ret 1 s
      else case sys_read_file sys (sh_world s) path of
        None \<Rightarrow> Ret (if sys_exists sys (sh_world s) path then 1 else 127) s
      | Some t \<Rightarrow> (case sys_stat sys (sh_world s) path of
          None \<Rightarrow> Ret 1 s
        | Some st \<Rightarrow>
            if \<not> st_regular st \<or> sh_source_depth s \<ge> source_max_depth then Ret 1 s
            else rbind (run_opened dl t s) (\<lambda>status s.
              rbind (petrush_run_exit_trap sys dl status s) (\<lambda>_ s. Ret status s))))"

definition builtin_source :: "'w sys \<Rightarrow> 'w dispatcher \<Rightarrow> string list \<Rightarrow> 'w shell \<Rightarrow> ('w, int) run" where
  "builtin_source sys dl args s =
     (if length args \<noteq> 2 then Ret 1 s else petrush_source_file sys dl (args ! 1) False s)"

end
