(* ===== verification/Dispatch.thy ===== *)
theory Dispatch
  imports Clone Expand Process Builtins Traps Source
begin

text \<open>
  The dispatcher (\<open>src/mid/dispatcher.c\<close>): commands, functions, pipelines, lists, the compound
  commands, command substitution, and the table of builtins.

  The code writes the results of expansion into the list it runs, so every operation returns the
  list as it is afterwards; \<open>clone_list\<close> is what makes a later run start from the text again.
  The operations take the dispatcher of lists as the argument \<open>dl\<close>; the recursion is tied at the
  end, with a number of steps that bounds the nesting of lists and the rounds of a \<open>while\<close>.
  Tracing (\<open>set -x\<close>) and diagnostics go to standard error and are left out.
\<close>

section \<open>The builtins\<close>

definition builtin_names :: "string list" where
  "builtin_names = [''cd'', ''pwd'', ''echo'', ''exit'', ''help'', ''clear'', ''env'', ''export'', ''unset'',
     ''history'', ''pudo'', ''info'', ''wai'', ''netcom'', ''alias'', ''unalias'', ''which'', ''pushd'',
     ''popd'', ''dirs'', ''source'', ''.'', ''jobs'', ''true'', ''false'', '':'', ''umask'', ''read'',
     ''test'', ''['', ''shift'', ''return'', ''local'', ''set'', ''trap'']"

definition find_builtin :: "string \<Rightarrow> bool" where
  "find_builtin name \<longleftrightarrow> name \<in> set builtin_names"

definition builtin_exit :: "'w sys \<Rightarrow> 'w dispatcher \<Rightarrow> string list \<Rightarrow> 'w shell \<Rightarrow> ('w, int) run" where
  "builtin_exit sys dl args s =
     (case (if length args \<ge> 2 then numeric_arg (args ! 1) else Some 0) of
        None \<Rightarrow> Exits 2 s
      | Some v \<Rightarrow> rbind (petrush_run_exit_trap sys dl (v mod 256) s) (\<lambda>_ s. Exits (v mod 256) s))"

definition builtin_jobs :: "'w sys \<Rightarrow> 'w shell \<Rightarrow> int \<times> 'w shell" where
  "builtin_jobs sys s =
     (let t = job_reap (sys_wait sys (sh_world s)) (sh_jobs s)
      in (0, s\<lparr>sh_out := sh_out s @ job_print t, sh_jobs := job_prune_done t\<rparr>))"

text \<open>\<open>pushd\<close> and \<open>popd\<close> with the result of the directory stack.\<close>

definition put_dirs :: "int \<times> 'w \<times> string list \<Rightarrow> 'w shell \<Rightarrow> int \<times> 'w shell" where
  "put_dirs r s = (case r of (rc, w, st) \<Rightarrow> (if rc = 0 then 0 else 1, s\<lparr>sh_world := w, sh_dirs := st\<rparr>))"

definition builtin_pushd :: "'w sys \<Rightarrow> string list \<Rightarrow> 'w shell \<Rightarrow> int \<times> 'w shell" where
  "builtin_pushd sys args s =
     (if length args < 2 then (1, s)
      else put_dirs (dirstack_pushd (sys_getcwd sys) (sys_chdir sys) (args ! 1) (sh_world s, sh_dirs s)) s)"

definition builtin_popd :: "'w sys \<Rightarrow> 'w shell \<Rightarrow> int \<times> 'w shell" where
  "builtin_popd sys s = put_dirs (dirstack_popd (sys_chdir sys) (sh_world s, sh_dirs s)) s"

definition put_env :: "int \<times> env \<Rightarrow> 'w shell \<Rightarrow> int \<times> 'w shell" where
  "put_env r s = (case r of (st, e) \<Rightarrow> (st, s\<lparr>sh_env := e\<rparr>))"

definition put_text :: "int \<times> string \<Rightarrow> 'w shell \<Rightarrow> int \<times> 'w shell" where
  "put_text r s = (case r of (st, x) \<Rightarrow> (st, s\<lparr>sh_out := sh_out s @ x\<rparr>))"

definition put_local :: "int \<times> env \<times> local_save list \<Rightarrow> 'w shell \<Rightarrow> int \<times> 'w shell" where
  "put_local r s = (case r of (st, e, l) \<Rightarrow> (st, s\<lparr>sh_env := e, sh_locals := l\<rparr>))"

definition put_return :: "int \<times> int option \<Rightarrow> 'w shell \<Rightarrow> int \<times> 'w shell" where
  "put_return r s = (case r of (st, None) \<Rightarrow> (st, s)
     | (st, Some v) \<Rightarrow> (st, s\<lparr>sh_returning := True, sh_return_status := v\<rparr>))"

definition put_alias :: "int \<times> string \<times> aliases \<Rightarrow> 'w shell \<Rightarrow> int \<times> 'w shell" where
  "put_alias r s = (case r of (st, x, t) \<Rightarrow> (st, s\<lparr>sh_out := sh_out s @ x, sh_aliases := t\<rparr>))"

definition put_sys :: "int \<times> string \<times> env \<times> 'w \<Rightarrow> 'w shell \<Rightarrow> int \<times> 'w shell" where
  "put_sys r s = (case r of (st, x, e, w) \<Rightarrow> (st, s\<lparr>sh_out := sh_out s @ x, sh_env := e, sh_world := w\<rparr>))"

text \<open>The builtins that run no list.\<close>

definition simple_builtin :: "'w sys \<Rightarrow> cmd \<Rightarrow> 'w shell \<Rightarrow> int \<times> 'w shell" where
  "simple_builtin sys c s =
     (let args = argv c; name = hd (argv c) in
      if name = ''cd'' then builtin_cd sys args s
      else if name = ''pwd'' then builtin_pwd sys s
      else if name = ''echo'' then put_text (0, builtin_echo args) s
      else if name = ''env'' then put_text (0, env_dump (sh_env s)) s
      else if name = ''export'' then put_env (builtin_export args (sh_env s)) s
      else if name = ''unset'' then put_env (builtin_unset args (sh_env s)) s
      else if name = ''alias'' then put_alias (builtin_alias args (sh_aliases s)) s
      else if name = ''unalias'' then
        put_alias (case builtin_unalias args (sh_aliases s) of (st, t) \<Rightarrow> (st, [], t)) s
      else if name = ''which'' then put_text (builtin_which sys find_builtin args s) s
      else if name = ''pushd'' then builtin_pushd sys args s
      else if name = ''popd'' then builtin_popd sys s
      else if name = ''dirs'' then put_text (0, dirstack_print (sys_getcwd sys) (sh_world s, sh_dirs s)) s
      else if name = ''jobs'' then builtin_jobs sys s
      else if name = ''true'' \<or> name = '':'' then (0, s)
      else if name = ''false'' then (1, s)
      else if name = ''test'' \<or> name = ''['' then (builtin_test sys args (sh_world s), s)
      else if name = ''return'' then put_return (builtin_return args (sh_depth s)) s
      else if name = ''local'' then
        put_local (builtin_local args (sh_depth s) (sh_env s) (sh_locals s)) s
      else if name = ''set'' then builtin_set args s
      else if name = ''trap'' then builtin_trap args s
      else put_sys (sys_builtin sys c s) s)"

definition run_builtin :: "'w sys \<Rightarrow> 'w dispatcher \<Rightarrow> cmd \<Rightarrow> 'w shell \<Rightarrow> ('w, int) run" where
  "run_builtin sys dl c s =
     (let args = argv c; name = hd (argv c) in
      if name = ''exit'' then builtin_exit sys dl args s
      else if name = ''source'' \<or> name = ''.'' then builtin_source sys dl args s
      else if name = ''shift'' then
        (case builtin_shift args (sh_pos s) of
           Out_Of_Bounds \<Rightarrow> Undefined
         | Val (st, p) \<Rightarrow> Ret st (s\<lparr>sh_pos := p\<rparr>))
      else case simple_builtin sys c s of (st, s) \<Rightarrow> Ret st s)"

definition cmd_needs_redir :: "cmd \<Rightarrow> bool" where
  "cmd_needs_redir c \<longleftrightarrow> redir_in c \<noteq> None \<or> here_body c \<noteq> None \<or> here_delim c \<noteq> None \<or>
     redir_out c \<noteq> None \<or> redir_err c \<noteq> None \<or> redir_err_to_out c"

text \<open>What a builtin has written goes to its file when standard output comes back.\<close>

definition restore_output :: "'w sys \<Rightarrow> string option \<Rightarrow> string \<Rightarrow> 'w shell \<Rightarrow> 'w shell" where
  "restore_output sys target old t =
     (case target of
        None \<Rightarrow> t\<lparr>sh_out := old @ sh_out t\<rparr>
      | Some p \<Rightarrow> t\<lparr>sh_out := old, sh_world := sys_write sys p (sh_out t) (sh_world t)\<rparr>)"

fun after_run :: "('w shell \<Rightarrow> 'w shell) \<Rightarrow> ('w, 'a) run \<Rightarrow> ('w, 'a) run" where
  "after_run f (Ret a s) = Ret a (f s)"
| "after_run f (Exits c s) = Exits c (f s)"
| "after_run f No_Fuel = No_Fuel"
| "after_run f Undefined = Undefined"

definition run_builtin_with_redirs ::
  "'w sys \<Rightarrow> 'w dispatcher \<Rightarrow> cmd \<Rightarrow> 'w shell \<Rightarrow> ('w, int) run" where
  "run_builtin_with_redirs sys dl c s =
     (case petrush_apply_redirs sys c (sh_world s) of
        (False, w) \<Rightarrow> Ret 1 (s\<lparr>sh_world := w\<rparr>)
      | (True, w) \<Rightarrow> after_run (restore_output sys (redir_out c) (sh_out s))
          (run_builtin sys dl c (s\<lparr>sh_out := [], sh_world := w\<rparr>)))"

section \<open>Command substitution\<close>

definition cmdsubst_max_depth :: nat where "cmdsubst_max_depth = 2"
definition cmdsubst_max_bytes :: nat where "cmdsubst_max_bytes = 1024 * 1024"

text \<open>The text a child printed, as the C string the shell makes of it.\<close>

definition captured_text :: "string \<Rightarrow> string" where
  "captured_text t = takeWhile (\<lambda>c. c \<noteq> NUL) (take cmdsubst_max_bytes t)"

text \<open>What a child leaves: its output and its effects on the system.  Its status is ignored.\<close>

fun collect_child :: "'w shell \<Rightarrow> ('w, 'a) run \<Rightarrow> ('w, string option) run" where
  "collect_child s (Ret a t) = Ret (Some (captured_text (sh_out t))) (s\<lparr>sh_world := sh_world t\<rparr>)"
| "collect_child s (Exits c t) = Ret (Some (captured_text (sh_out t))) (s\<lparr>sh_world := sh_world t\<rparr>)"
| "collect_child s No_Fuel = No_Fuel"
| "collect_child s Undefined = Undefined"

definition subst_child :: "'w shell \<Rightarrow> 'w shell" where
  "subst_child s = petrush_trap_reset_for_child
     (s\<lparr>sh_cmdsubst_depth := sh_cmdsubst_depth s + 1, sh_out := []\<rparr>)"

definition petrush_run_cmdsubst :: "'w dispatcher \<Rightarrow> string \<Rightarrow> 'w shell \<Rightarrow> ('w, string option) run" where
  "petrush_run_cmdsubst dl inner s =
     (if sh_cmdsubst_depth s \<ge> cmdsubst_max_depth then Ret (Some []) s
      else collect_child s
        (case petrush_parse_list inner of
           None \<Rightarrow> Ret (1, []) (subst_child s)
         | Some l \<Rightarrow> dl l (subst_child s)))"

abbreviation subst_hook :: "'w dispatcher \<Rightarrow> 'w hook" where
  "subst_hook dl \<equiv> Some (petrush_run_cmdsubst dl)"

section \<open>Commands\<close>

definition take_expand_errors :: "'w shell \<Rightarrow> bool \<times> 'w shell" where
  "take_expand_errors s =
     (sh_arith_error s \<or> sh_nounset s,
      s\<lparr>sh_arith_error := False, sh_nounset := False, sh_abort := sh_abort s \<or> sh_nounset s\<rparr>)"

definition enter_fn :: "string list \<Rightarrow> 'w shell \<Rightarrow> 'w shell" where
  "enter_fn args s = s\<lparr>sh_depth := sh_depth s + 1, sh_pos := positional_set (Some (hd args)) (tl args)\<rparr>"

definition leave_fn :: "positional \<Rightarrow> int \<Rightarrow> 'w shell \<Rightarrow> ('w, int) run" where
  "leave_fn saved st s =
     (case local_restore_frame (sh_depth s) (sh_env s) (sh_locals s) of (e, ls) \<Rightarrow>
        Ret (if sh_returning s then sh_return_status s else st)
          (s\<lparr>sh_returning := False, sh_env := e, sh_locals := ls, sh_depth := sh_depth s - 1,
             sh_pos := positional_set (Some (case pos_arg0 saved of None \<Rightarrow> [] | Some a \<Rightarrow> a)) (pos_args saved)\<rparr>))"

definition call_fn :: "'w dispatcher \<Rightarrow> string list \<Rightarrow> plist \<Rightarrow> 'w shell \<Rightarrow> ('w, int) run" where
  "call_fn dl args body s =
     rbind (dl (clone_list body) (enter_fn args s)) (\<lambda>(st, _). leave_fn (sh_pos s) st)"

text \<open>A command whose words are expanded: a function, a builtin, or a program.\<close>

definition run_command :: "'w sys \<Rightarrow> 'w dispatcher \<Rightarrow> cmd \<Rightarrow> 'w shell \<Rightarrow> ('w, int) run" where
  "run_command sys dl c s =
     (case (if argv c = [] then None else fn_get (sh_fns s) (hd (argv c))) of
        Some body \<Rightarrow> call_fn dl (argv c) body s
      | None \<Rightarrow>
          if argv c \<noteq> [] \<and> find_builtin (hd (argv c)) then
            if cmd_needs_redir c then run_builtin_with_redirs sys dl c s else run_builtin sys dl c s
          else rbind (execute_external sys (petrush_traps_poll sys dl) c s) (\<lambda>r. Ret (exec_status r)))"

definition dispatch_command :: "'w sys \<Rightarrow> 'w dispatcher \<Rightarrow> cmd \<Rightarrow> 'w shell \<Rightarrow> ('w, int \<times> cmd) run" where
  "dispatch_command sys dl c s =
     (if argv c = [] then Ret (0, c) s
      else rbind (expand_cmd_argv (subst_hook dl) (sys_readdir sys) c s) (\<lambda>c s.
        case take_expand_errors s of (bad, s) \<Rightarrow>
          if bad then Ret (1, c) s
          else rbind (run_command sys dl c s) (\<lambda>st. Ret (st, c))))"

section \<open>Pipelines\<close>

fun expand_stages :: "'w sys \<Rightarrow> 'w dispatcher \<Rightarrow> cmd list \<Rightarrow> 'w shell \<Rightarrow> ('w, cmd list) run" where
  "expand_stages sys dl [] s = Ret [] s"
| "expand_stages sys dl (c # cs) s =
     rbind (expand_cmd_argv (subst_hook dl) (sys_readdir sys) c s) (\<lambda>c s.
       rbind (expand_stages sys dl cs s) (\<lambda>cs. Ret (c # cs)))"

text \<open>A pipeline of one stage is expanded here and once more by \<open>dispatch_command\<close>.\<close>

definition dispatch_pipeline :: "'w sys \<Rightarrow> 'w dispatcher \<Rightarrow> cmd list \<Rightarrow> 'w shell \<Rightarrow> ('w, int \<times> cmd list) run" where
  "dispatch_pipeline sys dl cs s =
     (if cs = [] then Ret (0, cs) s
      else rbind (expand_stages sys dl cs s) (\<lambda>cs s.
        case take_expand_errors s of (bad, s) \<Rightarrow>
          if bad then Ret (1, cs) s
          else case cs of
            [c] \<Rightarrow> rbind (dispatch_command sys dl c s) (\<lambda>(st, c). Ret (st, [c]))
          | _ \<Rightarrow> rbind (execute_pipeline_with_hook sys (petrush_traps_poll sys dl) find_builtin cs s)
                (\<lambda>r. Ret (exec_status r, cs))))"

definition pipeline_job_label :: "cmd list \<Rightarrow> string" where
  "pipeline_job_label cs =
     (case cs of
        [] \<Rightarrow> ''?''
      | c # rest \<Rightarrow> if argv c = [] then ''?''
                   else join_args (argv c) @ (if rest = [] then [] else '' |...''))"

text \<open>In the background: the child has a copy of the state; the shell keeps the job.\<close>

definition dispatch_pipeline_background :: "'w sys \<Rightarrow> cmd list \<Rightarrow> 'w shell \<Rightarrow> int \<times> 'w shell" where
  "dispatch_pipeline_background sys cs s =
     (let t = job_reap (sys_wait sys (sh_world s)) (sh_jobs s); s = s\<lparr>sh_jobs := t\<rparr> in
      if job_count t \<ge> job_max then (1, s)
      else case sys_spawn sys s cs of
        None \<Rightarrow> (1, s)
      | Some (pid, w) \<Rightarrow> (case job_add pid (pipeline_job_label cs) t of
          None \<Rightarrow> (1, s\<lparr>sh_world := w\<rparr>)
        | Some (i, t') \<Rightarrow> (0, s\<lparr>sh_world := w, sh_jobs := t',
            sh_out := sh_out s @ CHR ''['' # show_nat i @ ''] '' @ show_int pid @ [NL]\<rparr>)))"

section \<open>Compound commands\<close>

definition status_now :: "int \<Rightarrow> 'w shell \<Rightarrow> int" where
  "status_now st s = (if sh_returning s then sh_return_status s else st)"

text \<open>A condition, where a failure does not abort under \<open>set -e\<close>.\<close>

definition run_condition :: "'w dispatcher \<Rightarrow> plist \<Rightarrow> 'w shell \<Rightarrow> ('w, int \<times> plist) run" where
  "run_condition dl l s =
     rbind (dl l (s\<lparr>sh_no_errexit := sh_no_errexit s + 1\<rparr>)) (\<lambda>r s.
       Ret r (s\<lparr>sh_no_errexit := sh_no_errexit s - 1\<rparr>))"

fun dispatch_if :: "'w dispatcher \<Rightarrow> if_arm list \<Rightarrow> 'w shell \<Rightarrow> ('w, int \<times> if_arm list) run" where
  "dispatch_if dl [] s = Ret (0, []) s"
| "dispatch_if dl (If_Arm c b e # arms) s =
     (if e then rbind (dl b s) (\<lambda>(st, b). Ret (st, If_Arm c b e # arms))
      else rbind (run_condition dl c s) (\<lambda>(st, c) s.
        if sh_returning s then Ret (sh_return_status s, If_Arm c b e # arms) s
        else if sh_abort s then Ret (st, If_Arm c b e # arms) s
        else if st = 0 then
          rbind (dl b s) (\<lambda>(st, b) s. Ret (status_now st s, If_Arm c b e # arms) s)
        else rbind (dispatch_if dl arms s) (\<lambda>(st, arms). Ret (st, If_Arm c b e # arms))))"

text \<open>The loop runs the condition and the body as the previous round has left them.\<close>

fun dispatch_while ::
  "nat \<Rightarrow> 'w dispatcher \<Rightarrow> int \<Rightarrow> plist \<Rightarrow> plist \<Rightarrow> 'w shell \<Rightarrow> ('w, int \<times> plist \<times> plist) run" where
  "dispatch_while 0 dl status c b s = No_Fuel"
| "dispatch_while (Suc n) dl status c b s =
     rbind (run_condition dl c s) (\<lambda>(st, c) s.
       if sh_returning s then Ret (sh_return_status s, c, b) s
       else if sh_abort s then Ret (st, c, b) s
       else if st \<noteq> 0 then Ret (status, c, b) s
       else rbind (dl b s) (\<lambda>(st, b) s.
         if sh_returning s then Ret (sh_return_status s, c, b) s
         else if sh_abort s then Ret (st, c, b) s
         else dispatch_while n dl st c b s))"

fun dispatch_for :: "'w dispatcher \<Rightarrow> string \<Rightarrow> plist \<Rightarrow> string list \<Rightarrow> int \<Rightarrow> 'w shell \<Rightarrow> ('w, int) run" where
  "dispatch_for dl name b [] status s = Ret status s"
| "dispatch_for dl name b (w # ws) status s =
     (case petrush_setenv name w (sh_env s) of
        None \<Rightarrow> Ret 1 s
      | Some e \<Rightarrow> rbind (dl (clone_list b) (s\<lparr>sh_env := e\<rparr>)) (\<lambda>(st, _) s.
          if sh_returning s then Ret (sh_return_status s) s
          else if sh_abort s then Ret st s
          else dispatch_for dl name b ws st s))"

fun case_arm_for :: "string \<Rightarrow> case_arm list \<Rightarrow> plist option" where
  "case_arm_for w [] = None"
| "case_arm_for w (Case_Arm ps b # arms) =
     (if list_ex (\<lambda>p. case_pat_match p w) ps then Some b else case_arm_for w arms)"

definition dispatch_case :: "'w dispatcher \<Rightarrow> string \<Rightarrow> case_arm list \<Rightarrow> 'w shell \<Rightarrow> ('w, int) run" where
  "dispatch_case dl w arms s =
     rbind (expand_word (subst_hook dl) w s) (\<lambda>w s.
       case take_expand_errors s of (bad, s) \<Rightarrow>
         if bad then Ret 1 s
         else case case_arm_for w arms of
           None \<Rightarrow> Ret 0 s
         | Some b \<Rightarrow> rbind (dl (clone_list b) s) (\<lambda>(st, _) s. Ret (status_now st s) s))"

definition dispatch_fn_def :: "string \<Rightarrow> plist \<Rightarrow> 'w shell \<Rightarrow> int \<times> 'w shell" where
  "dispatch_fn_def name body s =
     (case fn_set name (clone_list body) (sh_fns s) of None \<Rightarrow> (1, s) | Some t \<Rightarrow> (0, s\<lparr>sh_fns := t\<rparr>))"

fun expand_words :: "'w hook \<Rightarrow> string list \<Rightarrow> 'w shell \<Rightarrow> ('w, string list) run" where
  "expand_words hook [] s = Ret [] s"
| "expand_words hook (w # ws) s =
     rbind (expand_word hook w s) (\<lambda>v s. rbind (expand_words hook ws s) (\<lambda>vs. Ret (v # vs)))"

definition dispatch_dbracket ::
  "'w sys \<Rightarrow> 'w dispatcher \<Rightarrow> string list \<Rightarrow> nat list \<Rightarrow> 'w shell \<Rightarrow> ('w, int) run" where
  "dispatch_dbracket sys dl ws qs s =
     (if ws = [] then Ret 1 s
      else rbind (expand_words (subst_hook dl) ws s) (\<lambda>vs s.
        case take_expand_errors s of (bad, s) \<Rightarrow>
          if bad then Ret 1 s
          else Ret (dbr_eval_expr sys (sh_world s) (zip vs (List.map (\<lambda>q. q \<noteq> 0) qs))) s))"

section \<open>Lists\<close>

definition dispatch_body ::
  "'w sys \<Rightarrow> nat \<Rightarrow> 'w dispatcher \<Rightarrow> item_body \<Rightarrow> bool \<Rightarrow> 'w shell \<Rightarrow> ('w, int \<times> item_body) run" where
  "dispatch_body sys n dl b bg s =
     (case b of
        If_Item arms \<Rightarrow> rbind (dispatch_if dl arms s) (\<lambda>(st, arms). Ret (st, If_Item arms))
      | While_Item c l \<Rightarrow> rbind (dispatch_while n dl 0 c l s) (\<lambda>(st, c, l). Ret (st, While_Item c l))
      | For_Item name ws l \<Rightarrow> rbind (dispatch_for dl name l ws 0 s) (\<lambda>st. Ret (st, b))
      | Case_Item w arms \<Rightarrow> rbind (dispatch_case dl w arms s) (\<lambda>st. Ret (st, b))
      | Dbracket_Item ws qs \<Rightarrow> rbind (dispatch_dbracket sys dl ws qs s) (\<lambda>st. Ret (st, b))
      | Fn_Item name l \<Rightarrow> (case dispatch_fn_def name l s of (st, s) \<Rightarrow> Ret (st, b) s)
      | Pipeline cs \<Rightarrow>
          if bg then (case dispatch_pipeline_background sys cs s of (st, s) \<Rightarrow> Ret (st, b) s)
          else rbind (dispatch_pipeline sys dl cs s) (\<lambda>(st, cs). Ret (st, Pipeline cs)))"

definition andor_not_last :: "plist \<Rightarrow> bool" where
  "andor_not_last rest \<longleftrightarrow> (case rest of [] \<Rightarrow> False | it # _ \<Rightarrow> cond_of it \<noteq> Cond_Always)"

definition maybe_errexit :: "plist \<Rightarrow> int \<Rightarrow> 'w shell \<Rightarrow> 'w shell" where
  "maybe_errexit rest status s =
     (if status = 0 \<or> \<not> shellopt_get (CHR ''e'') (sh_opts s) \<or> sh_no_errexit s > 0 \<or> andor_not_last rest
      then s else s\<lparr>sh_abort := True\<rparr>)"

text \<open>Whether the item is skipped after \<open>&&\<close> or \<open>||\<close>.\<close>

definition short_circuit :: "run_cond \<Rightarrow> int \<Rightarrow> bool" where
  "short_circuit c status \<longleftrightarrow> c = Cond_And \<and> status \<noteq> 0 \<or> c = Cond_Or \<and> status = 0"

fun dispatch_items ::
  "'w sys \<Rightarrow> nat \<Rightarrow> 'w dispatcher \<Rightarrow> bool \<Rightarrow> plist \<Rightarrow> int \<Rightarrow> 'w shell \<Rightarrow> ('w, int \<times> plist) run" where
  "dispatch_items sys n dl first [] status s = Ret (status, []) s"
| "dispatch_items sys n dl first (it # rest) status s =
     (if \<not> first \<and> short_circuit (cond_of it) status then
        rbind (dispatch_items sys n dl False rest status s) (\<lambda>(st, l). Ret (st, it # l))
      else rbind (dispatch_body sys n dl (body_of it) (background it) s) (\<lambda>(st, b) s.
        let it = Item b (cond_of it) (background it); s = s\<lparr>sh_status := st\<rparr> in
        if sh_returning s then Ret (sh_return_status s, it # rest) s
        else let s = maybe_errexit rest st s in
          if sh_abort s then Ret (st, it # rest) s
          else rbind (petrush_traps_poll sys dl s) (\<lambda>_ s.
            rbind (dispatch_items sys n dl False rest st s) (\<lambda>(st, l). Ret (st, it # l)))))"

primrec dispatch_list :: "'w sys \<Rightarrow> nat \<Rightarrow> 'w dispatcher" where
  "dispatch_list sys 0 = (\<lambda>l s. No_Fuel)"
| "dispatch_list sys (Suc n) = (\<lambda>l s. dispatch_items sys n (dispatch_list sys n) True l 0 s)"

declare dispatch_while.simps [simp del] dispatch_items.simps(2) [simp del]

section \<open>A system to run examples on\<close>

text \<open>A system without files and programs, and the run of a line on it.\<close>

definition quiet_sys :: "unit sys" where
  "quiet_sys = \<lparr>sys_readdir = (\<lambda>_ _. None), sys_getcwd = (\<lambda>_. Some ''/''), sys_chdir = (\<lambda>_ _. None),
     sys_executable = (\<lambda>_ _. False), sys_exists = (\<lambda>_ _. False), sys_stat = (\<lambda>_ _. None), sys_uid = 0,
     sys_read_file = (\<lambda>_ _. None), sys_open = (\<lambda>_ w. (True, w)), sys_write = (\<lambda>_ _ w. w),
     sys_exec = (\<lambda>_ _ _ _ _. None), sys_pipeline = (\<lambda>_ _. None), sys_spawn = (\<lambda>_ _. None),
     sys_wait = (\<lambda>_ _. Not_Yet), sys_signals = (\<lambda>w. ([], w)), sys_builtin = (\<lambda>c s. (1, [], sh_env s, ()))\<rparr>"

definition run_line :: "nat \<Rightarrow> string \<Rightarrow> unit shell \<Rightarrow> (unit, int) run" where
  "run_line n t s =
     (case petrush_parse_list t of
        None \<Rightarrow> Undefined
      | Some l \<Rightarrow> rbind (dispatch_list quiet_sys n l s) (\<lambda>(st, _). Ret st))"

fun printed :: "('w, 'a) run \<Rightarrow> string option" where
  "printed (Ret a s) = Some (sh_out s)"
| "printed (Exits c s) = Some (sh_out s)"
| "printed r = None"

end
