(* ===== verification/Fuel.thy ===== *)
theory Fuel
  imports Dispatch
begin

text \<open>
  The number of steps given to the dispatcher only decides whether a run ends: a run that ends
  has the same result with any larger number.
\<close>

section \<open>Runs with more steps\<close>

definition below :: "('w, 'a) run \<Rightarrow> ('w, 'a) run \<Rightarrow> bool" where
  "below r r' \<longleftrightarrow> r = No_Fuel \<or> r' = r"


lemma below_No_Fuel [simp, intro]: "below No_Fuel r"
  by (simp add: below_def)






section \<open>Expansion\<close>









section \<open>The handlers\<close>






end
