(* ===== verification/Frames.thy ===== *)
theory Frames
  imports Dispatch
begin

text \<open>
  What every run of the dispatcher keeps: the tables of the shell stay well formed, and the
  counters and the stack of local values are, at the end of a list, those of its start.
\<close>

section \<open>Well-formed states, and what a run keeps\<close>

definition sane :: "'w shell \<Rightarrow> bool" where
  "sane s \<longleftrightarrow> (\<forall>sv\<in>set (sh_locals s). save_depth sv \<le> sh_depth s) \<and>
     length (sh_locals s) \<le> local_stack_max \<and>
     traps_inv (sh_traps s) \<and> length (sh_pending s) = trap_nsig \<and>
     slots_inv fn_max (sh_fns s) \<and> aliases_inv (sh_aliases s) \<and> job_inv (sh_jobs s) \<and>
     length (sh_dirs s) \<le> dirstack_max \<and> sh_cmdsubst_depth s \<le> cmdsubst_max_depth \<and>
     sh_source_depth s \<le> source_max_depth \<and>
     (sh_returning s \<longrightarrow> 0 < sh_depth s \<and> 0 \<le> sh_return_status s \<and> sh_return_status s < 256)"

text \<open>Saved values of one depth pushed on a stack.\<close>

definition extends :: "nat \<Rightarrow> local_save list \<Rightarrow> local_save list \<Rightarrow> bool" where
  "extends d old l \<longleftrightarrow> (\<exists>new. l = new @ old \<and> (\<forall>sv\<in>set new. save_depth sv = d))"

definition frame :: "'w shell \<Rightarrow> 'w shell \<Rightarrow> bool" where
  "frame s t \<longleftrightarrow> sh_depth t = sh_depth s \<and> sh_no_errexit t = sh_no_errexit s \<and>
     sh_cmdsubst_depth t = sh_cmdsubst_depth s \<and> sh_source_depth t = sh_source_depth s \<and>
     sh_in_poll t = sh_in_poll s \<and> sh_in_exit t = sh_in_exit s \<and> sh_subshell t = sh_subshell s \<and>
     extends (sh_depth s) (sh_locals s) (sh_locals t)"

definition keeps :: "'w shell \<Rightarrow> 'w shell \<Rightarrow> bool" where
  "keeps s t \<longleftrightarrow> sane s \<longrightarrow> sane t \<and> frame s t"

lemma extends_refl [simp]: "extends d st st"
  by (simp add: extends_def)

lemma extends_trans: "extends d a b \<Longrightarrow> extends d b c \<Longrightarrow> extends d a c"
  by (auto simp: extends_def)

lemma extends_Cons: "save_depth sv = d \<Longrightarrow> extends d (sv # st) l \<Longrightarrow> extends d st l"
  by (auto simp: extends_def)

lemma frame_refl [simp]: "frame s s"
  by (simp add: frame_def)

lemma frame_trans: "frame s t \<Longrightarrow> frame t u \<Longrightarrow> frame s u"
  using extends_trans by (fastforce simp: frame_def)

lemma keeps_refl [simp]: "keeps s s"
  by (simp add: keeps_def)

lemma keeps_trans: "keeps s t \<Longrightarrow> keeps t u \<Longrightarrow> keeps s u"
  using frame_trans by (auto simp: keeps_def)

text \<open>A run that starts well formed ends well formed and keeps the frame; an exit status is a
  byte.\<close>

definition within :: "'w shell \<Rightarrow> ('w, 'a) run \<Rightarrow> bool" where
  "within s r \<longleftrightarrow> (case r of Ret a t \<Rightarrow> keeps s t | Exits c t \<Rightarrow> 0 \<le> c \<and> c < 256
      | No_Fuel \<Rightarrow> True | Undefined \<Rightarrow> True)"

lemma within_simps [simp]:
  "within s (Ret a t) \<longleftrightarrow> keeps s t"
  "within s (Exits c t) \<longleftrightarrow> 0 \<le> c \<and> c < 256"
  "within s No_Fuel" "within s Undefined"
  by (simp_all add: within_def)

lemma within_step: "keeps s t \<Longrightarrow> within t r \<Longrightarrow> within s r"
  by (cases r) (auto intro: keeps_trans)

lemma within_bind:
  "within s r \<Longrightarrow> (\<And>a t. r = Ret a t \<Longrightarrow> within t (k a t)) \<Longrightarrow> within s (rbind r k)"
  by (cases r) (auto intro: within_step)

lemma flags_onlyD: "flags_only s t \<Longrightarrow> keeps s t"
  by (cases s; cases t) (auto simp: keeps_def sane_def frame_def flags_only_def)

lemma within_flags: "flags_run lim s r \<Longrightarrow> within s r"
  by (cases r) (simp_all add: flags_onlyD)

text \<open>Rules that follow the shape of a computation.\<close>

lemma within_shape:
  "(P \<Longrightarrow> within s r) \<Longrightarrow> (\<not> P \<Longrightarrow> within s r') \<Longrightarrow> within s (if P then r else r')"
  "(xs = [] \<Longrightarrow> within s r) \<Longrightarrow> (\<And>y ys. xs = y # ys \<Longrightarrow> within s (f y ys)) \<Longrightarrow>
     within s (case xs of [] \<Rightarrow> r | y # ys \<Rightarrow> f y ys)"
  "(x = None \<Longrightarrow> within s r) \<Longrightarrow> (\<And>y. x = Some y \<Longrightarrow> within s (g y)) \<Longrightarrow>
     within s (case x of None \<Rightarrow> r | Some y \<Rightarrow> g y)"
  "(\<And>v t. pr = (v, t) \<Longrightarrow> within s (k v t)) \<Longrightarrow> within s (case pr of (v, t) \<Rightarrow> k v t)"
  by (auto split: list.splits option.splits prod.splits)

text \<open>The state at the start is well formed.\<close>

lemma sane_initial: "sane (initial_shell e w)"
  using alias_clear_inv
  by (simp add: sane_def initial_shell_def job_inv_reset trap_nsig_def slots_inv_def)

section \<open>Expansion\<close>

lemma collect_child_flags: "flags_run True s (collect_child s r)"
  by (cases r) (simp_all add: flags_only_def)

lemma hook_keeps: "hook_returns True (subst_hook dl)"
  by (auto simp: hook_returns_def petrush_run_cmdsubst_def collect_child_flags)

lemma expand_word_keeps: "flags_run True s (expand_word (subst_hook dl) w s)"
  by (rule expand_word_flags [OF expand_params_flags [OF hook_keeps]])

lemma expand_words_keeps: "flags_run True s (expand_words (subst_hook dl) ws s)"
  by (induction ws arbitrary: s) (auto intro!: flags_run_bind expand_word_keeps)

lemma expand_args_keeps: "flags_run True s (expand_args (subst_hook dl) cs s)"
proof (induction cs arbitrary: s)
  case (Cons c cs)
  then show ?case
    by (cases c) (auto intro!: flags_run_bind expand_word_keeps split: token.split)
qed simp

lemma expand_opt_keeps: "flags_run True s (expand_opt (subst_hook dl) x s)"
  by (auto simp: expand_opt_def intro!: flags_run_bind expand_word_keeps split: option.split)

lemma expand_here_keeps: "flags_run True s (expand_here (subst_hook dl) c s)"
  by (auto simp: expand_here_def expand_heredoc_body_def hook_keeps
      intro!: flags_run_bind expand_params_flags split: option.split)

lemma expand_cmd_keeps: "flags_run True s (expand_cmd_argv (subst_hook dl) ls c s)"
  unfolding expand_cmd_argv_def
  by (auto intro!: flags_run_bind expand_args_keeps expand_opt_keeps expand_here_keeps
      split: prod.split)

lemma expand_stages_keeps: "flags_run True s (expand_stages sys dl cs s)"
  by (induction cs arbitrary: s) (auto intro!: flags_run_bind expand_cmd_keeps)

lemma take_errors_keeps: "take_expand_errors s = (b, t) \<Longrightarrow> keeps s t"
  by (auto simp: take_expand_errors_def keeps_def sane_def frame_def)

section \<open>The builtins that run no list\<close>

text \<open>Changes of the state that the invariant does not look at.\<close>

definition plain_change :: "'w shell \<Rightarrow> 'w shell \<Rightarrow> bool" where
  "plain_change s t \<longleftrightarrow>
     t = s\<lparr>sh_env := sh_env t, sh_pos := sh_pos t, sh_opts := sh_opts t, sh_status := sh_status t,
       sh_abort := sh_abort t, sh_out := sh_out t, sh_world := sh_world t\<rparr>"

lemma plain_changeD: "plain_change s t \<Longrightarrow> keeps s t"
  by (cases s; cases t) (auto simp: plain_change_def keeps_def sane_def frame_def)

lemma plain_changes:
  "plain_change s (snd (builtin_cd sys args s))" "plain_change s (snd (builtin_pwd sys s))"
  "plain_change s (snd (builtin_set args s))" "plain_change s (snd (put_text r s))"
  "plain_change s (snd (put_env r' s))" "plain_change s (snd (put_sys r'' s))"
  by (simp_all add: plain_change_def builtin_cd_def builtin_pwd_def builtin_set_def put_text_def
      put_env_def put_sys_def Let_def split: option.split prod.split)

lemma alias_keeps:
  assumes "aliases_inv t"
  shows "aliases_inv (snd (snd (builtin_alias args t)))" "aliases_inv (snd (builtin_unalias args t))"
proof -
  show "aliases_inv (snd (snd (builtin_alias args t)))"
    using builtin_alias_cases [of args t] alias_table.put_inv [OF assms] assms
    by (cases "builtin_alias args t") fastforce
  show "aliases_inv (snd (builtin_unalias args t))"
    using builtin_unalias_cases [of args t] alias_table.del_inv [OF assms] assms
    by (cases "builtin_unalias args t") fastforce
qed

lemma put_alias_keeps:
  assumes "aliases_inv (sh_aliases s) \<Longrightarrow> aliases_inv (snd (snd r))"
  shows "keeps s (snd (put_alias r s))"
  using assms by (cases r) (simp add: put_alias_def keeps_def sane_def frame_def)

lemma alias_builtins_keep:
  "keeps s (snd (put_alias (builtin_alias args (sh_aliases s)) s))"
  "keeps s (snd (put_alias (case builtin_unalias args (sh_aliases s) of (st, t) \<Rightarrow> (st, [], t)) s))"
  using alias_keeps [of "sh_aliases s" args] by (simp_all add: put_alias_keeps split_def)

lemma put_dirs_keeps:
  assumes "length (sh_dirs s) \<le> dirstack_max \<Longrightarrow> length (snd (snd r)) \<le> dirstack_max"
  shows "keeps s (snd (put_dirs r s))"
  using assms by (cases r) (simp add: put_dirs_def keeps_def sane_def frame_def)

lemma dirs_keeps:
  "keeps s (snd (builtin_pushd sys args s))" "keeps s (snd (builtin_popd sys s))"
  by (auto simp: builtin_pushd_def builtin_popd_def dirstack_pushd_def dirstack_popd_def
      intro!: put_dirs_keeps split: if_splits option.splits list.splits)

lemma jobs_keeps: "keeps s (snd (builtin_jobs sys s))"
  using job_inv_step [OF step_prune] job_inv_step [OF step_reap]
  by (simp add: builtin_jobs_def Let_def keeps_def sane_def frame_def)

lemma return_keeps:
  "keeps s (snd (put_return (builtin_return args (sh_depth s)) s))"
  by (simp add: builtin_return_def put_return_def keeps_def sane_def frame_def split: option.split)

lemma local_loop_keeps:
  "local_loop d args ret e st = (rc, e', st') \<Longrightarrow>
     extends d st st' \<and>
     (length st \<le> local_stack_max \<longrightarrow> length st' \<le> local_stack_max)"
proof (induction d args ret e st rule: local_loop.induct)
  case (2 d arg args ret e st)
  have push: "local_push n d e st = Some st1 \<Longrightarrow> \<exists>sv. st1 = sv # st \<and> save_depth sv = d \<and>
      length st1 \<le> local_stack_max" for n st1
    by (auto simp: local_push_def split: if_splits)
  show ?case using 2
    by (auto split: if_splits prod.splits option.splits dest!: push intro: extends_Cons)
qed simp

lemma local_keeps:
  "keeps s (snd (put_local (builtin_local args (sh_depth s) (sh_env s) (sh_locals s)) s))"
proof -
  obtain rc e l where r: "builtin_local args (sh_depth s) (sh_env s) (sh_locals s) = (rc, e, l)"
    by (cases "builtin_local args (sh_depth s) (sh_env s) (sh_locals s)")
  then have "extends (sh_depth s) (sh_locals s) l \<and>
      (length (sh_locals s) \<le> local_stack_max \<longrightarrow> length l \<le> local_stack_max)"
    by (auto simp: builtin_local_def dest: local_loop_keeps split: if_splits)
  then show ?thesis using r by (auto simp: put_local_def keeps_def sane_def frame_def extends_def)
qed

lemma trap_set_keeps: "trap_slot_ok i a \<Longrightarrow> keeps s (trap_set_slot i a s)"
  by (auto simp: trap_set_slot_def keeps_def sane_def frame_def traps_inv_update)

lemma abort_keeps: "keeps s (s\<lparr>sh_abort := a\<rparr>)"
  by (simp add: keeps_def sane_def frame_def)

lemma out_keeps: "keeps s (s\<lparr>sh_out := x\<rparr>)"
  by (simp add: keeps_def sane_def frame_def)

lemma trap_loop_keeps: "a \<noteq> Some ''-'' \<Longrightarrow> keeps s (snd (trap_loop conds a s))"
proof (induction conds a s rule: trap_loop.induct)
  case (2 cond conds a s)
  show ?case
  proof (cases "trap_resolve_cond cond")
    case (Inl e)
    then show ?thesis by (simp add: abort_keeps)
  next
    case (Inr i)
    then have "keeps s (trap_set_slot i a s)"
      using 2 by (simp add: trap_set_keeps trap_slot_ok_def trap_resolve_slot)
    then show ?thesis using 2 Inr keeps_trans by simp
  qed
qed simp

lemma keeps_shape:
  "(P \<Longrightarrow> keeps s (snd r)) \<Longrightarrow> (\<not> P \<Longrightarrow> keeps s (snd r')) \<Longrightarrow> keeps s (snd (if P then r else r'))"
  "keeps s (snd r) \<Longrightarrow> (\<And>y ys. keeps s (snd (f y ys))) \<Longrightarrow>
     keeps s (snd (case xs of [] \<Rightarrow> r | y # ys \<Rightarrow> f y ys))"
  "keeps s (snd (st, s))"
  by (auto split: list.splits)

lemma trap_keeps: "keeps s (snd (builtin_trap args s))"
  unfolding builtin_trap_def Let_def
  by (intro keeps_shape) (simp_all add: abort_keeps out_keeps trap_loop_keeps)

lemma simple_builtin_keeps: "keeps s (snd (simple_builtin sys c s))"
  unfolding simple_builtin_def Let_def
  by (intro keeps_shape plain_changes [THEN plain_changeD] dirs_keeps jobs_keeps return_keeps local_keeps
      trap_keeps alias_builtins_keep)

section \<open>Runs of lists\<close>

text \<open>A run inside a changed state, with the change undone at its end.\<close>

lemma within_around:
  assumes "within u r" and "sane s \<Longrightarrow> sane u"
    and "\<And>a t. sane s \<Longrightarrow> sane t \<Longrightarrow> frame u t \<Longrightarrow> sane (leave a t) \<and> frame s (leave a t)"
  shows "within s (rbind r (\<lambda>a t. Ret (g a t) (leave a t)))"
  using assms by (cases r) (auto simp: keeps_def)

lemma within_env: "within s (Ret a (s\<lparr>sh_env := e\<rparr>))"
  by (simp add: keeps_def sane_def frame_def)

lemma pos_keeps: "keeps s (s\<lparr>sh_pos := p\<rparr>)" "keeps s (s\<lparr>sh_env := e\<rparr>)"
  "keeps s (s\<lparr>sh_status := v\<rparr>)" "keeps s (s\<lparr>sh_world := w\<rparr>)" "keeps s (s\<lparr>sh_out := x, sh_world := w\<rparr>)"
  "keeps s (maybe_errexit rest st s)"
  by (simp_all add: keeps_def sane_def frame_def maybe_errexit_def)

lemma handler_keeps: "keeps s (trap_signal_handler i s)"
  by (simp add: trap_signal_handler_def keeps_def sane_def frame_def)

lemma fold_keeps: "(\<And>i s. keeps s (f i s)) \<Longrightarrow> keeps s (fold f is s)"
  by (induction "is" arbitrary: s) (auto intro: keeps_trans)

lemma take_signals_keeps: "keeps s (take_signals sys s)"
proof -
  have "keeps t (if trap_is_command t i then trap_signal_handler i t else t)" for t i
    by (simp add: handler_keeps)
  then show ?thesis
    unfolding take_signals_def split_def by (rule keeps_trans [OF pos_keeps(4) fold_keeps])
qed

lemma unmark_keeps: "keeps s (s\<lparr>sh_pending := (sh_pending s)[i := b]\<rparr>)"
  by (simp add: keeps_def sane_def frame_def)

lemma fn_def_keeps: "keeps s (snd (dispatch_fn_def name b s))"
  by (auto simp: dispatch_fn_def_def keeps_def sane_def frame_def fn_table.put_inv split: option.split)

lemma background_keeps: "keeps s (snd (dispatch_pipeline_background sys cs s))"
  using job_inv_step [OF step_add] job_inv_step [OF step_reap]
  by (simp add: dispatch_pipeline_background_def Let_def keeps_def sane_def frame_def
      split: option.split prod.split)

lemma restore_keeps:
  "sane (restore_output sys p old t) \<longleftrightarrow> sane t" "frame s (restore_output sys p old t) \<longleftrightarrow> frame s t"
  by (cases p; simp add: restore_output_def sane_def frame_def)+

lemma within_redirs:
  assumes "within (s\<lparr>sh_out := [], sh_world := w\<rparr>) r"
  shows "within s (after_run (restore_output sys p old) r)"
proof -
  have "keeps s (s\<lparr>sh_out := [], sh_world := w\<rparr>)" by (rule pos_keeps)
  from within_step [OF this assms] show ?thesis
    by (cases r) (simp_all add: keeps_def restore_keeps)
qed

lemma enter_sane: "sane s \<Longrightarrow> sane (enter_fn args s)"
  by (auto simp: enter_fn_def sane_def)

text \<open>Leaving a function takes exactly the values that were saved in it.\<close>

lemma restore_extends:
  assumes "extends d old l" and "\<forall>sv\<in>set old. save_depth sv < d"
  shows "snd (local_restore_frame d e l) = old"
proof -
  obtain new where l: "l = new @ old" and new: "\<forall>sv\<in>set new. save_depth sv = d"
    using assms(1) by (auto simp: extends_def)
  have old: "snd (local_restore_frame d e old) = old" for e
    using assms(2) by (cases old) auto
  show ?thesis unfolding l using new old by (induction new arbitrary: e) auto
qed

lemma leave_keeps:
  assumes "sane s" and "sane t" and "frame (enter_fn args s) t" and "leave_fn saved st t = Ret v u"
  shows "sane u" and "frame s u" and "sh_locals u = sh_locals s" and "\<not> sh_returning u"
proof -
  have "snd (local_restore_frame (sh_depth t) e (sh_locals t)) = sh_locals s" for e
    using assms(1,3) by (intro restore_extends) (auto simp: frame_def enter_fn_def sane_def)
  note locals = this
  have u: "sh_locals u = snd (local_restore_frame (sh_depth t) (sh_env t) (sh_locals t))"
    "sh_depth u = sh_depth t - 1" "\<not> sh_returning u"
    "sh_fns u = sh_fns t" "sh_aliases u = sh_aliases t" "sh_jobs u = sh_jobs t" "sh_dirs u = sh_dirs t"
    "sh_traps u = sh_traps t" "sh_pending u = sh_pending t" "sh_cmdsubst_depth u = sh_cmdsubst_depth t"
    "sh_source_depth u = sh_source_depth t" "sh_no_errexit u = sh_no_errexit t"
    "sh_in_poll u = sh_in_poll t" "sh_in_exit u = sh_in_exit t" "sh_subshell u = sh_subshell t"
    using assms(4) by (auto simp: leave_fn_def split: prod.splits)
  then show "sh_locals u = sh_locals s" and "\<not> sh_returning u" using locals by simp_all
  then show "sane u" and "frame s u"
    using assms(1,2,3) u by (simp_all add: frame_def enter_fn_def sane_def)
qed

locale frame_keeper =
  fixes dl :: "'w dispatcher"
  assumes run_list: "within s (dl l s)"
begin

lemma run_action: "within s (run_action dl act s)"
  unfolding run_action_def Let_def
  by (rule within_around [where u = "s\<lparr>sh_no_errexit := sh_no_errexit s + 1\<rparr>"],
      intro within_shape within_bind run_list) (simp_all add: sane_def frame_def)

lemma poll_slots: "within s (poll_slots sys dl is s)"
proof (induction "is" arbitrary: s)
  case (Cons i "is")
  let ?t = "take_signals sys s"
  let ?u = "?t\<lparr>sh_pending := (sh_pending ?t)[i := False]\<rparr>"
  have act: "within ?u (rbind (run_action dl act (?u\<lparr>sh_status := v\<rparr>))
      (\<lambda>_ s'. poll_slots sys dl is (s'\<lparr>sh_status := sh_status ?u\<rparr>)))" for act v
    by (rule within_bind [OF within_step [OF pos_keeps(3) run_action]])
      (rule within_step [OF pos_keeps(3) Cons.IH])
  have "within ?t (poll_slots sys dl is ?u)" by (rule within_step [OF unmark_keeps Cons.IH])
  moreover have "within ?t r" if "within ?u r" for r :: "('w, unit) run"
    by (rule within_step [OF unmark_keeps that])
  ultimately have "within ?t (poll_slots sys dl (i # is) s)"
    using act Cons.IH by (simp add: Let_def split: option.split list.split)
  then show ?case by (rule within_step [OF take_signals_keeps])
qed simp

lemma traps_poll: "within s (petrush_traps_poll sys dl s)"
  unfolding petrush_traps_poll_def
  by (intro within_shape within_around [where u = "s\<lparr>sh_in_poll := True\<rparr>"] poll_slots)
    (simp_all add: sane_def frame_def)

lemma exit_trap: "within s (petrush_run_exit_trap sys dl v s)"
proof -
  have act: "within t (rbind (run_action dl act (t\<lparr>sh_in_exit := True, sh_status := v\<rparr>))
      (\<lambda>_ s. Ret () (s\<lparr>sh_status := v, sh_in_exit := False\<rparr>)))" if "\<not> sh_in_exit t" for act t
    using that by (intro within_around [where u = "t\<lparr>sh_in_exit := True, sh_status := v\<rparr>"] run_action)
      (simp_all add: sane_def frame_def)
  show ?thesis
    unfolding petrush_run_exit_trap_def
    by (rule within_bind [OF traps_poll]) (auto split: option.split list.split intro!: act)
qed

lemma exit_builtin: "within s (builtin_exit sys dl args s)"
  unfolding builtin_exit_def
  by (auto intro!: within_bind [OF exit_trap] split: option.split)

lemma file_loop: "within s (run_file_loop dl t st s)"
proof (induction t arbitrary: st s rule: length_induct)
  case (1 t)
  then have IH: "length t' < length t \<Longrightarrow> within s (run_file_loop dl t' st s)" for t' st s by blast
  show ?case
  proof (cases "fgets_line t")
    case (Some lr)
    then obtain line rest where lr: "fgets_line t = Some (line, rest)" by (cases lr) auto
    have rest: "within s (run_file_loop dl rest st s)" for st s
      using fgets_line_less [OF lr] by (rule IH)
    have after: "within s (if sh_abort s then Ret st (s\<lparr>sh_abort := False\<rparr>)
        else if eof then Ret st s else run_file_loop dl rest' st s)"
      if "fill_heredocs rest l = Filled l' rest' eof" for l l' rest' eof st s
      using fill_heredocs_shrinks [OF that] fgets_line_less [OF lr] by (simp add: IH abort_keeps)
    have run: "within s (if l = [] then Ret st s else rbind (dl l s) (\<lambda>(st, _). Ret st))" for l st s
      by (auto intro!: within_bind [OF run_list])
    have fill: "within s (case fill_heredocs rest l of Fill_Error \<Rightarrow> Ret 1 s
        | Filled l' rest' eof \<Rightarrow>
            rbind (if l' = [] then Ret st s else rbind (dl l' s) (\<lambda>(st, _). Ret st)) (\<lambda>status s.
              if sh_abort s then Ret status (s\<lparr>sh_abort := False\<rparr>)
              else if eof then Ret status s
              else run_file_loop dl rest' status s))" for l st s
      by (cases "fill_heredocs rest l") (simp, simp only: fill.case, rule within_bind [OF run after])
    show ?thesis
      by (subst run_file_loop.simps, unfold lr option.case prod.case Let_def, intro within_shape rest fill)
  qed (simp add: run_file_loop.simps)
qed

lemma run_opened:
  assumes "sh_source_depth s < source_max_depth"
  shows "within s (run_opened dl t s)"
proof -
  have "within (s\<lparr>sh_source_depth := sh_source_depth s + 1\<rparr>)
      (run_file_lines dl t (s\<lparr>sh_source_depth := sh_source_depth s + 1\<rparr>))"
    unfolding run_file_lines_def by (rule within_step [OF abort_keeps file_loop])
  from within_around [OF this, of s "\<lambda>_ t. t\<lparr>sh_source_depth := sh_source_depth t - 1\<rparr>"]
  show ?thesis
    using assms by (simp add: run_opened_def sane_def frame_def)
qed

lemma source_file: "within s (petrush_source_file sys dl path ok s)"
  unfolding petrush_source_file_def by (auto intro!: run_opened split: option.split)

lemma builtin: "within s (run_builtin sys dl c s)"
  unfolding run_builtin_def Let_def builtin_source_def
  by (auto intro: exit_builtin source_file pos_keeps simp: simple_builtin_keeps split_def
      split: mem.split)

lemma redirected: "within s (run_builtin_with_redirs sys dl c s)"
  unfolding run_builtin_with_redirs_def
  by (auto simp: pos_keeps intro!: within_redirs builtin split: prod.split bool.split)

text \<open>A call of a function.\<close>

lemma call_restores:
  assumes "sane s" and "call_fn dl args body s = Ret v u"
  shows "sane u" "frame s u" "sh_locals u = sh_locals s" "\<not> sh_returning u"
proof -
  obtain st l t where t: "dl (clone_list body) (enter_fn args s) = Ret (st, l) t" "leave_fn (sh_pos s) st t = Ret v u"
    using assms(2) by (auto simp: call_fn_def rbind_Ret)
  have "sane t" "frame (enter_fn args s) t"
    using run_list [of "enter_fn args s" "clone_list body"] enter_sane [OF assms(1)] t(1) by (auto simp: keeps_def)
  from leave_keeps [OF assms(1) this t(2)]
  show "sane u" "frame s u" "sh_locals u = sh_locals s" "\<not> sh_returning u" by auto
qed

lemma called: "within s (call_fn dl args body s)"
proof (cases "call_fn dl args body s")
  case (Exits c t)
  then have "dl (clone_list body) (enter_fn args s) = Exits c t"
    by (cases "dl (clone_list body) (enter_fn args s)") (auto simp: call_fn_def leave_fn_def split: prod.splits)
  then show ?thesis using run_list [of "enter_fn args s" "clone_list body"] Exits by simp
qed (auto simp: keeps_def call_restores)

lemma external: "within s (execute_external sys (petrush_traps_poll sys dl) c s)"
  unfolding execute_external_def
  by (auto intro!: within_bind [OF within_step [OF pos_keeps(5) traps_poll]] split: list.split option.split prod.split)

lemma pipeline_run: "within s (execute_pipeline_with_hook sys (petrush_traps_poll sys dl) p cs s)"
  unfolding execute_pipeline_with_hook_def
  by (auto intro!: external within_bind [OF within_step [OF pos_keeps(5) traps_poll]]
      split: list.split option.split prod.split)

lemma command: "within s (run_command sys dl c s)"
  unfolding run_command_def
  by (auto intro!: called redirected builtin within_bind [OF external] split: option.split)

lemma errors_then:
  assumes "\<And>t. within t (k t)"
  shows "within s (case take_expand_errors s of (bad, t) \<Rightarrow> if bad then Ret a t else k t)"
  using take_errors_keeps [of s] within_step [OF _ assms] by (auto split: prod.split)

lemma dispatch_command: "within s (dispatch_command sys dl c s)"
  unfolding dispatch_command_def
  by (auto intro!: within_bind [OF within_flags [OF expand_cmd_keeps]] errors_then within_bind [OF command])

lemma dispatch_pipeline: "within s (dispatch_pipeline sys dl cs s)"
  unfolding dispatch_pipeline_def
  by (auto intro!: within_bind [OF within_flags [OF expand_stages_keeps]] errors_then
      within_bind [OF dispatch_command] within_bind [OF pipeline_run] split: list.split)

lemma condition: "within s (run_condition dl l s)"
  unfolding run_condition_def
  by (rule within_around [OF run_list]) (simp_all add: sane_def frame_def)

lemma dispatch_if: "within s (dispatch_if dl arms s)"
proof (induction arms arbitrary: s)
  case (Cons a arms)
  then show ?case
    by (cases a) (auto intro!: within_bind [OF condition] within_bind [OF run_list] within_bind [OF Cons])
qed simp

lemma dispatch_while: "within s (dispatch_while n dl st c b s)"
  by (induction n arbitrary: st c b s)
    (auto simp: dispatch_while.simps intro!: within_bind [OF condition] within_bind [OF run_list])

lemma dispatch_for: "within s (dispatch_for dl name b ws st s)"
proof (induction ws arbitrary: st s)
  case (Cons w ws)
  then show ?case
    by (auto intro!: within_bind [OF within_step [OF pos_keeps(2) run_list]] split: option.split)
qed simp

lemma dispatch_case: "within s (dispatch_case dl w arms s)"
  unfolding dispatch_case_def
  by (intro within_bind [OF within_flags [OF expand_word_keeps]] errors_then)
    (auto intro!: within_bind [OF run_list] split: option.split)

lemma dispatch_dbracket: "within s (dispatch_dbracket sys dl ws qs s)"
  unfolding dispatch_dbracket_def
  by (auto intro!: within_bind [OF within_flags [OF expand_words_keeps]] errors_then)

lemma dispatch_body: "within s (dispatch_body sys n dl b bg s)"
  unfolding dispatch_body_def
  by (auto simp: split_def fn_def_keeps background_keeps
      intro!: within_bind [OF dispatch_if] within_bind [OF dispatch_while] within_bind [OF dispatch_for]
        within_bind [OF dispatch_case] within_bind [OF dispatch_dbracket] within_bind [OF dispatch_pipeline]
      split: item_body.split)

lemma dispatch_items: "within s (dispatch_items sys n dl first l st s)"
proof (induction l arbitrary: first st s)
  case (Cons it l)
  have later: "within s (rbind (petrush_traps_poll sys dl s) (\<lambda>_ s.
      rbind (dispatch_items sys n dl False l st s) (\<lambda>(st, l). Ret (st, it # l))))" for st s it
    by (auto intro!: within_bind [OF traps_poll] within_bind [OF Cons.IH])
  have stop: "keeps s (maybe_errexit l st (s\<lparr>sh_status := st\<rparr>))" for s st
    by (rule keeps_trans [OF pos_keeps(3) pos_keeps(6)])
  show ?case
    by (subst dispatch_items.simps)
      (auto simp: Let_def pos_keeps stop intro!: within_bind [OF Cons.IH] within_bind [OF dispatch_body]
        within_step [OF stop later])
qed simp

end

text \<open>The dispatcher itself keeps the frame, for every number of steps.\<close>

lemma dispatch_list_within: "within s (dispatch_list sys n l s)"
proof (induction n arbitrary: s l)
  case (Suc n)
  show ?case using frame_keeper.dispatch_items [OF frame_keeper.intro [OF Suc]] by simp
qed simp

interpretation dispatch: frame_keeper "dispatch_list sys n" for sys n
  by unfold_locales (rule dispatch_list_within)

text \<open>
  C11. What a list of commands leaves. From a well-formed state, every run of the dispatcher that
  returns leaves a well-formed state: the tables of functions, aliases and jobs keep their
  invariants, the stacks and nestings their limits, the traps their slots. The depth of
  functions, the nesting of substitutions and files, the exemption from \<open>set -e\<close> and the marks
  of running traps are those of the start, and the stack of local values has only grown by
  values of the current function. In particular no action is ever set for \<open>KILL\<close>, \<open>STOP\<close> or
  \<open>CHLD\<close>. A run that ends the shell does so with a status of one byte.
\<close>

theorem dispatch_keeps_frame:
  assumes "sane s"
  shows "case dispatch_list sys n l s of Ret r t \<Rightarrow> sane t \<and> frame s t
    | Exits c t \<Rightarrow> 0 \<le> c \<and> c < 256 | No_Fuel \<Rightarrow> True | Undefined \<Rightarrow> True"
  using dispatch.run_list [of s sys n l] assms by (cases "dispatch_list sys n l s") (auto simp: keeps_def)

theorem dispatch_keeps_frame_witness:
  "\<exists>t. dispatch_list quiet_sys 2 [Item (Pipeline [cmd_zero\<lparr>argv := [''local'', ''X'']\<rparr>]) Cond_Always False]
     ((initial_shell [] ())\<lparr>sh_depth := 1\<rparr>) =
     Ret (0, [Item (Pipeline [cmd_zero\<lparr>argv := [''local'', ''X'']\<rparr>]) Cond_Always False]) t \<and>
   sane t \<and> frame ((initial_shell [] ())\<lparr>sh_depth := 1\<rparr>) t \<and> length (sh_locals t) = 1"
proof -
  let ?l = "[Item (Pipeline [cmd_zero\<lparr>argv := [''local'', ''X'']\<rparr>]) Cond_Always False]"
  let ?s = "(initial_shell [] ())\<lparr>sh_depth := 1\<rparr> :: unit shell"
  have sane: "sane ?s" using sane_initial [of "[]" "()"] by (simp add: sane_def initial_shell_def trap_nsig_def)
  have "case dispatch_list quiet_sys 2 ?l ?s of Ret r t \<Rightarrow> r = (0, ?l) \<and> length (sh_locals t) = 1
      | _ \<Rightarrow> False" by code_simp
  then show ?thesis using dispatch_keeps_frame [OF sane, of quiet_sys 2 ?l]
    by (auto split: run.splits)
qed

lemma leave_positional:
  "leave_fn saved st t = Ret v u \<Longrightarrow>
    sh_pos u = positional_set (Some (case pos_arg0 saved of None \<Rightarrow> [] | Some a \<Rightarrow> a)) (pos_args saved)"
  by (auto simp: leave_fn_def split: prod.splits)

text \<open>
  C12. What a call of a function gives back. Whatever the body does, a call that returns leaves
  the caller's positional parameters, its local values and its depth as they were, and no
  \<open>return\<close> pending.
\<close>

theorem call_gives_back:
  assumes "sane s" and "call_fn (dispatch_list sys n) args body s = Ret v t"
  shows "pos_args (sh_pos t) = pos_args (sh_pos s) \<and>
    positional_text 0 (sh_pos t) = positional_text 0 (sh_pos s) \<and>
    sh_locals t = sh_locals s \<and> sh_depth t = sh_depth s \<and> \<not> sh_returning t"
proof -
  note keep = dispatch.call_restores [OF assms]
  have "sh_pos t = positional_set (Some (case pos_arg0 (sh_pos s) of None \<Rightarrow> [] | Some a \<Rightarrow> a)) (pos_args (sh_pos s))"
    using assms(2) leave_positional by (auto simp: call_fn_def rbind_Ret)
  then show ?thesis
    using keep by (simp add: frame_def positional_set_def positional_text_def positional_get_def)
qed

theorem call_gives_back_witness:
  "\<exists>t. call_fn (dispatch_list quiet_sys 2) [''f'', ''a'', ''b'']
     [Item (Pipeline [cmd_zero\<lparr>argv := [''local'', ''X=1'']\<rparr>]) Cond_Always False,
      Item (Pipeline [cmd_zero\<lparr>argv := [''shift'']\<rparr>]) Cond_Always False,
      Item (Pipeline [cmd_zero\<lparr>argv := [''return'', ''3'']\<rparr>]) Cond_Always False]
     ((initial_shell [(''X'', ''0'')] ())\<lparr>sh_pos := positional_set (Some ''petrush'') [''p'']\<rparr>) = Ret 3 t \<and>
   pos_args (sh_pos t) = [''p''] \<and> sh_locals t = [] \<and> sh_env t = [(''X'', ''0'')]"
proof -
  let ?b = "[Item (Pipeline [cmd_zero\<lparr>argv := [''local'', ''X=1'']\<rparr>]) Cond_Always False,
      Item (Pipeline [cmd_zero\<lparr>argv := [''shift'']\<rparr>]) Cond_Always False,
      Item (Pipeline [cmd_zero\<lparr>argv := [''return'', ''3'']\<rparr>]) Cond_Always False]"
  let ?s = "(initial_shell [(''X'', ''0'')] ())\<lparr>sh_pos := positional_set (Some ''petrush'') [''p'']\<rparr> :: unit shell"
  have sane: "sane ?s" using sane_initial [of "[(''X'', ''0'')]" "()"]
    by (simp add: sane_def initial_shell_def trap_nsig_def)
  have "case call_fn (dispatch_list quiet_sys 2) [''f'', ''a'', ''b''] ?b ?s of
      Ret v t \<Rightarrow> v = 3 \<and> sh_env t = [(''X'', ''0'')] | _ \<Rightarrow> False" by code_simp
  then obtain t where t: "call_fn (dispatch_list quiet_sys 2) [''f'', ''a'', ''b''] ?b ?s = Ret 3 t"
    "sh_env t = [(''X'', ''0'')]" by (auto split: run.splits)
  show ?thesis using call_gives_back [OF sane t(1)] t
    by (simp add: positional_set_def initial_shell_def)
qed

end
