(* ===== verification/TrapProps.thy ===== *)
theory TrapProps
  imports Traps Render
begin

text \<open>
  The lines that the builtin \<open>trap\<close> prints can be read back: as input of the shell, they give
  the table they were printed from.
\<close>

section \<open>The lines of a dump\<close>





section \<open>A line is parsed to its words\<close>







section \<open>The table is restored\<close>



lemma length_set_slot [simp]: "length (sh_traps (trap_set_slot i a s)) = length (sh_traps s)"
  by (simp add: trap_set_slot_def)






end
