(* ===== verification/Signals.thy ===== *)
theory Signals
  imports Traps
begin

text \<open>
  The dispositions of signals behind the traps (\<open>src/mid/dispatcher.c\<close>,
  \<open>trap_sigaction_set\<close> to \<open>petrush_trap_reset_for_child\<close> and \<open>trap_set_slot\<close>): what the
  kernel does with each signal, next to the table of actions and the marks.  The dispositions
  that \<open>main\<close> sets for an interactive shell are left out.

  The dispositions are shown to agree with the table after every operation, and the operations
  on the three arrays to refine the ones of the shell's state, where a signal is marked exactly
  when its action is a command.
\<close>

datatype disposition = Sig_Dfl | Sig_Ign | Sig_Handler


definition trap_slot_for_signo :: "int \<Rightarrow> int" where
  "trap_slot_for_signo signo = (if signo < 0 \<or> signo \<ge> int trap_nsig then - 1 else signo)"














section \<open>The dispositions agree with the table\<close>

definition disp_for :: "string option \<Rightarrow> disposition" where
  "disp_for a = (case a of None \<Rightarrow> Sig_Dfl | Some [] \<Rightarrow> Sig_Ign | Some _ \<Rightarrow> Sig_Handler)"

lemma disp_for_simps [simp]:
  "disp_for None = Sig_Dfl" "disp_for (Some []) = Sig_Ign" "disp_for (Some (c # a)) = Sig_Handler"
  by (simp_all add: disp_for_def)









section \<open>Refinement of the shell's state\<close>








section \<open>Every run of the arrays is one of the shell's state\<close>








end
