(* ===== verification/Semantics.thy ===== *)
theory Semantics
  imports Fuel Frames
begin

text \<open>
  What lists and compound commands mean: lists as and-or chains, the choice of \<open>case\<close>, the
  isolation of command substitution, and two behaviours that come from writing the results of
  expansion into the list: a value is expanded again, and a \<open>while\<close> loop keeps its first words.
\<close>

section \<open>And-or lists\<close>

text \<open>The reference: a list is a sequence of chains, a chain groups to the left.\<close>

datatype andor = One list_item | And andor list_item | Or andor list_item

fun chains_from :: "andor \<Rightarrow> plist \<Rightarrow> andor list" where
  "chains_from a [] = [a]"
| "chains_from a (it # l) =
     (case cond_of it of
        Cond_Always \<Rightarrow> a # chains_from (One it) l
      | Cond_And \<Rightarrow> chains_from (And a it) l
      | Cond_Or \<Rightarrow> chains_from (Or a it) l)"

fun chains :: "plist \<Rightarrow> andor list" where
  "chains [] = []"
| "chains (it # l) = chains_from (One it) l"

text \<open>One command: the first component tells that the list stops here.  Under \<open>set -e\<close> a failure
  stops it only when the command is the last of its chain.\<close>

definition run_one :: "'w sys \<Rightarrow> nat \<Rightarrow> 'w dispatcher \<Rightarrow> bool \<Rightarrow> list_item \<Rightarrow> 'w shell \<Rightarrow> ('w, bool \<times> int) run" where
  "run_one sys n dl fin it s =
     rbind (dispatch_body sys n dl (body_of it) (background it) s) (\<lambda>(st, _) s.
       let s = s\<lparr>sh_status := st\<rparr> in
       if sh_returning s then Ret (True, sh_return_status s) s
       else if fin \<and> st \<noteq> 0 \<and> opt_e (sh_opts s) \<and> sh_no_errexit s = 0
         then Ret (True, st) (s\<lparr>sh_abort := True\<rparr>)
       else if sh_abort s then Ret (True, st) s
       else rbind (petrush_traps_poll sys dl s) (\<lambda>_ s. Ret (False, st) s))"

fun run_andor :: "'w sys \<Rightarrow> nat \<Rightarrow> 'w dispatcher \<Rightarrow> bool \<Rightarrow> andor \<Rightarrow> 'w shell \<Rightarrow> ('w, bool \<times> int) run" where
  "run_andor sys n dl fin (One it) s = run_one sys n dl fin it s"
| "run_andor sys n dl fin (And a it) s = rbind (run_andor sys n dl False a s) (\<lambda>(stop, st) s.
     if stop \<or> st \<noteq> 0 then Ret (stop, st) s else run_one sys n dl fin it s)"
| "run_andor sys n dl fin (Or a it) s = rbind (run_andor sys n dl False a s) (\<lambda>(stop, st) s.
     if stop \<or> st = 0 then Ret (stop, st) s else run_one sys n dl fin it s)"

fun run_chains :: "'w sys \<Rightarrow> nat \<Rightarrow> 'w dispatcher \<Rightarrow> andor list \<Rightarrow> int \<Rightarrow> 'w shell \<Rightarrow> ('w, int) run" where
  "run_chains sys n dl [] status s = Ret status s"
| "run_chains sys n dl (a # as) status s = rbind (run_andor sys n dl True a s) (\<lambda>(stop, st) s.
     if stop then Ret st s else run_chains sys n dl as st s)"

definition items_status :: "'w sys \<Rightarrow> nat \<Rightarrow> 'w dispatcher \<Rightarrow> bool \<Rightarrow> plist \<Rightarrow> int \<Rightarrow> 'w shell \<Rightarrow> ('w, int) run" where
  "items_status sys n dl first l st s = rbind (dispatch_items sys n dl first l st s) (\<lambda>(st, _). Ret st)"

abbreviation go_on where
  "go_on sys n dl l \<equiv> (\<lambda>(stop, st) s. if stop then Ret st s else items_status sys n dl False l st s)"

lemma rbind_both:
  "(\<And>a s. rbind (f a s) g = rbind (h a s) k) \<Longrightarrow> rbind (rbind r f) g = rbind (rbind r h) k"
  by (simp add: rbind_assoc)

lemma rbind_then:
  "(\<And>a s. k a s = rbind (f a s) g) \<Longrightarrow> rbind r k = rbind (rbind r f) g"
  by (cases r) simp_all

lemma items_status_Nil: "items_status sys n dl first [] st s = Ret st s"
  by (simp add: items_status_def)

lemma items_status_Cons:
  "items_status sys n dl first (it # l) st s =
     (if \<not> first \<and> short_circuit (cond_of it) st then items_status sys n dl False l st s
      else rbind (run_one sys n dl (\<not> andor_not_last l) it s) (go_on sys n dl l))"
proof (cases "\<not> first \<and> short_circuit (cond_of it) st")
  case True
  then show ?thesis by (simp add: items_status_def dispatch_items.simps rbind_assoc split_def)
next
  case False
  have "items_status sys n dl first (it # l) st s =
      rbind (run_one sys n dl (\<not> andor_not_last l) it s) (go_on sys n dl l)"
    unfolding items_status_def run_one_def dispatch_items.simps if_not_P [OF False]
    by (rule rbind_both)
      (auto simp: Let_def split_def maybe_errexit_def shellopt_get_def rbind_assoc items_status_def)
  with False show ?thesis by auto
qed

lemma run_chains_from:
  "rbind (run_andor sys n dl (\<not> andor_not_last l) a s) (go_on sys n dl l) =
   run_chains sys n dl (chains_from a l) st0 s"
proof (induction a l arbitrary: s st0 rule: chains_from.induct)
  case (1 a)
  then show ?case by (simp add: andor_not_last_def items_status_Nil split_def cong: if_cong)
next
  case (2 a it l)
  show ?case
  proof (cases "cond_of it")
    case Cond_Always
    have "rbind (run_andor sys n dl (\<not> andor_not_last (it # l)) a s) (go_on sys n dl (it # l)) =
        rbind (run_andor sys n dl True a s) (\<lambda>(stop, st) s.
          if stop then Ret st s else run_chains sys n dl (chains_from (One it) l) st s)"
      using 2(1) [OF Cond_Always] Cond_Always
      by (intro arg_cong2 [where f = rbind] ext) (auto simp: andor_not_last_def items_status_Cons short_circuit_def)
    then show ?thesis by (simp add: Cond_Always)
  next
    case Cond_And
    show ?thesis
      unfolding chains_from.simps Cond_And run_cond.case 2(2) [OF Cond_And, symmetric] run_andor.simps
      by (simp add: andor_not_last_def Cond_And, rule rbind_then)
        (auto simp: items_status_Cons Cond_And short_circuit_def andor_not_last_def)
  next
    case Cond_Or
    show ?thesis
      unfolding chains_from.simps Cond_Or run_cond.case 2(3) [OF Cond_Or, symmetric] run_andor.simps
      by (simp add: andor_not_last_def Cond_Or, rule rbind_then)
        (auto simp: items_status_Cons Cond_Or short_circuit_def andor_not_last_def)
  qed
qed

text \<open>
  C1. The meaning of a list. The runner, which walks once over the flat list of commands with
  their connectors, computes what the reference computes on the chains: \<open>&&\<close> and \<open>||\<close> have
  equal rank and group to the left, a skipped command leaves the status, and under \<open>set -e\<close> only
  a failure of the last command of a chain, outside a condition, stops the shell.
\<close>

theorem list_is_chains:
  "rbind (dispatch_list sys (Suc n) l s) (\<lambda>(st, _). Ret st) =
   run_chains sys n (dispatch_list sys n) (chains l) 0 s"
proof (cases l)
  case (Cons it l')
  then show ?thesis
    using items_status_Cons [of sys n "dispatch_list sys n" True it l' 0 s]
      run_chains_from [of sys n "dispatch_list sys n" l' "One it" s 0]
    by (simp add: items_status_def)
qed simp

section \<open>The choice of \<open>case\<close>\<close>

fun arm_matches :: "string \<Rightarrow> case_arm \<Rightarrow> bool" where
  "arm_matches w (Case_Arm ps b) \<longleftrightarrow> (\<exists>p\<in>set ps. globs p w)"

fun chosen_body :: "case_arm \<Rightarrow> plist" where
  "chosen_body (Case_Arm ps b) = b"

lemma case_arm_for_find: "case_arm_for w arms = map_option chosen_body (List.find (arm_matches w) arms)"
  by (induction w arms rule: case_arm_for.induct) (auto simp: list_ex_iff case_word.decides)

text \<open>
  The choice of \<open>case\<close>: the word is expanded once; of the arms, the body of the first one
  with a pattern that describes the whole word is run, and its status is the result; without
  such an arm nothing is run and the status is 0. An error in the expansion is status 1.
\<close>

theorem case_first_match:
  "dispatch_case dl w arms s = rbind (expand_word (subst_hook dl) w s) (\<lambda>v s.
     case take_expand_errors s of (bad, s) \<Rightarrow>
       if bad then Ret 1 s
       else case List.find (arm_matches v) arms of
         None \<Rightarrow> Ret 0 s
       | Some a \<Rightarrow> rbind (dl (clone_list (chosen_body a)) s) (\<lambda>(st, _) s. Ret (status_now st s) s))"
  unfolding dispatch_case_def case_arm_for_find
  by (intro arg_cong2 [where f = rbind] ext) (auto split: option.split prod.split)

section \<open>Command substitution\<close>



section \<open>A value is expanded again\<close>










section \<open>A loop keeps its first words\<close>













end
