(* ===== verification/Statuses.thy ===== *)
theory Statuses
  imports Frames
begin

text \<open>
  The status of a list is a byte, when the statuses that come from outside the modelled code are.
\<close>

section \<open>What is asked of the system\<close>

definition byte :: "int \<Rightarrow> bool" where
  "byte v \<longleftrightarrow> 0 \<le> v \<and> v < 256"

text \<open>The builtins that are not modelled give a byte, and a wait status of a stopped process
  carries a signal number, which is below 128.\<close>

definition wait_status_ok :: "nat \<Rightarrow> bool" where
  "wait_status_ok st \<longleftrightarrow> st mod 256 \<noteq> 127 \<or> st div 256 mod 256 < 128"

definition byte_system :: "'w sys \<Rightarrow> bool" where
  "byte_system sys \<longleftrightarrow> (\<forall>c s. byte (fst (sys_builtin sys c s))) \<and>
     (\<forall>exe args e rs w. case sys_exec sys exe args e rs w of None \<Rightarrow> True | Some (st, _) \<Rightarrow> wait_status_ok st) \<and>
     (\<forall>s cs. case sys_pipeline sys s cs of None \<Rightarrow> True | Some (st, _) \<Rightarrow> wait_status_ok st)"

lemma byte_systemD:
  assumes "byte_system sys"
  shows "sys_exec sys exe args e rs w = Some (st, r) \<Longrightarrow> wait_status_ok st"
    and "sys_pipeline sys s cs = Some (st, r) \<Longrightarrow> wait_status_ok st"
proof -
  have "case sys_exec sys exe args e rs w of None \<Rightarrow> True | Some (st, _) \<Rightarrow> wait_status_ok st"
    "case sys_pipeline sys s cs of None \<Rightarrow> True | Some (st, _) \<Rightarrow> wait_status_ok st"
    using assms unfolding byte_system_def by blast+
  then show "sys_exec sys exe args e rs w = Some (st, r) \<Longrightarrow> wait_status_ok st"
    and "sys_pipeline sys s cs = Some (st, r) \<Longrightarrow> wait_status_ok st" by simp_all
qed

lemma byte_numerals [simp]: "byte 0" "byte 1" "byte 2" "byte 126" "byte 127"
  by (simp_all add: byte_def)

lemma byte_mod [simp]: "byte (v mod 256)"
  by (simp add: byte_def)

lemma status_code_byte: "wait_status_ok st \<Longrightarrow> status_to_code st < 256"
proof -
  assume "wait_status_ok st"
  moreover have "st mod 128 < 128" "st div 256 mod 256 < 256" by simp_all
  ultimately show ?thesis
    by (auto simp: wait_status_ok_def status_to_code_def simp del: mod_less_divisor)
qed

section \<open>The builtins\<close>

lemma truth_byte [simp]: "byte (truth b)"
  by (simp add: truth_def)

lemma test_byte [simp]: "byte (feat_test_unary sys w opr x)" "byte (feat_test_binary l opr r)"
  by (simp_all add: feat_test_unary_def feat_test_binary_def split: option.split)

lemma builtin_test_byte [simp]: "byte (builtin_test sys args w)"
  unfolding builtin_test_def by (simp split: list.split)

lemma dbr_term_byte: "dbr_eval_term sys w ts = (st, rest) \<Longrightarrow> byte st"
  by (auto simp: dbr_eval_term_def dbr_eval_primary_def dbr_str_cmp_def Let_def
      split: prod.splits if_splits)

lemma dbr_rest_byte: "byte st \<Longrightarrow> byte (dbr_eval_rest sys w st ts)"
proof (induction sys w st ts rule: dbr_eval_rest.induct)
  case (2 sys w st x q ts)
  show ?case
  proof (cases "dbr_eval_term sys w ts")
    case (Pair r rest)
    then show ?thesis using 2 dbr_term_byte [OF Pair] by (auto split: option.split)
  qed
qed simp

lemma dbr_byte: "byte (dbr_eval_expr sys w ts)"
  by (auto simp: dbr_eval_expr_def split: prod.split intro: dbr_rest_byte dbr_term_byte)

lemma export_loop_byte: "byte ret \<Longrightarrow> byte (fst (export_loop args ret e))"
  by (induction args ret e rule: export_loop.induct) (auto split: prod.split)

lemma unset_loop_byte: "byte ret \<Longrightarrow> byte (fst (unset_loop args ret e))"
  by (induction args ret e rule: unset_loop.induct) (auto split: option.split)

lemma local_loop_byte: "byte ret \<Longrightarrow> byte (fst (local_loop d args ret e st))"
  by (induction d args ret e st rule: local_loop.induct) (auto split: prod.split option.split)

lemma trap_loop_byte: "byte (fst (trap_loop conds a s))"
  by (induction conds a s rule: trap_loop.induct) (auto split: sum.split)

lemma alias_store_byte: "byte (fst (alias_store n v t))"
  by (simp add: alias_store_def split: option.split)

lemma put_fst [simp]:
  "fst (put_text r s) = fst r" "fst (put_env r' s) = fst r'" "fst (put_local l s) = fst l"
  "fst (put_return v s) = fst v" "fst (put_alias al s) = fst al" "fst (put_sys y s) = fst y"
  by (simp_all add: put_text_def put_env_def put_local_def put_return_def put_alias_def put_sys_def
      split: prod.split option.split)

lemma builtin_bytes:
  "byte (fst (builtin_cd sys args s))" "byte (fst (builtin_pwd sys s))"
  "byte (fst (builtin_which sys p args s))" "byte (fst (builtin_set args s))"
  "byte (fst (builtin_export args e))" "byte (fst (builtin_unset args e))"
  "byte (fst (builtin_local args d e ls))" "byte (fst (builtin_return args d))"
  "byte (fst (builtin_pushd sys args s))" "byte (fst (builtin_popd sys s))" "byte (fst (builtin_jobs sys s))"
  by (auto simp: builtin_cd_def builtin_pwd_def builtin_which_def builtin_set_def builtin_export_def
      builtin_unset_def builtin_local_def builtin_return_def builtin_pushd_def builtin_popd_def
      builtin_jobs_def put_dirs_def Let_def export_loop_byte unset_loop_byte local_loop_byte
      split: option.split prod.split list.split)

lemma alias_bytes: "byte (fst (builtin_alias args t))"
  "byte (fst (case builtin_unalias args t of (st, u) \<Rightarrow> (st, [], u)))"
  by (auto simp: builtin_alias_def builtin_unalias_def alias_store_byte Let_def
      split: option.split prod.split list.split)

lemma trap_byte: "byte (fst (builtin_trap args s))"
  by (auto simp: builtin_trap_def Let_def trap_loop_byte simp del: trap_loop.simps split: list.split)

lemma byte_if: "byte (fst a) \<Longrightarrow> byte (fst b) \<Longrightarrow> byte (fst (if P then a else b))"
  by simp

lemma simple_builtin_byte:
  assumes "byte_system sys"
  shows "byte (fst (simple_builtin sys c s))"
proof -
  have "byte (fst (sys_builtin sys c s))" using assms by (simp add: byte_system_def)
  then show ?thesis
    unfolding simple_builtin_def Let_def by (intro byte_if) (simp_all add: builtin_bytes alias_bytes trap_byte)
qed

section \<open>Runs\<close>

text \<open>A run that keeps the state well formed and whose result, read by \<open>f\<close>, is a byte.\<close>

definition gives :: "'w sys \<Rightarrow> 'w shell \<Rightarrow> ('a \<Rightarrow> int) \<Rightarrow> ('w, 'a) run \<Rightarrow> bool" where
  "gives sys s f r \<longleftrightarrow>
     (byte_system sys \<and> sane s \<longrightarrow> within s r \<and> (\<forall>a t. r = Ret a t \<longrightarrow> byte (f a)))"

lemma gives_system: "(byte_system sys \<Longrightarrow> sane s \<Longrightarrow> gives sys s f r) \<Longrightarrow> gives sys s f r"
  by (auto simp: gives_def)

lemma gives_Ret: "keeps s t \<Longrightarrow> (sane s \<Longrightarrow> byte (f a)) \<Longrightarrow> gives sys s f (Ret a t)"
  by (simp add: gives_def)

lemma gives_other [simp]: "gives sys s f No_Fuel" "gives sys s f Undefined"
  by (simp_all add: gives_def)

lemma keepsD: "keeps s t \<Longrightarrow> sane s \<Longrightarrow> sane t"
  by (simp add: keeps_def)

lemma gives_step: "keeps s t \<Longrightarrow> gives sys t f r \<Longrightarrow> gives sys s f r"
  by (auto simp: gives_def intro: within_step dest: keepsD)

lemma gives_bind:
  assumes "gives sys s f r" and "\<And>a t. r = Ret a t \<Longrightarrow> byte (f a) \<Longrightarrow> gives sys t g (k a t)"
  shows "gives sys s g (rbind r k)"
proof (cases r)
  case (Ret a t)
  have "gives sys s g (k a t)"
  proof (cases "byte_system sys \<and> sane s")
    case True
    with assms Ret show ?thesis by (intro gives_step [of s t]) (auto simp: gives_def)
  qed (auto simp: gives_def)
  with Ret show ?thesis by simp
qed (use assms(1) in \<open>simp_all add: gives_def\<close>)

lemma gives_any: "within s r \<Longrightarrow> gives sys s (\<lambda>_. 0) r"
  by (simp add: gives_def)

lemmas gives_after = gives_bind [OF gives_any]

lemma gives_shape:
  "(P \<Longrightarrow> gives sys s f r) \<Longrightarrow> (\<not> P \<Longrightarrow> gives sys s f r') \<Longrightarrow> gives sys s f (if P then r else r')"
  "(x = None \<Longrightarrow> gives sys s f r) \<Longrightarrow> (\<And>y. x = Some y \<Longrightarrow> gives sys s f (g y)) \<Longrightarrow>
     gives sys s f (case x of None \<Rightarrow> r | Some y \<Rightarrow> g y)"
  "(\<And>v t. pr = (v, t) \<Longrightarrow> gives sys s f (k v t)) \<Longrightarrow> gives sys s f (case pr of (v, t) \<Rightarrow> k v t)"
  by (auto split: option.splits prod.splits)

lemma gives_same: "(sane s \<Longrightarrow> byte (f a)) \<Longrightarrow> gives sys s f (Ret a s)"
  by (rule gives_Ret) simp_all

lemma return_byte: "sane s \<Longrightarrow> sh_returning s \<Longrightarrow> byte (sh_return_status s)"
  by (simp add: sane_def byte_def)

text \<open>The dispatcher that a component calls: it keeps the frame and gives bytes.\<close>

locale byte_keeper = frame_keeper dl for dl :: "'w dispatcher" +
  fixes sys :: "'w sys"
  assumes list_byte: "byte_system sys \<Longrightarrow> sane s \<Longrightarrow> dl l s = Ret r t \<Longrightarrow> byte (fst r)"
begin

lemma list: "gives sys s fst (dl l s)"
  using run_list list_byte by (auto simp: gives_def)

lemma file_loop_gives: "byte st \<Longrightarrow> gives sys s id (run_file_loop dl t st s)"
proof (induction t arbitrary: st s rule: length_induct)
  case (1 t)
  then have IH: "length t' < length t \<Longrightarrow> byte st \<Longrightarrow> gives sys s id (run_file_loop dl t' st s)" for t' st s
    by blast
  show ?case
  proof (cases "fgets_line t")
    case (Some lr)
    then obtain line rest where lr: "fgets_line t = Some (line, rest)" by (cases lr) auto
    have rest: "byte st \<Longrightarrow> gives sys s id (run_file_loop dl rest st s)" for st s
      using fgets_line_less [OF lr] by (rule IH)
    have after: "gives sys s id (if sh_abort s then Ret st (s\<lparr>sh_abort := False\<rparr>)
        else if eof then Ret st s else run_file_loop dl rest' st s)"
      if "fill_heredocs rest l = Filled l' rest' eof" "byte st" for l l' rest' eof st s
      using fill_heredocs_shrinks [OF that(1)] fgets_line_less [OF lr] that(2)
      by (auto intro!: IH gives_Ret simp: abort_keeps)
    have run: "gives sys s id (if l = [] then Ret st s else rbind (dl l s) (\<lambda>(st, _). Ret st))"
      if "byte st" for l st s
      using that by (auto intro!: gives_bind [OF list] gives_same)
    have fill: "gives sys s id (case fill_heredocs rest l of Fill_Error \<Rightarrow> Ret 1 s
        | Filled l' rest' eof \<Rightarrow>
            rbind (if l' = [] then Ret st s else rbind (dl l' s) (\<lambda>(st, _). Ret st)) (\<lambda>status s.
              if sh_abort s then Ret status (s\<lparr>sh_abort := False\<rparr>)
              else if eof then Ret status s
              else run_file_loop dl rest' status s))" if "byte st" for l st s
    proof (cases "fill_heredocs rest l")
      case (Filled l' rest' eof)
      show ?thesis unfolding Filled fill.case
        by (rule gives_bind [OF run [OF that]]) (simp add: after [OF Filled])
    qed (simp add: gives_same)
    show ?thesis
      by (subst run_file_loop.simps, unfold lr option.case prod.case Let_def, intro gives_shape)
        (use 1(2) in \<open>auto intro: rest fill\<close>)
  qed (use 1(2) in \<open>simp add: run_file_loop.simps gives_same\<close>)
qed

lemma source_gives: "gives sys s id (petrush_source_file sys dl path ok s)"
proof -
  have "gives sys s id (run_opened dl t s)" if "sh_source_depth s < source_max_depth" for t
  proof -
    have "within s (run_opened dl t s)" by (rule run_opened [OF that])
    moreover have "byte v" if run: "byte_system sys" "sane s" "run_opened dl t s = Ret v u" for v u
    proof -
      let ?s = "s\<lparr>sh_source_depth := sh_source_depth s + 1, sh_abort := False\<rparr>"
      have "sane ?s" using run(2) \<open>sh_source_depth s < source_max_depth\<close> by (simp add: sane_def)
      moreover obtain w where "run_file_loop dl t 0 ?s = Ret v w"
        using run(3) by (auto simp: run_opened_def run_file_lines_def rbind_Ret)
      ultimately show ?thesis using file_loop_gives [of 0 ?s t] run(1) by (simp add: gives_def)
    qed
    ultimately show ?thesis by (simp add: gives_def)
  qed
  then show ?thesis unfolding petrush_source_file_def by (auto intro!: gives_same split: option.split)
qed

lemma builtin_gives: "gives sys s id (run_builtin sys dl c s)"
proof -
  have "gives sys s id (builtin_exit sys dl args s)" for args
    using exit_builtin [of s sys args] by (auto simp: gives_def builtin_exit_def rbind_Ret split: option.splits)
  moreover have "gives sys s id (case simple_builtin sys c s of (st, t) \<Rightarrow> Ret st t)"
    by (rule gives_system) (auto simp: split_def simple_builtin_keeps intro!: gives_Ret simple_builtin_byte)
  moreover have "gives sys s id (case builtin_shift args (sh_pos s) of Out_Of_Bounds \<Rightarrow> Undefined
      | Val (st, p) \<Rightarrow> Ret st (s\<lparr>sh_pos := p\<rparr>))" for args
    by (auto simp: builtin_shift_def pos_keeps intro!: gives_Ret split: mem.splits option.splits if_splits)
  ultimately show ?thesis
    unfolding run_builtin_def Let_def builtin_source_def
    by (intro gives_shape) (auto intro: source_gives gives_same)
qed

lemma redirected_gives: "gives sys s id (run_builtin_with_redirs sys dl c s)"
proof -
  have "byte v" if run: "byte_system sys" "sane s" "after_run (restore_output sys p x) (run_builtin sys dl c (s\<lparr>sh_out := [], sh_world := w\<rparr>)) = Ret v t" for p x w v t
  proof -
    have "sane (s\<lparr>sh_out := [], sh_world := w\<rparr>)" using run(2) by (simp add: sane_def)
    moreover obtain u where "run_builtin sys dl c (s\<lparr>sh_out := [], sh_world := w\<rparr>) = Ret v u"
      using run(3) by (cases "run_builtin sys dl c (s\<lparr>sh_out := [], sh_world := w\<rparr>)") auto
    ultimately show ?thesis using builtin_gives [of "s\<lparr>sh_out := [], sh_world := w\<rparr>" c] run(1) by (simp add: gives_def)
  qed
  moreover have "within s (run_builtin_with_redirs sys dl c s)" by (rule redirected)
  ultimately show ?thesis
    by (auto simp: gives_def run_builtin_with_redirs_def split: prod.splits bool.splits)
qed

lemma called_gives: "gives sys s id (call_fn dl args body s)"
proof -
  have "byte v" if call: "byte_system sys" "sane s" "call_fn dl args body s = Ret v u" for v u
  proof -
    obtain r t where t: "dl (clone_list body) (enter_fn args s) = Ret r t" "leave_fn (sh_pos s) (fst r) t = Ret v u"
      using call(3) by (auto simp: call_fn_def rbind_Ret)
    have "sane (enter_fn args s)" by (rule enter_sane [OF call(2)])
    then have "sane t" "byte (fst r)"
      using list [of "enter_fn args s" "clone_list body"] t(1) call(1) by (auto simp: gives_def keeps_def)
    then show ?thesis
      using t(2) return_byte [of t] by (auto simp: leave_fn_def split: prod.splits if_splits)
  qed
  then show ?thesis using called by (simp add: gives_def)
qed

lemma exec_status_byte: "(case st of None \<Rightarrow> True | Some n \<Rightarrow> n < 256) \<Longrightarrow> byte (exec_status (rc, st))"
  by (auto simp: exec_status_def Let_def byte_def split: option.splits)

lemma external_gives: "gives sys s exec_status (execute_external sys (petrush_traps_poll sys dl) c s)"
proof -
  have code: "status_to_code st < 256"
    if system: "byte_system sys" and "external_child sys exe c s = Some (st, x, w)" for exe st x w
  proof (rule status_code_byte)
    have "wait_status_ok 256" by (simp add: wait_status_ok_def)
    then show "wait_status_ok st"
      using that(2) by (auto simp: external_child_def split: prod.splits bool.splits dest: byte_systemD(1) [OF system])
  qed
  show ?thesis
    unfolding execute_external_def
    by (rule gives_system) (auto simp: shell_error_code_for_def code pos_keeps
        intro!: gives_same exec_status_byte gives_after [OF within_step [OF pos_keeps(5) traps_poll]]
        split: list.split option.split prod.split)
qed

lemma pipeline_gives:
  "gives sys s exec_status (execute_pipeline_with_hook sys (petrush_traps_poll sys dl) p cs s)"
proof -
  have code: "status_to_code st < 256"
    if "byte_system sys" and "sys_pipeline sys s ps = Some (st, x, w)" for ps st x w
    by (rule status_code_byte) (rule byte_systemD(2) [OF that])
  show ?thesis
    unfolding execute_pipeline_with_hook_def
    by (rule gives_system) (auto simp: code intro!: external_gives gives_same exec_status_byte
        gives_after [OF within_step [OF pos_keeps(5) traps_poll]] split: list.split option.split prod.split)
qed

lemma command_gives: "gives sys s id (run_command sys dl c s)"
proof -
  have "gives sys s id (rbind (execute_external sys (petrush_traps_poll sys dl) c s) (\<lambda>r. Ret (exec_status r)))"
    by (rule gives_bind [OF external_gives]) (simp add: gives_same)
  then show ?thesis
    unfolding run_command_def by (auto intro!: called_gives redirected_gives builtin_gives split: option.split)
qed

lemma errors_gives:
  assumes "\<And>t. gives sys t f (k t)" and "byte (f a)"
  shows "gives sys s f (case take_expand_errors s of (bad, t) \<Rightarrow> if bad then Ret a t else k t)"
  using take_errors_keeps [of s] assms by (auto split: prod.split intro: gives_step gives_Ret)

lemma dispatch_command_gives: "gives sys s fst (dispatch_command sys dl c s)"
  unfolding dispatch_command_def
  by (auto intro!: gives_same gives_after [OF within_flags [OF expand_cmd_keeps]] errors_gives
      gives_bind [OF command_gives])

lemma dispatch_pipeline_gives: "gives sys s fst (dispatch_pipeline sys dl cs s)"
  unfolding dispatch_pipeline_def
  by (auto intro!: gives_same gives_after [OF within_flags [OF expand_stages_keeps]] errors_gives
      gives_bind [OF dispatch_command_gives] gives_bind [OF pipeline_gives] split: list.split)

lemma condition_gives: "gives sys s fst (run_condition dl l s)"
proof -
  have "byte (fst r)" if run: "byte_system sys" "sane s" "run_condition dl l s = Ret r t" for r t
  proof -
    obtain u where "dl l (s\<lparr>sh_no_errexit := sh_no_errexit s + 1\<rparr>) = Ret r u"
      using run(3) by (auto simp: run_condition_def rbind_Ret)
    then show ?thesis
      using run(2) list_byte [OF run(1), of "s\<lparr>sh_no_errexit := sh_no_errexit s + 1\<rparr>"] by (simp add: sane_def)
  qed
  then show ?thesis using condition by (simp add: gives_def)
qed

lemma status_now_byte: "sane s \<Longrightarrow> byte st \<Longrightarrow> byte (status_now st s)"
  by (simp add: status_now_def return_byte)

lemma dispatch_if_gives: "gives sys s fst (dispatch_if dl arms s)"
proof (induction arms arbitrary: s)
  case (Cons a arms)
  then show ?case
    by (cases a) (auto intro!: gives_bind [OF condition_gives] gives_bind [OF list] gives_bind [OF Cons]
        gives_same simp: return_byte status_now_byte)
qed (simp add: gives_same)

lemma dispatch_while_gives: "byte st \<Longrightarrow> gives sys s fst (dispatch_while n dl st c b s)"
  by (induction n arbitrary: st c b s)
    (auto simp: dispatch_while.simps return_byte intro!: gives_bind [OF condition_gives] gives_bind [OF list] gives_same)

lemma dispatch_for_gives: "byte st \<Longrightarrow> gives sys s id (dispatch_for dl name b ws st s)"
proof (induction ws arbitrary: st s)
  case (Cons w ws)
  then show ?case
    by (auto intro!: gives_bind [OF gives_step [OF pos_keeps(2) list]] gives_same
        simp: return_byte split: option.split)
qed (simp add: gives_same)

lemma dispatch_case_gives: "gives sys s id (dispatch_case dl w arms s)"
  unfolding dispatch_case_def
  by (intro gives_after [OF within_flags [OF expand_word_keeps]] errors_gives)
    (auto intro!: gives_bind [OF list] gives_same simp: status_now_byte split: option.split)

lemma dispatch_dbracket_gives: "gives sys s id (dispatch_dbracket sys dl ws qs s)"
  unfolding dispatch_dbracket_def
  by (auto intro!: gives_same gives_after [OF within_flags [OF expand_words_keeps]] errors_gives
      simp: dbr_byte)

lemma body_gives: "gives sys s fst (dispatch_body sys n dl b bg s)"
proof -
  have "byte (fst (dispatch_fn_def name l s))" "byte (fst (dispatch_pipeline_background sys cs s))" for name l cs
    by (simp_all add: dispatch_fn_def_def dispatch_pipeline_background_def Let_def split: option.split prod.split)
  then show ?thesis
    unfolding dispatch_body_def
    by (auto simp: split_def fn_def_keeps background_keeps
        intro!: gives_Ret gives_same gives_bind [OF dispatch_if_gives] gives_bind [OF dispatch_while_gives]
          gives_bind [OF dispatch_for_gives] gives_bind [OF dispatch_case_gives]
          gives_bind [OF dispatch_dbracket_gives] gives_bind [OF dispatch_pipeline_gives]
        split: item_body.split)
qed

lemma items_gives: "byte st \<Longrightarrow> gives sys s fst (dispatch_items sys n dl first l st s)"
proof (induction l arbitrary: first st s)
  case (Cons it l)
  have later: "gives sys s fst (rbind (petrush_traps_poll sys dl s) (\<lambda>_ s.
      rbind (dispatch_items sys n dl False l st s) (\<lambda>(st, l). Ret (st, it # l))))" if "byte st" for st s it
    using that by (auto intro!: gives_after [OF traps_poll] gives_bind [OF Cons.IH] gives_same)
  have stop: "keeps s (maybe_errexit l st (s\<lparr>sh_status := st\<rparr>))" for s st
    by (rule keeps_trans [OF pos_keeps(3) pos_keeps(6)])
  have ret: "gives sys s fst (Ret (sh_return_status s, x) (s\<lparr>sh_status := st\<rparr>))" if "sh_returning s" for s st and x :: plist
    using that by (intro gives_Ret) (simp_all add: pos_keeps return_byte)
  show ?case using Cons.prems
    by (subst dispatch_items.simps)
      (auto simp: Let_def intro!: gives_bind [OF Cons.IH] gives_bind [OF body_gives] gives_same ret
        gives_Ret [OF stop] gives_step [OF stop later])
qed (simp add: gives_same)

end

section \<open>The dispatcher\<close>

lemma list_gives: "gives sys s fst (dispatch_list sys n l s)"
proof (induction n arbitrary: s l)
  case (Suc n)
  have "byte_keeper (dispatch_list sys n) sys"
    using Suc by unfold_locales (force simp: gives_def)
  from byte_keeper.items_gives [OF this, of 0 s n True l] show ?case by simp
qed simp

interpretation bytes: byte_keeper "dispatch_list sys n" sys for sys n
  using list_gives by unfold_locales (force simp: gives_def)

text \<open>
  C14. The status of a list of commands, as \<open>$?\<close> and \<open>exit\<close> see it, is a byte: for every number of
  steps and every list, from a well-formed state, when the builtins that are not modelled give a
  byte and the wait statuses of stopped processes carry a signal number.
\<close>

theorem list_status_byte:
  assumes "byte_system sys" and "sane s" and "dispatch_list sys n l s = Ret (st, l') t"
  shows "0 \<le> st \<and> st < 256"
  using bytes.list [of sys s n l] assms by (simp add: gives_def byte_def)

theorem list_status_byte_witness:
  "\<exists>t. dispatch_list quiet_sys 3 [Item (Pipeline [cmd_zero\<lparr>argv := [''nosuch'']\<rparr>]) Cond_Always False]
     (initial_shell [] ()) = Ret (127, [Item (Pipeline [cmd_zero\<lparr>argv := [''nosuch'']\<rparr>]) Cond_Always False]) t \<and>
   (0 :: int) \<le> 127 \<and> (127 :: int) < 256"
proof -
  let ?l = "[Item (Pipeline [cmd_zero\<lparr>argv := [''nosuch'']\<rparr>]) Cond_Always False]"
  let ?s = "initial_shell [] () :: unit shell"
  have "case dispatch_list quiet_sys 3 ?l ?s of Ret r t \<Rightarrow> r = (127, ?l) | _ \<Rightarrow> False" by code_simp
  then obtain t where t: "dispatch_list quiet_sys 3 ?l ?s = Ret (127, ?l) t" by (auto split: run.splits)
  have "byte_system quiet_sys" by (simp add: byte_system_def quiet_sys_def)
  from list_status_byte [OF this sane_initial t] t show ?thesis by simp
qed

end
