(* ===== verification/Files.thy ===== *)
theory Files
  imports Prelude
begin

text \<open>
  The pieces of the C library that the readers of small files share: \<open>fgets\<close> into a buffer,
  \<open>snprintf\<close> into a buffer, the parts of a path, and the trimming of a line.  The content of a
  file is the list of its bytes.
\<close>

section \<open>Lines\<close>

text \<open>One call of \<open>fgets\<close>: the bytes it reads, and the line that \<open>strlen\<close> and the like see.\<close>

definition fgets_len :: "nat \<Rightarrow> string \<Rightarrow> nat" where
  "fgets_len buf t =
     min (buf - 1) (let n = length (takeWhile (\<lambda>c. c \<noteq> NL) t) in if n < length t then n + 1 else n)"

definition fgets :: "nat \<Rightarrow> string \<Rightarrow> (string \<times> string) option" where
  "fgets buf t =
     (if t = [] \<or> buf \<le> 1 then None
      else Some (takeWhile (\<lambda>c. c \<noteq> NUL) (take (fgets_len buf t) t), drop (fgets_len buf t) t))"

lemma fgets_less [shrinks]: "fgets buf t = Some (l, rest) \<Longrightarrow> length rest < length t"
  by (cases t) (auto simp: fgets_def fgets_len_def Let_def split: if_splits)

text \<open>All lines of a file, as a loop of \<open>fgets\<close> sees them.\<close>

function file_lines :: "nat \<Rightarrow> string \<Rightarrow> string list" where
  "file_lines buf t = (case fgets buf t of None \<Rightarrow> [] | Some (l, rest) \<Rightarrow> l # file_lines buf rest)"
  by pat_completeness auto
termination file_lines
  by (relation "measure (\<lambda>(buf, t). length t)") (auto dest: fgets_less)

declare file_lines.simps [simp del]

lemma file_lines_Nil [simp]: "file_lines buf [] = []"
  by (simp add: file_lines.simps fgets_def)

text \<open>The bytes of a line after the newline and carriage return at its end are cut.\<close>

definition chomp :: "string \<Rightarrow> string" where
  "chomp l = rev (dropWhile (\<lambda>c. c = NL \<or> c = CHR 0x0D) (rev l))"

section \<open>Buffers\<close>

text \<open>\<open>snprintf\<close> into a buffer of \<open>n\<close> bytes, and the test of its result against \<open>n\<close>.\<close>

definition snprintf :: "nat \<Rightarrow> string \<Rightarrow> string" where
  "snprintf n s = take (n - 1) s"

definition snprintf_fits :: "nat \<Rightarrow> string \<Rightarrow> bool" where
  "snprintf_fits n s \<longleftrightarrow> length s < n"

lemma snprintf_fit [simp]: "snprintf_fits n s \<Longrightarrow> snprintf n s = s"
  by (simp add: snprintf_def snprintf_fits_def)

section \<open>Paths\<close>

definition is_abs :: "string \<Rightarrow> bool" where
  "is_abs p \<longleftrightarrow> peek p = CHR ''/''"

text \<open>The text before and after the last slash.\<close>

definition base_name :: "string \<Rightarrow> string" where
  "base_name p = rev (takeWhile (\<lambda>c. c \<noteq> CHR ''/'') (rev p))"

definition dir_part :: "string \<Rightarrow> string" where
  "dir_part p = take (length p - length (base_name p) - 1) p"

definition has_slash :: "string \<Rightarrow> bool" where
  "has_slash p \<longleftrightarrow> CHR ''/'' \<in> set p"

lemma path_parts:
  assumes "has_slash p"
  shows "p = dir_part p @ CHR ''/'' # base_name p"
proof -
  from assms obtain u v where p: "p = u @ CHR ''/'' # v" and v: "CHR ''/'' \<notin> set v"
    unfolding has_slash_def by (blast dest: split_list_last)
  have "base_name p = v"
    unfolding p base_name_def by (simp, subst takeWhile_append2) (use v in auto)
  moreover from this have "dir_part p = u" by (simp add: dir_part_def p)
  ultimately show ?thesis by (simp add: p)
qed

lemma base_name_plain: "CHR ''/'' \<notin> set (base_name p)"
  by (auto simp: base_name_def dest: set_takeWhileD)

lemma parts_unique:
  assumes "CHR ''/'' \<notin> set b"
  shows "dir_part (d @ CHR ''/'' # b) = d" "base_name (d @ CHR ''/'' # b) = b"
proof -
  show "base_name (d @ CHR ''/'' # b) = b"
    unfolding base_name_def by (simp, subst takeWhile_append2) (use assms in auto)
  then show "dir_part (d @ CHR ''/'' # b) = d" by (simp add: dir_part_def)
qed

end
