(* ===== verification/Pudod.thy ===== *)
theory Pudod
  imports Files
begin

text \<open>
  The helper that runs with the rights of root (\<open>src/pudod/\<close>): the allow-list, the checks on the
  target, and what it executes.  The helper only reads the system and its arguments; messages
  to the log are left out.  The system's answers are those at the moment of each call: the
  target is opened once and it is the opened file that is checked and run.
\<close>

section \<open>What the helper asks of the system\<close>

record target_stat =
  ts_regular :: bool
  ts_uid :: nat
  ts_mode :: nat

text \<open>\<open>ps_open p\<close> is the open without following a link, with the \<open>fstat\<close> of what was opened;
  \<open>ps_allow\<close> is the owner, the mode and the text of the allow-list file, when it can be read;
  \<open>ps_exec\<close> tells whether \<open>fexecve\<close> replaces the process.\<close>

record pudod_sys =
  ps_realpath :: "string \<Rightarrow> string option"
  ps_allow :: "(nat \<times> nat \<times> string) option"
  ps_euid :: nat
  ps_open :: "string \<Rightarrow> target_stat option"
  ps_exec :: "string \<Rightarrow> bool"

section \<open>The allow-list\<close>

definition pudod_path_max :: nat where "pudod_path_max = 4096"
definition max_allowed :: nat where "max_allowed = 64"

definition pudod_resolve_allow_entry :: "(string \<Rightarrow> string option) \<Rightarrow> string \<Rightarrow> nat \<Rightarrow> string option" where
  "pudod_resolve_allow_entry realpath entry outsz =
     (if outsz = 0 \<or> peek entry \<noteq> CHR ''/'' then None
      else map_option (take (outsz - 1)) (realpath entry))"

definition generic_shells :: "string list" where
  "generic_shells = [''sh'', ''bash'', ''dash'', ''ash'', ''busybox'']"

text \<open>\<open>None\<close> is the error of a path without a base name.\<close>

definition pudod_path_is_generic_shell :: "string \<Rightarrow> bool option" where
  "pudod_path_is_generic_shell canonical =
     (if canonical = [] \<or> \<not> has_slash canonical \<or> base_name canonical = [] then None
      else Some (base_name canonical \<in> set generic_shells))"

definition allow_blank :: "char \<Rightarrow> bool" where
  "allow_blank c \<longleftrightarrow> c \<in> {CHR '' '', TAB, NL, CHR 0x0D}"

text \<open>A line without the blanks around it; the first byte that is not blank always stays.\<close>

definition allow_trim :: "string \<Rightarrow> string" where
  "allow_trim line =
     (case dropWhile allow_blank line of
        [] \<Rightarrow> []
      | c # r \<Rightarrow> c # rev (dropWhile allow_blank (rev r)))"

definition allow_entry :: "(string \<Rightarrow> string option) \<Rightarrow> string \<Rightarrow> string option" where
  "allow_entry realpath line =
     (let p = allow_trim line in
      if p = [] \<or> peek p = CHR ''#'' \<or> peek p \<noteq> CHR ''/'' then None
      else case pudod_resolve_allow_entry realpath p pudod_path_max of
        None \<Rightarrow> None
      | Some canonical \<Rightarrow>
          if pudod_path_is_generic_shell canonical = Some True then None
          else Some (take (pudod_path_max - 1) canonical))"

text \<open>The loop stops when the table is full.\<close>

fun allow_loop :: "(string \<Rightarrow> string option) \<Rightarrow> string list \<Rightarrow> string list \<Rightarrow> string list" where
  "allow_loop realpath [] allowed = allowed"
| "allow_loop realpath (line # ls) allowed =
     (if length allowed \<ge> max_allowed then allowed
      else case allow_entry realpath line of
        None \<Rightarrow> allow_loop realpath ls allowed
      | Some p \<Rightarrow> allow_loop realpath ls (allowed @ [p]))"

definition load_allow_list :: "pudod_sys \<Rightarrow> string list option" where
  "load_allow_list sys =
     (case ps_allow sys of
        None \<Rightarrow> None
      | Some (uid, mode, content) \<Rightarrow>
          if uid \<noteq> 0 then None
          else if and mode 18 \<noteq> 0 then None
          else Some (allow_loop (ps_realpath sys) (file_lines pudod_path_max content) []))"

definition is_allowed :: "string list \<Rightarrow> string \<Rightarrow> bool" where
  "is_allowed allowed resolved \<longleftrightarrow> list_ex (\<lambda>p. resolved = p) allowed"

section \<open>The target and what is executed\<close>

definition pudod_target_is_root_exec :: "target_stat \<Rightarrow> bool" where
  "pudod_target_is_root_exec st \<longleftrightarrow> ts_regular st \<and> ts_uid st = 0 \<and> and (ts_mode st) 73 \<noteq> 0"

definition pudod_max_args :: nat where "pudod_max_args = 128"

text \<open>The arguments after the command, behind the resolved path; \<open>None\<close> is a refusal.\<close>

definition pudod_build_child_argv :: "string list \<Rightarrow> string \<Rightarrow> nat \<Rightarrow> string list option" where
  "pudod_build_child_argv args resolved out_cap =
     (if out_cap < 2 \<or> length args < 2 \<or> length args - 2 > pudod_max_args \<or> out_cap < length args then None
      else Some (resolved # drop 2 args))"

definition pudod_clean_envp :: "string list" where
  "pudod_clean_envp = [''PATH=/usr/local/sbin:/usr/local/bin:/usr/sbin:/usr/bin:/sbin:/bin'',
     ''TERM=xterm-256color'', ''HOME=/root'', ''USER=root'', ''LOGNAME=root'', ''SHELL=/bin/sh'']"

text \<open>The end of the helper: an exit status, or a program in its place with arguments and
  environment.\<close>

datatype pudod_end = Refuse int | Run_Root string "string list" "string list"

definition pudod_main :: "pudod_sys \<Rightarrow> string list \<Rightarrow> pudod_end" where
  "pudod_main sys args =
     (case load_allow_list sys of
        None \<Rightarrow> Refuse 1
      | Some allowed \<Rightarrow>
          if ps_euid sys \<noteq> 0 then Refuse 1
          else if length args < 2 then Refuse 1
          else if peek (args ! 1) \<noteq> CHR ''/'' then Refuse 1
          else case ps_realpath sys (args ! 1) of
            None \<Rightarrow> Refuse 1
          | Some resolved \<Rightarrow>
              if \<not> is_allowed allowed resolved then Refuse 1
              else case ps_open sys resolved of
                None \<Rightarrow> Refuse 1
              | Some st \<Rightarrow>
                  if \<not> pudod_target_is_root_exec st then Refuse 1
                  else case pudod_build_child_argv args resolved (pudod_max_args + 2) of
                    None \<Rightarrow> Refuse 1
                  | Some as \<Rightarrow>
                      if ps_exec sys resolved then Run_Root resolved as pudod_clean_envp else Refuse 127)"

section \<open>The allow-list is read line by line\<close>

lemma allow_loop_eq:
  "length allowed \<le> max_allowed \<Longrightarrow>
     allow_loop rp ls allowed = take max_allowed (allowed @ List.map_filter (allow_entry rp) ls)"
proof (induction rp ls allowed rule: allow_loop.induct)
  case (2 rp line ls allowed)
  then show ?case by (auto simp: map_filter_simps split: option.split)
qed (simp add: map_filter_simps)


section \<open>Mode bits\<close>

lemma bits_18: "bit (18 :: nat) i \<longleftrightarrow> i = 1 \<or> i = 4"
proof -
  have split: "(18 :: nat) = or (2 ^ 1) (2 ^ 4)" by simp
  show ?thesis unfolding split bit_or_iff bit_exp_iff by simp
qed

lemma bits_73: "bit (73 :: nat) i \<longleftrightarrow> i = 0 \<or> i = 3 \<or> i = 6"
proof -
  have split: "(73 :: nat) = or (2 ^ 0) (or (2 ^ 3) (2 ^ 6))" by simp
  show ?thesis unfolding split bit_or_iff bit_exp_iff by simp
qed

lemma mode_writable: "and (m :: nat) 18 = 0 \<longleftrightarrow> \<not> bit m 1 \<and> \<not> bit m 4"
  unfolding bit_eq_iff [of "and m 18" 0] bit_and_iff bits_18 bit_0_eq by auto

lemma mode_executable: "and (m :: nat) 73 = 0 \<longleftrightarrow> \<not> bit m 0 \<and> \<not> bit m 3 \<and> \<not> bit m 6"
  unfolding bit_eq_iff [of "and m 73" 0] bit_and_iff bits_73 bit_0_eq
  by (auto; metis gr0I)

section \<open>What runs as root\<close>

text \<open>The program that a line of the allow-list names.\<close>

definition listed :: "pudod_sys \<Rightarrow> string \<Rightarrow> string option" where
  "listed sys line =
     (let p = allow_trim line in
      if \<not> is_abs p then None
      else case ps_realpath sys p of
        None \<Rightarrow> None
      | Some q \<Rightarrow> if has_slash q \<and> base_name q \<in> set generic_shells then None else Some q)"

definition realpath_bounded :: "pudod_sys \<Rightarrow> bool" where
  "realpath_bounded sys \<longleftrightarrow> (\<forall>p q. ps_realpath sys p = Some q \<longrightarrow> length q < pudod_path_max)"

lemma shell_names: "[] \<notin> set generic_shells"
  by (simp add: generic_shells_def)

lemma allow_entry_listed:
  assumes "realpath_bounded sys"
  shows "allow_entry (ps_realpath sys) line = listed sys line"
proof -
  have fit: "take 4095 q = q" if "ps_realpath sys p = Some q" for p q
    using assms that by (simp add: realpath_bounded_def pudod_path_max_def less_eq_Suc_le order_less_imp_le)
  show ?thesis
    using shell_names
    by (auto simp: allow_entry_def listed_def is_abs_def pudod_resolve_allow_entry_def fit
        pudod_path_is_generic_shell_def has_slash_def pudod_path_max_def Let_def split: option.split)
qed

lemma load_allow_list_eq:
  assumes "realpath_bounded sys"
  shows "load_allow_list sys = Some allowed \<longleftrightarrow>
    (\<exists>mode content. ps_allow sys = Some (0, mode, content) \<and> \<not> bit mode 1 \<and> \<not> bit mode 4 \<and>
      allowed = take max_allowed (List.map_filter (listed sys) (file_lines pudod_path_max content)))"
proof -
  have "allow_entry (ps_realpath sys) = listed sys"
    using allow_entry_listed [OF assms] by blast
  then show ?thesis
    by (auto simp: load_allow_list_def allow_loop_eq mode_writable split: option.split)
qed

lemma pudod_main_runs:
  assumes "load_allow_list sys = Some allowed"
  shows "pudod_main sys args = Run_Root p as env \<longleftrightarrow>
      ps_euid sys = 0 \<and> 2 \<le> length args \<and> is_abs (args ! 1) \<and> ps_realpath sys (args ! 1) = Some p \<and>
      p \<in> set allowed \<and> (\<exists>st. ps_open sys p = Some st \<and> pudod_target_is_root_exec st) \<and>
      pudod_build_child_argv args p (pudod_max_args + 2) = Some as \<and> ps_exec sys p \<and> env = pudod_clean_envp"
  unfolding pudod_main_def assms option.case is_abs_def is_allowed_def list_ex_iff
  by (cases "ps_realpath sys (args ! 1)"; cases "ps_open sys (the (ps_realpath sys (args ! 1)))";
      cases "pudod_build_child_argv args (the (ps_realpath sys (args ! 1))) (pudod_max_args + 2)")
    auto

lemma child_argv_iff:
  "pudod_build_child_argv args p (pudod_max_args + 2) = Some as \<longleftrightarrow>
     2 \<le> length args \<and> length args \<le> 130 \<and> as = p # drop 2 args"
  by (auto simp: pudod_build_child_argv_def pudod_max_args_def)

lemma target_iff:
  "pudod_target_is_root_exec st \<longleftrightarrow>
     ts_regular st \<and> ts_uid st = 0 \<and> (bit (ts_mode st) 0 \<or> bit (ts_mode st) 3 \<or> bit (ts_mode st) 6)"
  by (simp add: pudod_target_is_root_exec_def mode_executable)

text \<open>
  C16. What runs as root. The helper becomes a program exactly when: the allow-list belongs to root
  and only its owner may write it; the program is the canonical path of one of its first 64
  usable entries and its name is not a shell; the helper has the rights of root; the caller
  named the program by an absolute path that resolves to it; the opened file is a regular file of
  root with a bit of execution; and there are at most 128 arguments, which are passed on in
  order behind the resolved path, with the fixed environment.
\<close>

theorem pudod_runs_iff:
  assumes "realpath_bounded sys"
  shows "pudod_main sys args = Run_Root p as env \<longleftrightarrow>
    (\<exists>mode content st. ps_allow sys = Some (0, mode, content) \<and> \<not> bit mode 1 \<and> \<not> bit mode 4 \<and>
      p \<in> set (take 64 (List.map_filter (listed sys) (file_lines 4096 content))) \<and>
      ps_euid sys = 0 \<and> 2 \<le> length args \<and> length args \<le> 130 \<and>
      is_abs (args ! 1) \<and> ps_realpath sys (args ! 1) = Some p \<and>
      ps_open sys p = Some st \<and> ts_regular st \<and> ts_uid st = 0 \<and>
      (bit (ts_mode st) 0 \<or> bit (ts_mode st) 3 \<or> bit (ts_mode st) 6) \<and>
      as = p # drop 2 args \<and> env = pudod_clean_envp \<and> ps_exec sys p)"
proof (cases "load_allow_list sys")
  case None
  then have no: "\<not> (\<exists>allowed mode content. ps_allow sys = Some (0, mode, content) \<and> \<not> bit mode 1 \<and> \<not> bit mode 4)"
    using load_allow_list_eq [OF assms] by (metis option.distinct(1))
  then show ?thesis using None by (simp add: pudod_main_def) blast
next
  case (Some allowed)
  then obtain mode content where list: "ps_allow sys = Some (0, mode, content)" "\<not> bit mode 1" "\<not> bit mode 4"
    "allowed = take 64 (List.map_filter (listed sys) (file_lines 4096 content))"
    using load_allow_list_eq [OF assms] by (auto simp: max_allowed_def pudod_path_max_def)
  show ?thesis
    unfolding pudod_main_runs [OF Some] child_argv_iff target_iff
    using list by fastforce
qed

text \<open>A helper with one listed program, called with an argument.\<close>

definition demo_pudod :: pudod_sys where
  "demo_pudod = \<lparr>ps_realpath = (\<lambda>p. if length p < 4096 then Some p else None),
     ps_allow = Some (0, 420, ''/bin/id'' @ [NL]), ps_euid = 0,
     ps_open = (\<lambda>p. Some \<lparr>ts_regular = True, ts_uid = 0, ts_mode = 493\<rparr>), ps_exec = (\<lambda>p. True)\<rparr>"

lemma pudod_runs_iff_witness:
  "realpath_bounded demo_pudod \<and>
   pudod_main demo_pudod [''pudod'', ''/bin/id'', ''-u''] = Run_Root ''/bin/id'' [''/bin/id'', ''-u''] pudod_clean_envp \<and>
   ps_open demo_pudod ''/bin/id'' \<noteq> None"
proof -
  have bounded: "realpath_bounded demo_pudod"
    by (auto simp: realpath_bounded_def demo_pudod_def pudod_path_max_def split: if_splits)
  have run: "pudod_main demo_pudod [''pudod'', ''/bin/id'', ''-u''] =
      Run_Root ''/bin/id'' [''/bin/id'', ''-u''] pudod_clean_envp"
    by code_simp
  show ?thesis
    using bounded run iffD1 [OF pudod_runs_iff [OF bounded] run] by auto
qed

end
