(* ===== verification/Pudo.thy ===== *)
theory Pudo
  imports Pudod Process
begin

text \<open>
  The builtin \<open>pudo\<close> (\<open>src/mid/pudo.c\<close>): its own list of commands, the search for the helper, the
  path of the command, the arguments and the environment the helper gets.  Messages and the
  log are left out.
\<close>

section \<open>What the builtin asks of the system\<close>

text \<open>\<open>pu_release\<close> tells how the shell was built; \<open>pu_config\<close> is the text of a file, and whether it
  can be read again from the start; \<open>pu_self\<close> is the link to the running program.\<close>

record pudo_sys =
  pu_release :: bool
  pu_config :: "string \<Rightarrow> (string \<times> bool) option"
  pu_self :: "string option"
  pu_access :: "string \<Rightarrow> bool"
  pu_realpath :: "string \<Rightarrow> string option"
  pu_exec :: "string \<Rightarrow> bool"

datatype pudo_end = Returned int | Became string "string list" "string list"

section \<open>The list of commands\<close>

definition conf_blank :: "char \<Rightarrow> bool" where
  "conf_blank c \<longleftrightarrow> c = CHR '' '' \<or> c = TAB"

definition config_entry :: "string \<Rightarrow> string option" where
  "config_entry line =
     (let p = dropWhile conf_blank line in
      if p = [] \<or> peek p = CHR ''#'' \<or> peek p = NL then None
      else Some (if p \<noteq> [] \<and> List.last p = NL then butlast p else p))"

definition pudo_config_path :: "env \<Rightarrow> string" where
  "pudo_config_path e =
     snprintf path_max ((case petrush_getenv e ''HOME'' of None \<Rightarrow> ''.'' | Some h \<Rightarrow> h) @ ''/.config/petrush/pudo.conf'')"

text \<open>\<open>None\<close> is the error; without a file, or without an entry, the list is empty.\<close>

definition load_pudo_config :: "pudo_sys \<Rightarrow> env \<Rightarrow> string list option" where
  "load_pudo_config sys e =
     (case pu_config sys (pudo_config_path e) of
        None \<Rightarrow> Some []
      | Some (t, again) \<Rightarrow>
          if \<not> again then None
          else Some (List.map_filter config_entry (file_lines 512 t)))"

definition is_command_allowed :: "string list \<Rightarrow> string \<Rightarrow> bool" where
  "is_command_allowed allowed cmd \<longleftrightarrow> allowed = [] \<or> list_ex (\<lambda>a. a = cmd) allowed"

section \<open>The environment\<close>

definition dangerous_ld :: "string list" where
  "dangerous_ld = [''LD_PRELOAD'', ''LD_LIBRARY_PATH'', ''LD_AUDIT'', ''LD_DEBUG'', ''LD_ORIGIN_PATH'',
     ''LD_PROFILE'', ''LD_USE_LOAD_BIAS'', ''LD_DYNAMIC_WEAK'', ''LD_SHOW_AUXV'', ''LD_TRACE_LOADED_OBJECTS'']"

definition dangerous_lang :: "string list" where
  "dangerous_lang = [''PYTHONPATH'', ''PERL5LIB'', ''PERL5OPT'', ''RUBYLIB'', ''RUBYOPT'', ''NODE_PATH'', ''GOPATH'',
     ''GOCACHE'', ''JAVA_TOOL_OPTIONS'', ''_JAVA_OPTIONS'', ''CLASSPATH'']"

definition dangerous_other :: "string list" where
  "dangerous_other = [''IFS'', ''CDPATH'', ''ENV'', ''BASH_ENV'', ''SHELLOPTS'', ''PS4'', ''GTK_PATH'',
     ''GDK_PIXBUF_MODULE_FILE'', ''QT_PLUGIN_PATH'', ''XDG_DATA_DIRS'']"

fun sanitize_loop :: "string list \<Rightarrow> bool \<times> env \<Rightarrow> bool \<times> env" where
  "sanitize_loop [] r = r"
| "sanitize_loop (n # ns) (failed, e) =
     sanitize_loop ns
       (if petrush_getenv e n = None then (failed, e)
        else case petrush_unsetenv n e of None \<Rightarrow> (True, e) | Some e' \<Rightarrow> (failed, e'))"

definition pudo_sanitize_environment :: "env \<Rightarrow> int \<times> env" where
  "pudo_sanitize_environment e =
     (case sanitize_loop dangerous_other (sanitize_loop dangerous_lang (sanitize_loop dangerous_ld (False, e))) of
        (failed, e') \<Rightarrow> (if failed then - 1 else 0, e'))"

definition kept_names :: "string list" where
  "kept_names = [''HOME'', ''USER'', ''LOGNAME'', ''TERM'', ''SHELL'', ''PATH'', ''LANG'', ''LC_ALL'', ''LC_CTYPE'',
     ''TZ'', ''TMPDIR'', ''TMP'', ''TEMP'']"

definition kept_entry :: "env \<Rightarrow> string \<Rightarrow> string option" where
  "kept_entry e k = map_option (\<lambda>v. snprintf 512 (k @ CHR ''='' # v)) (petrush_getenv e k)"

definition build_clean_envp :: "env \<Rightarrow> string list" where
  "build_clean_envp e =
     take 30 (List.map_filter (kept_entry e) kept_names) @
     (if petrush_getenv e ''PATH'' = None then [''PATH=/usr/local/bin:/usr/bin:/bin''] else [])"

section \<open>The helper\<close>

definition pudod_install_path :: string where
  "pudod_install_path = ''/usr/local/libexec/petrush-pudod''"

definition k_pudod_install_dirs :: "string list" where
  "k_pudod_install_dirs = [''/usr/local/libexec'', ''/usr/local/bin'', ''/usr/libexec'']"

definition pudod_exact :: "string list" where
  "pudod_exact = [''/usr/local/libexec/petrush-pudod'', ''/usr/local/bin/petrush-pudod'', ''/usr/local/bin/pudod'',
     ''/usr/libexec/petrush-pudod'']"

definition pudod_debug_rel :: "string list" where
  "pudod_debug_rel = [''build/pudod'', ''./build/pudod'', ''../build/pudod'', ''./pudod'', ''pudod'']"

definition pudod_basename_ok :: "string \<Rightarrow> bool" where
  "pudod_basename_ok b \<longleftrightarrow> b = ''pudod'' \<or> b = ''petrush-pudod''"

definition pudo_allow_pudod_candidate :: "string \<Rightarrow> bool \<Rightarrow> bool" where
  "pudo_allow_pudod_candidate path release_mode =
     (if path = [] then False
      else if release_mode then
        (if peek path \<noteq> CHR ''/'' then False
         else if path = pudod_install_path then True
         else if path \<in> set pudod_exact then True
         else if \<not> has_slash path \<or> dir_part path = [] then False
         else if \<not> pudod_basename_ok (base_name path) then False
         else dir_part path \<in> set k_pudod_install_dirs)
      else if peek path = CHR ''/'' then True
      else path \<in> set pudod_debug_rel)"

definition try_abs_candidate :: "pudo_sys \<Rightarrow> string \<Rightarrow> string option" where
  "try_abs_candidate sys path =
     (if path = [] then None
      else if \<not> pu_access sys path then None
      else let cand = (case pu_realpath sys path of Some r \<Rightarrow> r | None \<Rightarrow> path) in
        if peek cand \<noteq> CHR ''/'' then None
        else if \<not> pudo_allow_pudod_candidate cand (pu_release sys) then None
        else if \<not> snprintf_fits path_max cand then None
        else Some cand)"

fun first_some :: "('a \<Rightarrow> 'b option) \<Rightarrow> 'a list \<Rightarrow> 'b option" where
  "first_some f [] = None"
| "first_some f (x # xs) = (case f x of Some y \<Rightarrow> Some y | None \<Rightarrow> first_some f xs)"

definition try_sibling :: "pudo_sys \<Rightarrow> string \<Rightarrow> string \<Rightarrow> string option" where
  "try_sibling sys self name =
     (let cand = dir_part self @ CHR ''/'' # name in
      if \<not> snprintf_fits path_max cand then None else try_abs_candidate sys cand)"

definition try_dev_path :: "pudo_sys \<Rightarrow> string \<Rightarrow> string option" where
  "try_dev_path sys path =
     (if \<not> pu_access sys path then None
      else let found = (case pu_realpath sys path of Some r \<Rightarrow> r | None \<Rightarrow> path) in
        if pudo_allow_pudod_candidate found (pu_release sys) then Some found else None)"

definition or_else :: "'a option \<Rightarrow> 'a option \<Rightarrow> 'a option" where
  "or_else a b = (case a of Some x \<Rightarrow> Some x | None \<Rightarrow> b)"

definition find_pudod_binary :: "pudo_sys \<Rightarrow> string option" where
  "find_pudod_binary sys =
     or_else (case pu_self sys of
         None \<Rightarrow> None
       | Some self \<Rightarrow> if has_slash self then first_some (try_sibling sys self) [''pudod'', ''petrush-pudod''] else None)
     (or_else (if pu_release sys then None
         else first_some (try_dev_path sys) [''build/pudod'', ''./build/pudod'', ''../build/pudod''])
     (or_else (first_some (try_abs_candidate sys) (pudod_install_path # pudod_exact))
       (if pu_release sys then None
        else if pu_access sys ''pudod'' \<and> pudo_allow_pudod_candidate ''pudod'' (pu_release sys) then Some ''pudod''
        else None)))"

section \<open>The command and the call of the helper\<close>

text \<open>The first directory with the program decides, even when its path cannot be resolved.\<close>

fun resolve_in_dirs :: "pudo_sys \<Rightarrow> string \<Rightarrow> string list \<Rightarrow> string option" where
  "resolve_in_dirs sys name [] = None"
| "resolve_in_dirs sys name (d # ds) =
     (let full = snprintf path_max (d @ CHR ''/'' # name) in
      if pu_access sys full then pu_realpath sys full else resolve_in_dirs sys name ds)"

definition resolve_target_absolute :: "pudo_sys \<Rightarrow> env \<Rightarrow> string \<Rightarrow> string option" where
  "resolve_target_absolute sys e name =
     (if CHR ''/'' \<in> set name then
        (if pu_access sys name then Some (case pu_realpath sys name of Some r \<Rightarrow> r | None \<Rightarrow> name) else None)
      else resolve_in_dirs sys name
        (strtok_fields (CHR '':'') [] (snprintf 4096
          (case petrush_getenv e ''PATH'' of None \<Rightarrow> ''/usr/local/bin:/usr/bin:/bin'' | Some p \<Rightarrow> p))))"

definition pudo_helper_argv_max :: nat where "pudo_helper_argv_max = 128"

definition pudo_helper_argv_fits :: "nat \<Rightarrow> bool" where
  "pudo_helper_argv_fits n \<longleftrightarrow> \<not> n < 2 \<and> \<not> 2 + (n - 2) + 1 > pudo_helper_argv_max"

definition pudo_allow_sudo_fallback :: bool where "pudo_allow_sudo_fallback = False"

definition run_via_pudod :: "pudo_sys \<Rightarrow> env \<Rightarrow> string list \<Rightarrow> pudo_end" where
  "run_via_pudod sys e args =
     (case find_pudod_binary sys of
        None \<Rightarrow> if \<not> pudo_allow_sudo_fallback then Returned 127 else Returned 127
      | Some pudod \<Rightarrow>
          if length args < 2 then Returned 127
          else if \<not> pudo_helper_argv_fits (length args) then Returned 1
          else let target = (case resolve_target_absolute sys e (args ! 1) of Some a \<Rightarrow> a | None \<Rightarrow> args ! 1) in
            if pu_exec sys pudod then Became pudod (pudod # target # drop 2 args) (build_clean_envp e)
            else Returned 127)"

text \<open>There is no child: when the call succeeds, the helper is what the shell has become.\<close>

definition builtin_pudo :: "pudo_sys \<Rightarrow> env \<Rightarrow> string list \<Rightarrow> pudo_end" where
  "builtin_pudo sys e args =
     (if length args < 2 then Returned 1
      else case load_pudo_config sys e of
        None \<Rightarrow> Returned 1
      | Some allowed \<Rightarrow>
          if args ! 1 = ''--help'' \<or> args ! 1 = ''-h'' then Returned 0
          else if length allowed > 0 \<and> \<not> is_command_allowed allowed (args ! 1) then Returned 1
          else run_via_pudod sys e args)"

section \<open>The helpers a release build trusts\<close>

definition trusted_helpers :: "string list" where
  "trusted_helpers = [d @ CHR ''/'' # b. d \<leftarrow> k_pudod_install_dirs, b \<leftarrow> [''pudod'', ''petrush-pudod'']]"

lemma release_candidate:
  "pudo_allow_pudod_candidate p True \<longleftrightarrow> p \<in> set trusted_helpers"
proof
  assume *: "pudo_allow_pudod_candidate p True"
  consider "p \<in> set (pudod_install_path # pudod_exact)"
    | "has_slash p" "pudod_basename_ok (base_name p)" "dir_part p \<in> set k_pudod_install_dirs"
    using * by (auto simp: pudo_allow_pudod_candidate_def split: if_splits)
  then show "p \<in> set trusted_helpers"
  proof cases
    case 1
    then show ?thesis
      by (auto simp: pudod_install_path_def pudod_exact_def trusted_helpers_def k_pudod_install_dirs_def)
  next
    case 2
    then show ?thesis
      using path_parts [OF 2(1)] by (auto simp: trusted_helpers_def pudod_basename_ok_def)
  qed
next
  assume "p \<in> set trusted_helpers"
  moreover have "list_all (\<lambda>p. pudo_allow_pudod_candidate p True) trusted_helpers" by code_simp
  ultimately show "pudo_allow_pudod_candidate p True" by (simp add: list_all_iff)
qed

lemma first_some_P: "first_some f xs = Some y \<Longrightarrow> (\<And>x y. f x = Some y \<Longrightarrow> P y) \<Longrightarrow> P y"
  by (induction xs) (auto split: option.splits)

lemma try_abs_allowed: "try_abs_candidate sys p = Some q \<Longrightarrow> pudo_allow_pudod_candidate q (pu_release sys)"
  by (auto simp: try_abs_candidate_def Let_def split: if_splits)

lemma find_pudod_trusted:
  assumes "find_pudod_binary sys = Some h"
  shows "pudo_allow_pudod_candidate h (pu_release sys)"
proof -
  have sib: "pudo_allow_pudod_candidate q (pu_release sys)" if "try_sibling sys self n = Some q" for self n q
    using that try_abs_allowed by (auto simp: try_sibling_def Let_def split: if_splits)
  have dev: "pudo_allow_pudod_candidate q (pu_release sys)" if "try_dev_path sys n = Some q" for n q
    using that by (auto simp: try_dev_path_def Let_def split: if_splits)
  show ?thesis
    using assms unfolding find_pudod_binary_def or_else_def
    by (auto split: option.splits if_splits dest: first_some_P [OF _ sib] first_some_P [OF _ dev]
        first_some_P [OF _ try_abs_allowed] simp del: first_some.simps)
qed

lemma pudo_became:
  assumes "builtin_pudo sys e args = Became h as env"
  shows "find_pudod_binary sys = Some h \<and> 2 \<le> length args \<and> length args \<le> 127 \<and>
    (\<exists>target. as = h # target # drop 2 args) \<and> env = build_clean_envp e \<and>
    (\<exists>allowed. load_pudo_config sys e = Some allowed \<and> is_command_allowed allowed (args ! 1))"
  using assms
  by (auto simp: builtin_pudo_def run_via_pudod_def pudo_helper_argv_fits_def pudo_helper_argv_max_def
      is_command_allowed_def Let_def split: if_splits option.splits)

text \<open>
  C2. From the prompt to root. When \<open>pudo\<close> becomes the helper and the helper becomes a program,
  then: a release build has called one of the six trusted helpers; the command was on the
  user's own list, if there is one; the program is one that root has listed; and it runs with
  exactly the arguments that were typed after the command, none dropped, at most 125, and
  with the helper's fixed environment, whatever the user's was.
\<close>

theorem pudo_reaches_root:
  assumes bounded: "realpath_bounded dsys"
    and front: "builtin_pudo sys e args = Became h as env"
    and root_run: "pudod_main dsys as = Run_Root p bs env'"
  shows "(pu_release sys \<longrightarrow> h \<in> set trusted_helpers) \<and>
    (\<exists>allowed. load_pudo_config sys e = Some allowed \<and> (allowed = [] \<or> args ! 1 \<in> set allowed)) \<and>
    (\<exists>mode content. ps_allow dsys = Some (0, mode, content) \<and>
       p \<in> set (take 64 (List.map_filter (listed dsys) (file_lines 4096 content)))) \<and>
    bs = p # drop 2 args \<and> length (drop 2 args) \<le> 125 \<and> env' = pudod_clean_envp"
proof -
  have p: "pudo_allow_pudod_candidate h (pu_release sys)"
    using pudo_became [OF front] by (blast intro: find_pudod_trusted)
  obtain allowed where allowed: "load_pudo_config sys e = Some allowed" "allowed = [] \<or> args ! 1 \<in> set allowed"
    using pudo_became [OF front] by (auto simp: is_command_allowed_def list_ex_iff)
  obtain target where as: "as = h # target # drop 2 args" "length args \<le> 127"
    using pudo_became [OF front] by blast
  obtain list where list: "load_allow_list dsys = Some list"
    using root_run by (auto simp: pudod_main_def split: option.splits)
  have run: "p \<in> set list" "bs = p # drop 2 as" "env' = pudod_clean_envp"
    using root_run unfolding pudod_main_runs [OF list] child_argv_iff by blast+
  show ?thesis
    using p allowed as run list by (auto simp: release_candidate load_allow_list_eq [OF bounded]
        max_allowed_def pudod_path_max_def)
qed

definition demo_pudo :: pudo_sys where
  "demo_pudo = \<lparr>pu_release = True, pu_config = (\<lambda>p. None), pu_self = Some ''/usr/local/bin/petrush'',
     pu_access = (\<lambda>p. p = ''/usr/local/bin/pudod'' \<or> p = ''/bin/id''), pu_realpath = Some, pu_exec = (\<lambda>p. True)\<rparr>"

lemma pudo_reaches_root_witness:
  "(\<exists>mode content. ps_allow demo_pudod = Some (0, mode, content) \<and>
     ''/bin/id'' \<in> set (take 64 (List.map_filter (listed demo_pudod) (file_lines 4096 content)))) \<and>
   ''/usr/local/bin/pudod'' \<in> set trusted_helpers"
proof -
  have bounded: "realpath_bounded demo_pudod"
    by (auto simp: realpath_bounded_def demo_pudod_def pudod_path_max_def split: if_splits)
  have front: "builtin_pudo demo_pudo [(''PATH'', ''/bin'')] [''pudo'', ''id'', ''-u''] =
      Became ''/usr/local/bin/pudod'' [''/usr/local/bin/pudod'', ''/bin/id'', ''-u''] [''PATH=/bin'']"
    by code_simp
  have root_run: "pudod_main demo_pudod [''/usr/local/bin/pudod'', ''/bin/id'', ''-u''] =
      Run_Root ''/bin/id'' [''/bin/id'', ''-u''] pudod_clean_envp"
    by code_simp
  show ?thesis
    using pudo_reaches_root [OF bounded front root_run] by (auto simp: demo_pudo_def)
qed

end
