(* ===== verification/Plugins.thy ===== *)
theory Plugins
  imports Files Process "HOL-Library.Word"
begin

unbundle bit_operations_syntax

text \<open>
  The loader of plugins (\<open>foundation/plugin_load.c\<close>): where a plugin is searched, the allow-list of
  paths with digests, the checks on the file and the directories above it, the start of the
  library and its end.  The library's own functions, the digest of OpenSSL and the answers of
  the system are parameters.  What the loader does to the library is a list of events.
\<close>

section \<open>Digests as text\<close>

definition hex_nibble :: "char \<Rightarrow> int" where
  "hex_nibble c =
     (if CHR ''0'' \<le> c \<and> c \<le> CHR ''9'' then int (of_char c) - 48
      else if CHR ''a'' \<le> c \<and> c \<le> CHR ''f'' then 10 + (int (of_char c) - 97)
      else if CHR ''A'' \<le> c \<and> c \<le> CHR ''F'' then 10 + (int (of_char c) - 65)
      else - 1)"

definition sha256_len :: nat where "sha256_len = 32"
definition sha256_hex_len :: nat where "sha256_hex_len = 64"

definition parse_sha256_hex :: "string \<Rightarrow> 8 word list option" where
  "parse_sha256_hex hex =
     (if list_all (\<lambda>i. 0 \<le> hex_nibble (at hex (2 * i)) \<and> 0 \<le> hex_nibble (at hex (2 * i + 1))) [0..<sha256_len] \<and>
         at hex sha256_hex_len = NUL
      then Some (map (\<lambda>i. word_of_int (push_bit 4 (hex_nibble (at hex (2 * i))) OR hex_nibble (at hex (2 * i + 1))))
             [0..<sha256_len])
      else None)"

definition hexd :: string where "hexd = ''0123456789abcdef''"

definition petrush_plugin_sha256_to_hex :: "8 word list \<Rightarrow> string" where
  "petrush_plugin_sha256_to_hex dig =
     concat (map (\<lambda>d. [hexd ! unat (drop_bit 4 d AND 15), hexd ! unat (d AND 15)]) dig)"

text \<open>The comparison in constant time answers as \<open>memcmp\<close> would: 0 for equal bytes.\<close>

definition ct_mem_eq :: "8 word list \<Rightarrow> 8 word list \<Rightarrow> int" where
  "ct_mem_eq a b = (if a = b then 0 else 1)"

definition petrush_plugin_sha256_hex_eq :: "string \<Rightarrow> string \<Rightarrow> int" where
  "petrush_plugin_sha256_hex_eq a b =
     (case (parse_sha256_hex a, parse_sha256_hex b) of
        (Some da, Some db) \<Rightarrow> ct_mem_eq da db
      | _ \<Rightarrow> - 1)"

definition is_hex64 :: "string \<Rightarrow> bool" where
  "is_hex64 s \<longleftrightarrow> length s = sha256_hex_len \<and> list_all (\<lambda>c. 0 \<le> hex_nibble c) s"

section \<open>What the loader asks of the system\<close>

record plug_stat =
  pst_regular :: bool
  pst_dir :: bool
  pst_mode :: nat
  pst_size :: int

record plugin_info =
  inf_major :: "32 word"
  inf_minor :: "32 word"
  inf_name :: "string option"
  inf_version :: "string option"

text \<open>The four functions of a library, where it exports them: what \<open>query\<close> returns and fills in,
  what \<open>init\<close> returns.\<close>

record plugin_fns =
  fn_query :: "(int \<times> plugin_info) option"
  fn_init :: "int option"
  fn_cmd :: bool
  fn_fini :: bool

text \<open>A library exports the functions themselves, or a table of them.\<close>

record plugin_lib =
  lib_symbols :: plugin_fns
  lib_vtable :: "plugin_fns option"

text \<open>\<open>pg_text\<close> is what reading a file gives and whether it ends in an error; \<open>pg_open\<close> the \<open>fstat\<close> of
  what was opened, and the bytes read from it.\<close>

record plugin_sys =
  pg_env :: "string \<Rightarrow> string option"
  pg_realpath :: "string \<Rightarrow> string option"
  pg_lstat :: "string \<Rightarrow> plug_stat option"
  pg_stat :: "string \<Rightarrow> plug_stat option"
  pg_text :: "string \<Rightarrow> (string \<times> bool) option"
  pg_open :: "string \<Rightarrow> (plug_stat option \<times> string option) option"
  pg_digest :: "string \<Rightarrow> 8 word list option"
  pg_dlopen :: "string \<Rightarrow> plugin_lib option"

definition plg_path_max :: nat where "plg_path_max = 4096"
definition plugin_allow_max :: nat where "plugin_allow_max = 64"
definition plugin_search_max :: nat where "plugin_search_max = 32"
definition plugin_max_bytes :: int where "plugin_max_bytes = 16 * 1024 * 1024"

definition world_writable :: "plug_stat \<Rightarrow> bool" where
  "world_writable st \<longleftrightarrow> pst_mode st AND 2 \<noteq> 0"

section \<open>The directories above a file\<close>

text \<open>One round cuts the last component, or all but the slash of the root.\<close>

definition cut_component :: "string \<Rightarrow> string" where
  "cut_component p = (if dir_part p = [] then ''/'' else dir_part p)"

lemma dir_part_less: "p \<noteq> [] \<Longrightarrow> length (dir_part p) < length p"
  by (simp add: dir_part_def)

lemma cut_component_less:
  assumes "has_slash p" "cut_component p \<noteq> ''/''"
  shows "length (cut_component p) < length p"
proof -
  have "p \<noteq> []" using assms(1) by (auto simp: has_slash_def)
  then show ?thesis using assms(2) by (auto simp: cut_component_def dir_part_less)
qed

definition safe_dir :: "plugin_sys \<Rightarrow> string \<Rightarrow> bool" where
  "safe_dir sys d =
     (case pg_stat sys d of None \<Rightarrow> False | Some st \<Rightarrow> pst_dir st \<and> \<not> world_writable st)"

function dirs_walk :: "plugin_sys \<Rightarrow> string \<Rightarrow> bool" where
  "dirs_walk sys p =
     (if \<not> has_slash p then False
      else let d = cut_component p in
        if \<not> safe_dir sys d then False
        else if d = ''/'' then True
        else dirs_walk sys d)"
  by pat_completeness auto
termination
  by (relation "measure (\<lambda>(sys, p). length p)") (auto simp: cut_component_less)

declare dirs_walk.simps [simp del]

definition petrush_plugin_path_writable_ok :: "plugin_sys \<Rightarrow> string \<Rightarrow> bool" where
  "petrush_plugin_path_writable_ok sys p =
     (if peek p \<noteq> CHR ''/'' then False
      else case pg_lstat sys p of
        None \<Rightarrow> False
      | Some st \<Rightarrow>
          if \<not> pst_regular st then False
          else if world_writable st then False
          else if length p = 0 \<or> length p \<ge> plg_path_max then False
          else dirs_walk sys p)"

section \<open>The allow-list\<close>

definition tok_blank :: "char \<Rightarrow> bool" where
  "tok_blank c \<longleftrightarrow> c = CHR '' '' \<or> c = TAB"

definition until_blank :: "string \<Rightarrow> string" where
  "until_blank = takeWhile (\<lambda>c. \<not> tok_blank c)"

text \<open>The two words of a line, when it has both.\<close>

definition allow_tokens :: "string \<Rightarrow> (string \<times> string) option" where
  "allow_tokens line =
     (let p = dropWhile tok_blank line in
      if p = [] \<or> peek p = NL \<or> peek p = CHR ''#'' then None
      else let p = takeWhile (\<lambda>c. c \<noteq> NL) p; sp = dropWhile (\<lambda>c. \<not> tok_blank c) p in
        if sp = [] then None
        else let h = dropWhile tok_blank sp in
          if h = [] then None else Some (until_blank p, until_blank h))"

definition allow_wanted :: "string \<Rightarrow> string \<Rightarrow> bool" where
  "allow_wanted path_tok hash_tok \<longleftrightarrow>
     peek path_tok = CHR ''/'' \<and> CHR ''*'' \<notin> set path_tok \<and> is_hex64 hash_tok"

text \<open>A list that is too long is refused as a whole.\<close>

fun plugin_allow_loop ::
  "plugin_sys \<Rightarrow> string list \<Rightarrow> (string \<times> string) list \<Rightarrow> (string \<times> string) list option" where
  "plugin_allow_loop sys [] es = Some es"
| "plugin_allow_loop sys (line # ls) es =
     (case allow_tokens line of
        None \<Rightarrow> plugin_allow_loop sys ls es
      | Some (path_tok, hash_tok) \<Rightarrow>
          if \<not> allow_wanted path_tok hash_tok then plugin_allow_loop sys ls es
          else if length es \<ge> plugin_allow_max then None
          else case pg_realpath sys path_tok of
            None \<Rightarrow> plugin_allow_loop sys ls es
          | Some canon \<Rightarrow>
              if \<not> snprintf_fits plg_path_max canon then plugin_allow_loop sys ls es
              else plugin_allow_loop sys ls (es @ [(canon, hash_tok)]))"

definition allow_file_mode_ok :: "plug_stat \<Rightarrow> bool" where
  "allow_file_mode_ok st \<longleftrightarrow> pst_regular st \<and> \<not> world_writable st"

definition plugin_line_max :: nat where
  "plugin_line_max = plg_path_max + sha256_hex_len + 64"

definition petrush_plugin_allow_parse_file :: "plugin_sys \<Rightarrow> string \<Rightarrow> (string \<times> string) list option" where
  "petrush_plugin_allow_parse_file sys path =
     (if path = [] then None
      else case pg_stat sys path of
        None \<Rightarrow> None
      | Some st \<Rightarrow>
          if \<not> allow_file_mode_ok st then None
          else case pg_text sys path of
            None \<Rightarrow> None
          | Some (content, read_error) \<Rightarrow>
              (case plugin_allow_loop sys (file_lines plugin_line_max content) [] of
                 None \<Rightarrow> None
               | Some es \<Rightarrow> if read_error then None else Some es))"

definition petrush_plugin_allow_find :: "(string \<times> string) list \<Rightarrow> string \<Rightarrow> string option" where
  "petrush_plugin_allow_find es canon = map_option snd (find (\<lambda>e. fst e = canon) es)"

section \<open>Where plugins are searched\<close>

text \<open>\<open>None\<close> is the failure of the whole search.\<close>

definition add_search_dir :: "plugin_sys \<Rightarrow> nat \<Rightarrow> string list \<Rightarrow> string \<Rightarrow> string list option" where
  "add_search_dir sys max_dirs dirs raw =
     (if raw = [] then Some dirs
      else if peek raw \<noteq> CHR ''/'' then Some dirs
      else if length dirs \<ge> max_dirs then None
      else let d = (case pg_realpath sys raw of Some canon \<Rightarrow> canon | None \<Rightarrow> raw) in
        if snprintf_fits plg_path_max d then Some (dirs @ [d]) else None)"

fun add_search_dirs :: "plugin_sys \<Rightarrow> nat \<Rightarrow> string list \<Rightarrow> string list \<Rightarrow> string list option" where
  "add_search_dirs sys max_dirs dirs [] = Some dirs"
| "add_search_dirs sys max_dirs dirs (tok # toks) =
     (case add_search_dir sys max_dirs dirs tok of
        None \<Rightarrow> None
      | Some dirs' \<Rightarrow> add_search_dirs sys max_dirs dirs' toks)"

definition env_abs :: "plugin_sys \<Rightarrow> string \<Rightarrow> string option" where
  "env_abs sys v = (case pg_env sys v of None \<Rightarrow> None | Some d \<Rightarrow> if peek d = CHR ''/'' then Some d else None)"

definition petrush_plugin_search_dirs :: "plugin_sys \<Rightarrow> nat \<Rightarrow> string list option" where
  "petrush_plugin_search_dirs sys max_dirs =
     (if max_dirs = 0 then None
      else case (case pg_env sys ''PETRUSH_PLUGIN_PATH'' of
          None \<Rightarrow> Some []
        | Some v \<Rightarrow> add_search_dirs sys max_dirs [] (strtok_fields (CHR '':'') [] v)) of
        None \<Rightarrow> None
      | Some dirs \<Rightarrow>
          (case env_abs sys ''XDG_DATA_HOME'' of
             Some data \<Rightarrow>
               (let xdg = data @ ''/petrush/plugins'' in
                if snprintf_fits plg_path_max xdg then add_search_dir sys max_dirs dirs xdg else None)
           | None \<Rightarrow>
               (case env_abs sys ''HOME'' of
                  None \<Rightarrow> Some dirs
                | Some home \<Rightarrow>
                    (let xdg = home @ ''/.local/share/petrush/plugins'' in
                     if snprintf_fits plg_path_max xdg then add_search_dir sys max_dirs dirs xdg else None))))"

text \<open>A name with two dots in a row is refused anywhere in it.\<close>

fun two_dots :: "string \<Rightarrow> bool" where
  "two_dots (a # b # s) = (a = CHR ''.'' \<and> b = CHR ''.'' \<or> two_dots (b # s))"
| "two_dots s = False"

definition name_is_safe_basename :: "string \<Rightarrow> bool" where
  "name_is_safe_basename name \<longleftrightarrow>
     name \<noteq> [] \<and> CHR ''/'' \<notin> set name \<and> CHR 0x5C \<notin> set name \<and> name \<noteq> ''.'' \<and> name \<noteq> ''..'' \<and>
     \<not> two_dots name"

definition has_so :: "string \<Rightarrow> bool" where
  "has_so name \<longleftrightarrow> length name > 3 \<and> drop (length name - 3) name = ''.so''"

definition plugin_candidate :: "string \<Rightarrow> string \<Rightarrow> string" where
  "plugin_candidate dir name = dir @ ''/'' @ name @ (if has_so name then [] else ''.so'')"

fun resolve_loop :: "plugin_sys \<Rightarrow> string \<Rightarrow> string list \<Rightarrow> string option" where
  "resolve_loop sys name [] = None"
| "resolve_loop sys name (d # ds) =
     (let c = plugin_candidate d name in
      if \<not> snprintf_fits plg_path_max c then resolve_loop sys name ds
      else case pg_realpath sys c of
        Some canon \<Rightarrow> Some canon
      | None \<Rightarrow> resolve_loop sys name ds)"

definition petrush_plugin_resolve :: "plugin_sys \<Rightarrow> string \<Rightarrow> string option" where
  "petrush_plugin_resolve sys name =
     (if \<not> name_is_safe_basename name then None
      else case petrush_plugin_search_dirs sys plugin_search_max of
        None \<Rightarrow> None
      | Some dirs \<Rightarrow> resolve_loop sys name dirs)"

definition fitting :: "string \<Rightarrow> string option" where
  "fitting p = (if snprintf_fits plg_path_max p then Some p else None)"

definition default_allow_path :: "plugin_sys \<Rightarrow> string option" where
  "default_allow_path sys =
     (case env_abs sys ''PETRUSH_PLUGIN_ALLOW'' of
        Some p \<Rightarrow> fitting p
      | None \<Rightarrow>
          (case env_abs sys ''XDG_CONFIG_HOME'' of
             Some xdg \<Rightarrow> fitting (xdg @ ''/petrush/plugins.allow'')
           | None \<Rightarrow>
               (case env_abs sys ''HOME'' of
                  None \<Rightarrow> None
                | Some home \<Rightarrow> fitting (home @ ''/.config/petrush/plugins.allow''))))"

section \<open>Loading and unloading\<close>

definition PLG_OK :: int where "PLG_OK = 0"
definition PLG_ERR_ARG :: int where "PLG_ERR_ARG = - 1"
definition PLG_ERR_NOTFOUND :: int where "PLG_ERR_NOTFOUND = - 2"
definition PLG_ERR_PERM :: int where "PLG_ERR_PERM = - 3"
definition PLG_ERR_ALLOW :: int where "PLG_ERR_ALLOW = - 4"
definition PLG_ERR_HASH :: int where "PLG_ERR_HASH = - 5"
definition PLG_ERR_ABI :: int where "PLG_ERR_ABI = - 6"
definition PLG_ERR_DLOPEN :: int where "PLG_ERR_DLOPEN = - 7"
definition PLG_ERR_IO :: int where "PLG_ERR_IO = - 8"
definition PLG_ERR_SIZE :: int where "PLG_ERR_SIZE = - 9"

lemmas plg_codes = PLG_OK_def PLG_ERR_ARG_def PLG_ERR_NOTFOUND_def PLG_ERR_PERM_def PLG_ERR_ALLOW_def
  PLG_ERR_HASH_def PLG_ERR_ABI_def PLG_ERR_DLOPEN_def PLG_ERR_IO_def PLG_ERR_SIZE_def

definition abi_major :: "32 word" where "abi_major = 1"
definition abi_minor :: "32 word" where "abi_minor = 0"

record plugin =
  plg_handle :: bool
  plg_path :: string
  plg_sha256 :: string
  plg_name :: string
  plg_version :: string
  plg_major :: "32 word"
  plg_minor :: "32 word"
  plg_cmd :: bool
  plg_fini :: bool
  plg_initialized :: bool

definition empty_plugin :: plugin where
  "empty_plugin = \<lparr>plg_handle = False, plg_path = [], plg_sha256 = [], plg_name = [], plg_version = [],
     plg_major = 0, plg_minor = 0, plg_cmd = False, plg_fini = False, plg_initialized = False\<rparr>"

text \<open>What happens to the library: it is opened (its constructors run), one of its functions is
  called, it is closed.\<close>

datatype plugin_event = Lib_Open string | Lib_Query | Lib_Init | Lib_Fini | Lib_Close

text \<open>The part before the library is touched: the code of a refusal, or the path and the digest.\<close>

definition plugin_checks :: "plugin_sys \<Rightarrow> string \<Rightarrow> string option \<Rightarrow> int + string \<times> string" where
  "plugin_checks sys name allow_path =
     (case petrush_plugin_resolve sys name of
        None \<Rightarrow> Inl PLG_ERR_NOTFOUND
      | Some canon \<Rightarrow>
          if \<not> petrush_plugin_path_writable_ok sys canon then Inl PLG_ERR_PERM
          else case (case allow_path of Some p \<Rightarrow> Some p | None \<Rightarrow> default_allow_path sys) of
            None \<Rightarrow> Inl PLG_ERR_ALLOW
          | Some ause \<Rightarrow>
          (case petrush_plugin_allow_parse_file sys ause of
            None \<Rightarrow> Inl PLG_ERR_ALLOW
          | Some allow \<Rightarrow>
          (case petrush_plugin_allow_find allow canon of
            None \<Rightarrow> Inl PLG_ERR_ALLOW
          | Some expect_hex \<Rightarrow>
          (case pg_open sys canon of
            None \<Rightarrow> Inl PLG_ERR_IO
          | Some (fstat, content) \<Rightarrow>
          (case fstat of
            None \<Rightarrow> Inl PLG_ERR_IO
          | Some st \<Rightarrow>
              if \<not> pst_regular st then Inl PLG_ERR_IO
              else if world_writable st then Inl PLG_ERR_PERM
              else if pst_size st > plugin_max_bytes then Inl PLG_ERR_SIZE
              else case Option.bind content (pg_digest sys) of
                None \<Rightarrow> Inl PLG_ERR_HASH
              | Some dig \<Rightarrow>
                  let got_hex = petrush_plugin_sha256_to_hex dig in
                  if petrush_plugin_sha256_hex_eq got_hex expect_hex \<noteq> 0 then Inl PLG_ERR_HASH
                  else Inr (canon, got_hex))))))"

definition fns_complete :: "plugin_fns \<Rightarrow> bool" where
  "fns_complete f \<longleftrightarrow> fn_query f \<noteq> None \<and> fn_init f \<noteq> None \<and> fn_cmd f \<and> fn_fini f"

definition plugin_functions :: "plugin_lib \<Rightarrow> plugin_fns option" where
  "plugin_functions lib =
     (if fns_complete (lib_symbols lib) then Some (lib_symbols lib)
      else case lib_vtable lib of
        None \<Rightarrow> None
      | Some vt \<Rightarrow> if fns_complete vt then Some vt else None)"

definition opt_text :: "nat \<Rightarrow> string option \<Rightarrow> string" where
  "opt_text n t = (case t of None \<Rightarrow> [] | Some s \<Rightarrow> snprintf n s)"

text \<open>The part after: the code, the plugin, what was done to the library.\<close>

definition plugin_start :: "plugin_sys \<Rightarrow> string \<Rightarrow> string \<Rightarrow> int \<times> plugin \<times> plugin_event list" where
  "plugin_start sys canon got_hex =
     (case pg_dlopen sys canon of
        None \<Rightarrow> (PLG_ERR_DLOPEN, empty_plugin, [])
      | Some lib \<Rightarrow>
     (case plugin_functions lib of
        None \<Rightarrow> (PLG_ERR_DLOPEN, empty_plugin, [Lib_Open canon, Lib_Close])
      | Some f \<Rightarrow>
          (let (rc, info) = the (fn_query f) in
           if rc \<noteq> 0 then (PLG_ERR_ABI, empty_plugin, [Lib_Open canon, Lib_Query, Lib_Close])
           else if inf_major info \<noteq> abi_major then (PLG_ERR_ABI, empty_plugin, [Lib_Open canon, Lib_Query, Lib_Close])
           else if inf_minor info > abi_minor then (PLG_ERR_ABI, empty_plugin, [Lib_Open canon, Lib_Query, Lib_Close])
           else if the (fn_init f) \<noteq> 0
           then (PLG_ERR_ABI, empty_plugin, [Lib_Open canon, Lib_Query, Lib_Init, Lib_Fini, Lib_Close])
           else if \<not> snprintf_fits plg_path_max canon
           then (PLG_ERR_IO, empty_plugin\<lparr>plg_path := snprintf plg_path_max canon\<rparr>,
                 [Lib_Open canon, Lib_Query, Lib_Init, Lib_Fini, Lib_Close])
           else (PLG_OK,
             \<lparr>plg_handle = True, plg_path = canon, plg_sha256 = got_hex,
              plg_name = opt_text 128 (inf_name info), plg_version = opt_text 64 (inf_version info),
              plg_major = inf_major info, plg_minor = inf_minor info,
              plg_cmd = True, plg_fini = True, plg_initialized = True\<rparr>,
             [Lib_Open canon, Lib_Query, Lib_Init]))))"

definition petrush_plugin_load ::
  "plugin_sys \<Rightarrow> string option \<Rightarrow> string option \<Rightarrow> int \<times> plugin \<times> plugin_event list" where
  "petrush_plugin_load sys name allow_path =
     (case name of
        None \<Rightarrow> (PLG_ERR_ARG, empty_plugin, [])
      | Some n \<Rightarrow>
          (case plugin_checks sys n allow_path of
             Inl rc \<Rightarrow> (rc, empty_plugin, [])
           | Inr (canon, got_hex) \<Rightarrow> plugin_start sys canon got_hex))"


section \<open>Digests, once more\<close>

lemma hex_digit_value: "i < 16 \<Longrightarrow> hex_nibble (hexd ! i) = int i"
proof -
  have "list_all (\<lambda>i. hex_nibble (hexd ! i) = int i) [0..<16]" by code_simp
  then show "i < 16 \<Longrightarrow> ?thesis" by (auto simp: list_all_iff)
qed

lemma byte_from_nibbles:
  "word_of_int (push_bit 4 (int (unat (drop_bit 4 d AND 15))) OR int (unat (d AND 15))) = (d :: 8 word)"
proof -
  have low: "x AND 15 = take_bit 4 x" for x :: "8 word"
    by (simp add: take_bit_eq_mask mask_eq_exp_minus_1)
  show ?thesis unfolding low
    by (intro bit_word_eqI) (auto simp: bit_simps)
qed

lemma at_concat_pairs:
  "i < length ds \<Longrightarrow> at (concat (map (\<lambda>d. [f d, g d]) ds)) (2 * i) = f (ds ! i) \<and>
     at (concat (map (\<lambda>d. [f d, g d]) ds)) (2 * i + 1) = g (ds ! i)"
proof (induction ds arbitrary: i)
  case (Cons d ds)
  then show ?case by (cases i) auto
qed simp

lemma parse_to_hex:
  assumes "length dig = sha256_len"
  shows "parse_sha256_hex (petrush_plugin_sha256_to_hex dig) = Some dig"
proof -
  let ?h = "petrush_plugin_sha256_to_hex dig"
  have low: "unat (x AND 15) < 16" for x :: "8 word"
  proof -
    have "x AND 15 \<le> 15" by (rule word_and_le1)
    then have "unat (x AND 15) \<le> unat (15 :: 8 word)" by (simp add: word_le_nat_alt)
    then show ?thesis by simp
  qed
  have hi: "hex_nibble (at ?h (2 * i)) = int (unat (drop_bit 4 (dig ! i) AND 15))"
    and lo: "hex_nibble (at ?h (2 * i + 1)) = int (unat (dig ! i AND 15))" if "i < sha256_len" for i
    using at_concat_pairs [of i dig] that assms low
    by (simp_all add: petrush_plugin_sha256_to_hex_def hex_digit_value)
  have len: "length ?h = sha256_hex_len"
    by (simp add: petrush_plugin_sha256_to_hex_def length_concat comp_def assms
        sum_list_triv sha256_len_def sha256_hex_len_def)
  have "at ?h sha256_hex_len = NUL"
    by (simp add: at_def len)
  moreover have byte: "word_of_int (push_bit 4 (hex_nibble (at ?h (2 * i))) OR hex_nibble (at ?h (2 * i + 1))) = dig ! i"
    if "i < sha256_len" for i
    unfolding hi [OF that] lo [OF that] by (rule byte_from_nibbles)
  have "map (\<lambda>i. word_of_int (push_bit 4 (hex_nibble (at ?h (2 * i))) OR hex_nibble (at ?h (2 * i + 1))))
      [0..<sha256_len] = dig"
    by (rule nth_equalityI) (simp_all add: assms byte [simplified])
  ultimately show ?thesis
    using hi lo by (auto simp: parse_sha256_hex_def list_all_iff)
qed

lemma hex_eq_to_hex:
  assumes "length dig = sha256_len"
  shows "petrush_plugin_sha256_hex_eq (petrush_plugin_sha256_to_hex dig) h = 0 \<longleftrightarrow>
    parse_sha256_hex h = Some dig"
  by (auto simp: petrush_plugin_sha256_hex_eq_def parse_to_hex [OF assms] ct_mem_eq_def split: option.split)

section \<open>What the walk looks at\<close>

text \<open>The directories that a path names on its way to its last component.\<close>

definition above_dirs :: "string \<Rightarrow> string list" where
  "above_dirs p = map (\<lambda>i. if i = 0 then ''/'' else take i p) (filter (\<lambda>i. p ! i = CHR ''/'') [0..<length p])"

lemma above_dirs_snoc:
  assumes "CHR ''/'' \<notin> set b"
  shows "above_dirs (d @ CHR ''/'' # b) = above_dirs d @ [if d = [] then ''/'' else d]"
proof -
  let ?p = "d @ CHR ''/'' # b"
  have split: "[0..<length ?p] = [0..<length d] @ length d # [Suc (length d)..<length ?p]"
    using upt_add_eq_append [of 0 "length d" "Suc (length b)"] by (simp add: upt_conv_Cons del: upt_Suc)
  have no: "filter (\<lambda>i. ?p ! i = CHR ''/'') [Suc (length d)..<length ?p] = []"
    using assms by (auto simp: filter_empty_conv nth_append nth_Cons' in_set_conv_nth)
  have same: "map (\<lambda>i. if i = 0 then ''/'' else take i ?p) (filter (\<lambda>i. ?p ! i = CHR ''/'') [0..<length d]) =
      above_dirs d"
    unfolding above_dirs_def by (rule map_cong [OF filter_cong]) (auto simp: nth_append)
  show ?thesis
    unfolding above_dirs_def [of ?p] split filter_append map_append same filter.simps no
    by simp
qed

lemma dirs_walk_above:
  "peek p = CHR ''/'' \<Longrightarrow> dirs_walk sys p \<longleftrightarrow> list_all (safe_dir sys) (above_dirs p)"
proof (induction sys p rule: dirs_walk.induct)
  case (1 sys p)
  then have slash: "has_slash p" by (cases p) (auto simp: has_slash_def)
  have parts: "p = dir_part p @ CHR ''/'' # base_name p" by (rule path_parts [OF slash])
  have above: "above_dirs p = above_dirs (dir_part p) @ [cut_component p]"
    by (subst parts, subst above_dirs_snoc) (simp_all add: base_name_plain cut_component_def)
  consider "dir_part p = []" | "dir_part p = ''/''" | "cut_component p \<noteq> ''/''" "cut_component p = dir_part p"
    unfolding cut_component_def by metis
  then show ?case
  proof cases
    case 1
    then show ?thesis
      using slash above by (simp add: dirs_walk.simps [of sys p] cut_component_def above_dirs_def)
  next
    case 2
    then show ?thesis
      using slash above by (auto simp: dirs_walk.simps [of sys p] cut_component_def above_dirs_def)
  next
    case 3
    have "dir_part p \<noteq> []" using 3 by (auto simp: cut_component_def)
    then have "peek (dir_part p) = CHR ''/''"
      using 1(2) by (subst (asm) parts) (simp add: peek_append)
    then have "dirs_walk sys (dir_part p) \<longleftrightarrow> list_all (safe_dir sys) (above_dirs (dir_part p))"
      if "safe_dir sys (cut_component p)"
      using 1(1) [OF _ refl] slash that 3 by simp
    then show ?thesis
      using slash 3 by (auto simp: dirs_walk.simps [of sys p] above Let_def)
  qed
qed

section \<open>What the allow-list vouches for\<close>

definition vouched :: "plugin_sys \<Rightarrow> string \<Rightarrow> string \<times> string \<Rightarrow> bool" where
  "vouched sys line e \<longleftrightarrow>
     (\<exists>tok. allow_tokens line = Some (tok, snd e) \<and> allow_wanted tok (snd e) \<and> pg_realpath sys tok = Some (fst e))"

lemma plugin_allow_loop_vouched:
  "plugin_allow_loop sys ls es = Some es' \<Longrightarrow> e \<in> set es' \<Longrightarrow> e \<in> set es \<or> (\<exists>line \<in> set ls. vouched sys line e)"
proof (induction ls arbitrary: es)
  case (Cons line ls)
  consider "plugin_allow_loop sys ls es = Some es'"
    | tok h c where "allow_tokens line = Some (tok, h)" "allow_wanted tok h" "pg_realpath sys tok = Some c"
        "plugin_allow_loop sys ls (es @ [(c, h)]) = Some es'"
    using Cons.prems(1) by (auto split: option.splits prod.splits if_splits)
  then show ?case
  proof cases
    case 1
    then show ?thesis using Cons by auto
  next
    case 2
    then have "e \<in> set (es @ [(c, h)]) \<or> (\<exists>line \<in> set ls. vouched sys line e)"
      using Cons by blast
    then show ?thesis using 2 by (auto simp: vouched_def)
  qed
qed simp

lemma allow_find_mem: "petrush_plugin_allow_find es p = Some h \<Longrightarrow> (p, h) \<in> set es"
  unfolding petrush_plugin_allow_find_def find_Some_iff map_option_eq_Some
  by (metis nth_mem prod.collapse)

lemma allow_file_vouched:
  assumes "petrush_plugin_allow_parse_file sys path = Some es" "petrush_plugin_allow_find es p = Some h"
  shows "\<exists>content line. pg_text sys path = Some (content, False) \<and>
    line \<in> set (file_lines plugin_line_max content) \<and> vouched sys line (p, h)"
  using assms plugin_allow_loop_vouched [OF _ allow_find_mem [OF assms(2)], of sys _ "[]"]
  by (auto simp: petrush_plugin_allow_parse_file_def split: if_splits option.splits prod.splits)


lemma plugin_start_events:
  assumes "plugin_start sys p h = (rc, pl, ev)"
  shows "ev = [] \<and> pl = empty_plugin \<and> rc \<noteq> 0 \<or>
    (\<exists>mid. ev = Lib_Open p # mid @ [Lib_Close] \<and> mid \<in> {[], [Lib_Query], [Lib_Query, Lib_Init, Lib_Fini]} \<and>
       \<not> plg_handle pl \<and> \<not> plg_fini pl \<and> \<not> plg_initialized pl \<and> rc \<noteq> 0) \<or>
    ev = [Lib_Open p, Lib_Query, Lib_Init] \<and> plg_handle pl \<and> plg_fini pl \<and> plg_initialized pl \<and> rc = 0"
  using assms
  by (auto simp: plugin_start_def plg_codes empty_plugin_def Let_def split: option.splits prod.splits if_splits)

section \<open>What a plugin has gone through\<close>

text \<open>
  C17. A library is opened, so that its code runs, only if: its name is a plain file name; every
  directory on its canonical path and the file itself are free of a write permission for
  others; the allow-list has a line whose absolute path, without a star, resolves to that
  path; and the digest on that line, read as hexadecimal, is the digest of the bytes of the
  opened file, a regular one of at most 16 MiB.
\<close>

theorem plugin_opened_checked:
  assumes digests: "\<forall>t d. pg_digest sys t = Some d \<longrightarrow> length d = 32"
    and load: "petrush_plugin_load sys (Some name) allow_path = (rc, pl, ev)"
    and opened: "Lib_Open p \<in> set ev"
  shows "name_is_safe_basename name \<and> list_all (safe_dir sys) (above_dirs p) \<and>
    (\<exists>st. pg_lstat sys p = Some st \<and> pst_regular st \<and> \<not> world_writable st) \<and>
    (\<exists>st content dig. pg_open sys p = Some (Some st, Some content) \<and> pst_regular st \<and>
       \<not> world_writable st \<and> pst_size st \<le> 16777216 \<and> pg_digest sys content = Some dig \<and>
       (\<exists>allow lines line tok h. pg_text sys allow = Some (lines, False) \<and>
          line \<in> set (file_lines 4224 lines) \<and> allow_tokens line = Some (tok, h) \<and> allow_wanted tok h \<and>
          pg_realpath sys tok = Some p \<and> parse_sha256_hex h = Some dig))"
proof -
  obtain canon hex where checks: "plugin_checks sys name allow_path = Inr (canon, hex)"
    and start: "plugin_start sys canon hex = (rc, pl, ev)"
    using load opened by (auto simp: petrush_plugin_load_def split: sum.splits)
  have p: "canon = p"
    using plugin_start_events [OF start] opened by auto
  obtain allow es h st content dig where c: "petrush_plugin_resolve sys name = Some p"
      "petrush_plugin_path_writable_ok sys p" "petrush_plugin_allow_parse_file sys allow = Some es"
      "petrush_plugin_allow_find es p = Some h" "pg_open sys p = Some (Some st, Some content)"
      "pst_regular st" "\<not> world_writable st" "pst_size st \<le> plugin_max_bytes" "pg_digest sys content = Some dig"
      "petrush_plugin_sha256_hex_eq (petrush_plugin_sha256_to_hex dig) h = 0"
    using checks p
    by (auto simp: plugin_checks_def Let_def bind_eq_Some_conv split: option.splits if_splits prod.splits)
  have dig: "parse_sha256_hex h = Some dig"
    using c(10) digests c(9) by (simp add: hex_eq_to_hex sha256_len_def)
  have walk: "list_all (safe_dir sys) (above_dirs p)"
      "\<exists>st. pg_lstat sys p = Some st \<and> pst_regular st \<and> \<not> world_writable st"
    using c(2) by (auto simp: petrush_plugin_path_writable_ok_def dirs_walk_above split: if_splits option.splits)
  have name: "name_is_safe_basename name"
    using c(1) by (auto simp: petrush_plugin_resolve_def split: if_splits)
  have max: "plugin_line_max = 4224" by code_simp
  obtain lines line tok where line: "pg_text sys allow = Some (lines, False)"
      "line \<in> set (file_lines 4224 lines)" "allow_tokens line = Some (tok, h)" "allow_wanted tok h"
      "pg_realpath sys tok = Some p"
    using allow_file_vouched [OF c(3,4)] unfolding max vouched_def fst_conv snd_conv by blast
  have size: "pst_size st \<le> 16777216" using c(8) by (simp add: plugin_max_bytes_def)
  show ?thesis
    by (intro conjI name walk exI [of _ st] exI [of _ content] exI [of _ dig] exI [of _ allow]
        exI [of _ lines] exI [of _ line] exI [of _ tok] exI [of _ h] c(5-7,9) size line dig)
qed

text \<open>A plugin that passes every check, whose digest is 32 zero bytes.\<close>

definition demo_plugins :: plugin_sys where
  "demo_plugins =
     \<lparr>pg_env = [''HOME'' \<mapsto> ''/h''],
      pg_realpath = (\<lambda>p. if p = ''/h/.local/share/petrush/plugins'' then Some ''/p''
                         else if p = ''/p/x.so'' then Some p else None),
      pg_lstat = [''/p/x.so'' \<mapsto> \<lparr>pst_regular = True, pst_dir = False, pst_mode = 420, pst_size = 9\<rparr>],
      pg_stat = (\<lambda>p. Some \<lparr>pst_regular = (p = ''/a''), pst_dir = (p \<noteq> ''/a''), pst_mode = 493, pst_size = 9\<rparr>),
      pg_text = (\<lambda>p. Some (''/p/x.so '' @ replicate 64 (CHR ''0''), False)),
      pg_open = (\<lambda>p. Some (Some \<lparr>pst_regular = True, pst_dir = False, pst_mode = 420, pst_size = 9\<rparr>, Some ''code'')),
      pg_digest = (\<lambda>t. Some (replicate 32 0)),
      pg_dlopen = (\<lambda>p. Some \<lparr>lib_symbols =
         \<lparr>fn_query = Some (0, \<lparr>inf_major = 1, inf_minor = 0, inf_name = Some ''x'', inf_version = None\<rparr>),
          fn_init = Some 0, fn_cmd = True, fn_fini = True\<rparr>, lib_vtable = None\<rparr>)\<rparr>"

lemma demo_plugin_loads:
  "petrush_plugin_load demo_plugins (Some ''x'') (Some ''/a'') =
     (0, \<lparr>plg_handle = True, plg_path = ''/p/x.so'', plg_sha256 = replicate 64 (CHR ''0''), plg_name = ''x'',
          plg_version = [], plg_major = 1, plg_minor = 0, plg_cmd = True, plg_fini = True, plg_initialized = True\<rparr>,
      [Lib_Open ''/p/x.so'', Lib_Query, Lib_Init])"
  by code_simp

lemma demo_digests: "\<forall>t d. pg_digest demo_plugins t = Some d \<longrightarrow> length d = 32"
  by (auto simp: demo_plugins_def)

lemma plugin_opened_checked_witness:
  "list_all (safe_dir demo_plugins) (above_dirs ''/p/x.so'') \<and> above_dirs ''/p/x.so'' = [''/'', ''/p''] \<and>
   (\<exists>st. pg_lstat demo_plugins ''/p/x.so'' = Some st \<and> \<not> world_writable st)"
proof -
  have "Lib_Open ''/p/x.so'' \<in> set [Lib_Open ''/p/x.so'', Lib_Query, Lib_Init]" by simp
  from plugin_opened_checked [OF demo_digests demo_plugin_loads this]
  show ?thesis by (auto simp: above_dirs_def upt_rec)
qed



end
