(* ===== verification/Inventory.thy ===== *)
theory Inventory
  imports Files "HOL-Library.Sublist"
begin

text \<open>
  What the two inventories of the machine (\<open>mid/wai.c\<close> and \<open>mid/netcom.c\<close>) share: text appended to
  a buffer of fixed size, paths under a root, and the first line of a small file.  The code of
  the two files is the same here, up to the names of the variables.
\<close>

section \<open>A buffer of fixed size\<close>

definition ENOSPC :: int where "ENOSPC = 28"

text \<open>A writer gets the capacity of the buffer and the text in it, and gives a code and the text
  after it; one byte of the buffer is kept for the NUL.\<close>

type_synonym writer = "nat \<Rightarrow> string \<Rightarrow> int \<times> string"

definition append_bytes :: "string \<Rightarrow> writer" where
  "append_bytes data cap w =
     (if cap = 0 then (- ENOSPC, w)
      else if length w \<ge> cap then (- ENOSPC, w)
      else if length data > cap - 1 - length w then (- ENOSPC, w)
      else (0, w @ data))"

definition append_str :: "string \<Rightarrow> writer" where
  "append_str s = append_bytes s"

text \<open>The next step runs only when the one before returned 0.\<close>

definition then_write :: "writer \<Rightarrow> writer \<Rightarrow> writer" where
  "then_write f g cap w = (case f cap w of (rc, w') \<Rightarrow> if rc \<noteq> 0 then (rc, w') else g cap w')"

definition write_nothing :: writer where
  "write_nothing cap w = (0, w)"

fun write_all :: "writer list \<Rightarrow> writer" where
  "write_all [] = write_nothing"
| "write_all (f # fs) = then_write f (write_all fs)"

definition write_error :: "int \<Rightarrow> writer" where
  "write_error rc cap w = (rc, w)"

definition append_section :: "string \<Rightarrow> writer" where
  "append_section name = write_all [append_str ''# '', append_str name, append_str [NL]]"

section \<open>The file system below a root\<close>

text \<open>\<open>iv_text\<close> is what reading an opened file gives (nothing for a directory); \<open>iv_list\<close> the entries of
  a directory in the order of \<open>readdir\<close>.\<close>

record inv_sys =
  iv_root :: string
  iv_text :: "string \<Rightarrow> string option"
  iv_list :: "string \<Rightarrow> string list option"
  iv_readable :: "string \<Rightarrow> bool"
  iv_exists :: "string \<Rightarrow> bool"
  iv_isdir :: "string \<Rightarrow> bool"

definition inv_root_max :: nat where "inv_root_max = 256"
definition inv_path_max :: nat where "inv_path_max = 512"

text \<open>The root as it is kept: cut to the buffer, without the slashes at its end.\<close>

function strip_slashes :: "string \<Rightarrow> string" where
  "strip_slashes r = (if length r > 1 \<and> List.last r = CHR ''/'' then strip_slashes (butlast r) else r)"
  by pat_completeness auto
termination by (relation "measure length") auto

declare strip_slashes.simps [simp del]

definition set_root :: "string \<Rightarrow> string" where
  "set_root root = (if root = [] then [] else strip_slashes (take (inv_root_max - 1) root))"

definition join_path :: "inv_sys \<Rightarrow> nat \<Rightarrow> string \<Rightarrow> string option" where
  "join_path sys cap rel =
     (let rel = (if peek rel = CHR ''/'' then tl rel else rel);
          p = (if iv_root sys = [] then CHR ''/'' # rel else iv_root sys @ CHR ''/'' # rel)
      in if length p < cap then Some p else None)"

text \<open>The first line of a file, cut to the buffer, without its end; \<open>None\<close> is \<open>- 1\<close>.\<close>

definition read_trim :: "inv_sys \<Rightarrow> string \<Rightarrow> nat \<Rightarrow> string option" where
  "read_trim sys rel buf =
     (case join_path sys inv_path_max rel of
        None \<Rightarrow> None
      | Some p \<Rightarrow>
          (case iv_text sys p of
             None \<Rightarrow> None
           | Some t \<Rightarrow> (case fgets buf t of None \<Rightarrow> None | Some (l, _) \<Rightarrow> Some (chomp l))))"

section \<open>Writers and the text they write\<close>

text \<open>A writer writes a text when it appends all of it if it fits, and otherwise reports the lack
  of space after a part of it.\<close>

definition writes :: "writer \<Rightarrow> string \<Rightarrow> bool" where
  "writes f t \<longleftrightarrow> (\<forall>cap w. length w < cap \<longrightarrow>
     (if length w + length t < cap then f cap w = (0, w @ t)
      else \<exists>p. f cap w = (- ENOSPC, w @ p) \<and> prefix p t))"

named_theorems written

lemma writes_append [written]: "writes (append_str s) s"
  by (auto simp: writes_def append_str_def append_bytes_def)

lemma writes_nothing [written]: "writes write_nothing []"
  by (simp add: writes_def write_nothing_def)

lemma writes_then [written]:
  assumes f: "writes f t" and g: "writes g u"
  shows "writes (then_write f g) (t @ u)"
  unfolding writes_def
proof (intro allI impI)
  fix cap and w :: string
  assume w: "length w < cap"
  show "if length w + length (t @ u) < cap then then_write f g cap w = (0, w @ t @ u)
    else \<exists>p. then_write f g cap w = (- ENOSPC, w @ p) \<and> prefix p (t @ u)"
  proof (cases "length w + length t < cap")
    case True
    then have "f cap w = (0, w @ t)" using f w by (simp add: writes_def)
    moreover have "if length (w @ t) + length u < cap then g cap (w @ t) = (0, (w @ t) @ u)
      else \<exists>p. g cap (w @ t) = (- ENOSPC, (w @ t) @ p) \<and> prefix p u"
      using g True unfolding writes_def by (metis length_append)
    ultimately show ?thesis by (auto simp: then_write_def split: if_splits)
  next
    case False
    then obtain p where "f cap w = (- ENOSPC, w @ p)" "prefix p t"
      using f w unfolding writes_def by meson
    then show ?thesis using False by (auto simp: then_write_def ENOSPC_def prefix_append)
  qed
qed

lemma writes_all: "list_all2 writes fs ts \<Longrightarrow> writes (write_all fs) (concat ts)"
  by (induction rule: list_all2_induct) (auto intro: written)

lemma writes_one [written]: "writes f t \<Longrightarrow> writes (write_all [f]) t"
  using writes_all [of "[f]" "[t]"] by simp

lemma writes_more [written]: "writes f t \<Longrightarrow> writes (write_all (g # fs)) u \<Longrightarrow> writes (write_all (f # g # fs)) (t @ u)"
  using writes_then [of f t "write_all (g # fs)" u] by simp

lemma writes_map: "(\<And>x. x \<in> set xs \<Longrightarrow> writes (f x) (t x)) \<Longrightarrow> writes (write_all (map f xs)) (concat (map t xs))"
  by (rule writes_all) (simp add: list_all2_map1 list_all2_map2 list_all2_same)

lemma writes_section [written]: "writes (append_section name) (''# '' @ name @ [NL])"
  unfolding append_section_def by (intro written)

text \<open>The result of a scan: the code, or the length of the text.\<close>

lemma writes_result:
  assumes "writes f t" "0 < cap"
  shows "if length t < cap
    then (case f cap [] of (rc, w) \<Rightarrow> (if rc \<noteq> 0 then rc else int (length w), w)) = (int (length t), t)
    else \<exists>p. (case f cap [] of (rc, w) \<Rightarrow> (if rc \<noteq> 0 then rc else int (length w), w)) = (- 28, p) \<and> prefix p t"
  using assms(1) [unfolded writes_def, rule_format, of "[]" cap] assms(2) by (auto simp: ENOSPC_def)

section \<open>Scans of a directory\<close>

definition scan_entries :: "(string \<Rightarrow> bool) \<Rightarrow> (string \<Rightarrow> writer) \<Rightarrow> string list \<Rightarrow> writer" where
  "scan_entries skipped entry es = write_all (map entry (filter (\<lambda>e. \<not> skipped e) es))"

text \<open>What a scan asks of its entries: each one that is not left out writes its text.\<close>

locale entry_scan =
  fixes skipped :: "string \<Rightarrow> bool"
    and entry :: "string \<Rightarrow> writer"
    and entry_text :: "string \<Rightarrow> string"
  assumes entry_writes: "writes (entry e) (entry_text e)"
begin

lemma scan_writes: "writes (scan_entries skipped entry es) (concat (map entry_text (filter (\<lambda>e. \<not> skipped e) es)))"
  unfolding scan_entries_def by (rule writes_map) (rule entry_writes)

end

section \<open>Roots and paths\<close>

lemma length_strip: "length (strip_slashes r) \<le> length r"
  by (induction r rule: strip_slashes.induct) (subst strip_slashes.simps, auto)

lemma length_set_root: "length (set_root r) < inv_root_max"
  using length_strip [of "take (inv_root_max - 1) r"] by (auto simp: set_root_def inv_root_max_def)

lemma join_fits:
  assumes "length (iv_root sys) < inv_root_max" "length rel \<le> 254"
  shows "join_path sys inv_path_max rel \<noteq> None"
  using assms by (auto simp: join_path_def inv_path_max_def inv_root_max_def Let_def)

text \<open>The file that a relative path names.\<close>

definition below :: "inv_sys \<Rightarrow> string \<Rightarrow> string" where
  "below sys rel = iv_root sys @ CHR ''/'' # rel"

lemma join_below:
  assumes "peek rel \<noteq> CHR ''/''" "join_path sys n rel = Some p"
  shows "p = below sys rel"
  using assms by (auto simp: join_path_def below_def Let_def split: if_splits)

lemma join_some:
  assumes "length (iv_root sys) < inv_root_max" "length rel \<le> 254" "peek rel \<noteq> CHR ''/''"
  shows "join_path sys inv_path_max rel = Some (below sys rel)"
  using join_fits [OF assms(1,2)] join_below [OF assms(3)] by fastforce

end
