(* ===== verification/Wai.thy ===== *)
theory Wai
  imports Inventory "HOL-Library.Word"
begin

unbundle bit_operations_syntax

text \<open>
  The builtin \<open>wai\<close> (\<open>mid/wai.c\<close>): the inventory of the hardware from the files below \<open>/sys\<close> and
  \<open>/proc\<close>, without names or lines that speak of serial numbers or UUIDs.
\<close>

section \<open>Names and lines that are left out\<close>

definition lower :: "char \<Rightarrow> char" where
  "lower c = (if 65 \<le> code c \<and> code c \<le> 90 then char_of (code c + 32) else c)"

fun has_text :: "string \<Rightarrow> string \<Rightarrow> bool" where
  "has_text pat [] = (pat = [])"
| "has_text pat (c # s) = (take (length pat) (c # s) = pat \<or> has_text pat s)"

text \<open>Only the first 127 bytes are looked at.\<close>

definition name_is_banned :: "string \<Rightarrow> bool" where
  "name_is_banned name =
     (let low = map lower (take 127 name) in
      if has_text ''serial'' low then True
      else if has_text ''uuid'' low then True
      else False)"

definition line_is_banned :: "string \<Rightarrow> bool" where
  "line_is_banned line = name_is_banned line"

section \<open>Files and directories\<close>

definition read_file_filtered :: "inv_sys \<Rightarrow> string \<Rightarrow> bool \<Rightarrow> writer" where
  "read_file_filtered sys rel filter_banned =
     (case join_path sys inv_path_max rel of
        None \<Rightarrow> write_error (- 1)
      | Some p \<Rightarrow>
          (case iv_text sys p of
             None \<Rightarrow> write_nothing
           | Some t \<Rightarrow> write_all (map append_str
               (filter (\<lambda>l. \<not> (filter_banned \<and> line_is_banned l)) (file_lines 512 t)))))"

definition append_kv_file :: "inv_sys \<Rightarrow> string \<Rightarrow> string \<Rightarrow> writer" where
  "append_kv_file sys rel key =
     (if name_is_banned key then write_nothing
      else case join_path sys inv_path_max rel of
        None \<Rightarrow> write_error (- 1)
      | Some p \<Rightarrow>
          (case iv_text sys p of
             None \<Rightarrow> write_nothing
           | Some t \<Rightarrow>
               (case fgets 256 t of
                  None \<Rightarrow> write_nothing
                | Some (l, _) \<Rightarrow>
                    write_all [append_str key, append_str ''='', append_str (chomp l), append_str [NL]])))"

definition entry_skipped :: "string \<Rightarrow> bool" where
  "entry_skipped e \<longleftrightarrow> peek e = CHR ''.'' \<or> name_is_banned e"

definition walk_dir :: "inv_sys \<Rightarrow> string \<Rightarrow> (string \<Rightarrow> string \<Rightarrow> writer) \<Rightarrow> writer" where
  "walk_dir sys dir_rel fn =
     (case join_path sys inv_path_max dir_rel of
        None \<Rightarrow> write_error (- 1)
      | Some p \<Rightarrow>
          (case iv_list sys p of
             None \<Rightarrow> write_nothing
           | Some es \<Rightarrow> scan_entries entry_skipped (fn dir_rel) es))"

definition ent_path :: "string \<Rightarrow> string \<Rightarrow> string \<Rightarrow> string" where
  "ent_path dir_rel ent leaf = snprintf inv_path_max (dir_rel @ CHR ''/'' # ent @ CHR ''/'' # leaf)"

text \<open>The value of a file beside an entry, with its label, when there is one.\<close>

definition sidecar :: "inv_sys \<Rightarrow> nat \<Rightarrow> string \<Rightarrow> string \<Rightarrow> writer" where
  "sidecar sys buf label rel =
     (case read_trim sys rel buf of
        None \<Rightarrow> write_nothing
      | Some v \<Rightarrow> then_write (append_str label) (append_str v))"

section \<open>The entries of each kind\<close>

definition ent_list_name :: "inv_sys \<Rightarrow> string \<Rightarrow> string \<Rightarrow> writer" where
  "ent_list_name sys dir_rel ent =
     write_all [append_str ent,
       sidecar sys 128 '' status='' (ent_path dir_rel ent ''status''),
       sidecar sys 128 '' name='' (ent_path dir_rel ent ''name''),
       sidecar sys 128 '' id='' (ent_path dir_rel ent ''id''),
       append_str [NL]]"

definition ent_disk :: "inv_sys \<Rightarrow> string \<Rightarrow> string \<Rightarrow> writer" where
  "ent_disk sys dir_rel ent =
     write_all [append_str ent,
       sidecar sys 64 '' size='' (ent_path dir_rel ent ''size''),
       sidecar sys 128 '' model='' (ent_path dir_rel ent ''device/model''),
       append_str [NL]]"

definition readable_rel :: "inv_sys \<Rightarrow> string \<Rightarrow> bool" where
  "readable_rel sys rel = (case join_path sys inv_path_max rel of None \<Rightarrow> False | Some p \<Rightarrow> iv_readable sys p)"

definition ent_usb :: "inv_sys \<Rightarrow> string \<Rightarrow> string \<Rightarrow> writer" where
  "ent_usb sys dir_rel ent =
     (if \<not> readable_rel sys (ent_path dir_rel ent ''product'') \<and>
         \<not> readable_rel sys (ent_path dir_rel ent ''manufacturer'') then write_nothing
      else write_all [append_str ent,
        sidecar sys 128 '' product='' (ent_path dir_rel ent ''product''),
        sidecar sys 128 '' manufacturer='' (ent_path dir_rel ent ''manufacturer''),
        append_str [NL]])"

definition ent_pci :: "inv_sys \<Rightarrow> string \<Rightarrow> string \<Rightarrow> writer" where
  "ent_pci sys dir_rel ent =
     write_all [append_str ent, append_str '' '',
       sidecar sys 64 ''vendor='' (ent_path dir_rel ent ''vendor''),
       sidecar sys 64 '' device='' (ent_path dir_rel ent ''device''),
       sidecar sys 64 '' class='' (ent_path dir_rel ent ''class''),
       append_str [NL]]"

definition ent_battery :: "inv_sys \<Rightarrow> string \<Rightarrow> string \<Rightarrow> writer" where
  "ent_battery sys dir_rel ent =
     write_all [append_str ent,
       sidecar sys 64 '' type='' (ent_path dir_rel ent ''type''),
       sidecar sys 64 '' status='' (ent_path dir_rel ent ''status''),
       sidecar sys 64 '' capacity='' (ent_path dir_rel ent ''capacity''),
       append_str [NL]]"

definition ent_thermal :: "inv_sys \<Rightarrow> string \<Rightarrow> string \<Rightarrow> writer" where
  "ent_thermal sys dir_rel ent =
     (if take 12 ent \<noteq> ''thermal_zone'' then write_nothing
      else write_all [append_str ent,
        sidecar sys 64 '' type='' (ent_path dir_rel ent ''type''),
        sidecar sys 64 '' temp='' (ent_path dir_rel ent ''temp''),
        append_str [NL]])"

definition board_keys :: "string list" where
  "board_keys = [''board_name'', ''board_vendor'', ''product_name'', ''product_family'', ''sys_vendor'',
     ''bios_vendor'', ''bios_version'', ''bios_date'']"

definition scan_board :: "inv_sys \<Rightarrow> writer" where
  "scan_board sys = write_all (map (\<lambda>k. append_kv_file sys (snprintf inv_path_max (''sys/class/dmi/id/'' @ k)) k) board_keys)"

section \<open>The scan\<close>

definition WAI_DISK :: "32 word" where "WAI_DISK = push_bit 0 1"
definition WAI_VIDEO :: "32 word" where "WAI_VIDEO = push_bit 1 1"
definition WAI_MEM :: "32 word" where "WAI_MEM = push_bit 2 1"
definition WAI_AUDIO :: "32 word" where "WAI_AUDIO = push_bit 3 1"
definition WAI_CAMERA :: "32 word" where "WAI_CAMERA = push_bit 4 1"
definition WAI_KEYBOARD :: "32 word" where "WAI_KEYBOARD = push_bit 5 1"
definition WAI_USB :: "32 word" where "WAI_USB = push_bit 6 1"
definition WAI_PCI :: "32 word" where "WAI_PCI = push_bit 7 1"
definition WAI_BATTERY :: "32 word" where "WAI_BATTERY = push_bit 8 1"
definition WAI_THERMAL :: "32 word" where "WAI_THERMAL = push_bit 9 1"
definition WAI_CPU :: "32 word" where "WAI_CPU = push_bit 10 1"
definition WAI_BOARD :: "32 word" where "WAI_BOARD = push_bit 11 1"
definition WAI_ALL :: "32 word" where "WAI_ALL = push_bit 12 1 - 1"

definition wai_sections :: "inv_sys \<Rightarrow> (32 word \<times> string \<times> writer) list" where
  "wai_sections sys =
     [(WAI_DISK, ''disk'', walk_dir sys ''sys/block'' (ent_disk sys)),
      (WAI_VIDEO, ''video'', walk_dir sys ''sys/class/drm'' (ent_list_name sys)),
      (WAI_MEM, ''mem'', read_file_filtered sys ''proc/meminfo'' True),
      (WAI_AUDIO, ''audio'', walk_dir sys ''sys/class/sound'' (ent_list_name sys)),
      (WAI_CAMERA, ''camera'', walk_dir sys ''sys/class/video4linux'' (ent_list_name sys)),
      (WAI_KEYBOARD, ''keyboard'', walk_dir sys ''sys/class/input'' (ent_list_name sys)),
      (WAI_USB, ''usb'', walk_dir sys ''sys/bus/usb/devices'' (ent_usb sys)),
      (WAI_PCI, ''pci'', walk_dir sys ''sys/bus/pci/devices'' (ent_pci sys)),
      (WAI_BATTERY, ''battery'', walk_dir sys ''sys/class/power_supply'' (ent_battery sys)),
      (WAI_THERMAL, ''thermal'', walk_dir sys ''sys/class/thermal'' (ent_thermal sys)),
      (WAI_CPU, ''cpu'', read_file_filtered sys ''proc/cpuinfo'' True),
      (WAI_BOARD, ''board'', scan_board sys)]"

definition wai_section :: "32 word \<Rightarrow> 32 word \<times> string \<times> writer \<Rightarrow> writer" where
  "wai_section flags sec =
     (case sec of (f, name, body) \<Rightarrow>
        if flags AND f \<noteq> 0 then then_write (append_section name) body else write_nothing)"

text \<open>The result and the text in the buffer.\<close>

definition petrush_wai_scan_impl :: "inv_sys \<Rightarrow> 32 word \<Rightarrow> nat \<Rightarrow> int \<times> string" where
  "petrush_wai_scan_impl sys flags cap =
     (if cap = 0 then (- ENOSPC, [])
      else let flags = (if flags = 0 then WAI_ALL else flags) in
        case write_all (map (wai_section flags) (wai_sections sys)) cap [] of
          (rc, w) \<Rightarrow> (if rc \<noteq> 0 then rc else int (length w), w))"

definition wai_flags :: "(string \<times> 32 word) list" where
  "wai_flags = [(''-disk'', WAI_DISK), (''-video'', WAI_VIDEO), (''-mem'', WAI_MEM), (''-audio'', WAI_AUDIO),
     (''-camera'', WAI_CAMERA), (''-keyboard'', WAI_KEYBOARD), (''-usb'', WAI_USB), (''-pci'', WAI_PCI),
     (''-battery'', WAI_BATTERY), (''-thermal'', WAI_THERMAL), (''-cpu'', WAI_CPU), (''-board'', WAI_BOARD)]"

definition parse_wai_flag :: "string \<Rightarrow> 32 word" where
  "parse_wai_flag arg = (case map_of wai_flags arg of None \<Rightarrow> 0 | Some f \<Rightarrow> f)"

text \<open>The options of the builtin: help, a flag that is not known, or the flags.\<close>

datatype wai_request = Wai_Help | Wai_Unknown string | Wai_Scan "32 word"

fun wai_args :: "string list \<Rightarrow> 32 word \<Rightarrow> wai_request" where
  "wai_args [] flags = Wai_Scan flags"
| "wai_args (a # as) flags =
     (if a = ''-h'' \<or> a = ''--help'' then Wai_Help
      else if parse_wai_flag a = 0 then Wai_Unknown a
      else wai_args as (flags OR parse_wai_flag a))"

definition wai_help :: string where
  "wai_help = ''wai - hardware inventory via sysfs/proc (no root)'' @ [NL] @
     ''Usage: wai [-disk] [-video] [-mem] [-audio] [-camera] [-keyboard] [-usb] [-pci] [-battery] [-thermal] [-cpu] [-board]''
     @ [NL] @ ''No flags: all sections. Skips serial/uuid.'' @ [NL]"

definition wai_cap :: nat where "wai_cap = 65536"

definition ended_line :: "string \<Rightarrow> string" where
  "ended_line t = (if t = [] \<or> List.last t = NL then t else t @ [NL])"

text \<open>The status and what is printed, with messages in English.\<close>

definition builtin_wai :: "inv_sys \<Rightarrow> string list \<Rightarrow> int \<times> string" where
  "builtin_wai sys args =
     (case wai_args (tl args) 0 of
        Wai_Help \<Rightarrow> (0, wai_help)
      | Wai_Unknown a \<Rightarrow> (2, [])
      | Wai_Scan flags \<Rightarrow>
          (case petrush_wai_scan_impl sys flags wai_cap of (n, t) \<Rightarrow>
             if n < 0 then (1, []) else (0, ended_line t)))"

section \<open>The text of the inventory\<close>

text \<open>A name that speaks of a serial number or a UUID, in whatever case.\<close>

definition tells :: "string \<Rightarrow> bool" where
  "tells c \<longleftrightarrow> sublist ''serial'' (map lower c) \<or> sublist ''uuid'' (map lower c)"

lemma has_text_sublist: "pat \<noteq> [] \<Longrightarrow> has_text pat s \<longleftrightarrow> sublist pat s"
proof (induction s)
  case (Cons c s)
  have "take (length pat) (c # s) = pat \<longleftrightarrow> prefix pat (c # s)"
    unfolding prefix_def by (metis append_eq_conv_conj append_take_drop_id)
  then show ?case using Cons by (simp add: sublist_Cons_right)
qed simp

lemma banned_tells: "name_is_banned c \<longleftrightarrow> tells (take 127 c)"
  by (simp add: name_is_banned_def tells_def has_text_sublist Let_def)

lemma banned_tells_short: "length c \<le> 127 \<Longrightarrow> name_is_banned c \<longleftrightarrow> tells c"
  by (simp add: banned_tells)

definition shown :: "string \<Rightarrow> bool" where
  "shown e \<longleftrightarrow> peek e \<noteq> CHR ''.'' \<and> \<not> tells (take 127 e)"

lemma entry_shown: "(\<lambda>e. \<not> entry_skipped e) = shown"
  by (auto simp: entry_skipped_def shown_def banned_tells)

definition sidecar_text :: "inv_sys \<Rightarrow> nat \<Rightarrow> string \<Rightarrow> string \<Rightarrow> string" where
  "sidecar_text sys buf label rel = (case read_trim sys rel buf of None \<Rightarrow> [] | Some v \<Rightarrow> label @ v)"

definition fields_text :: "inv_sys \<Rightarrow> string \<Rightarrow> string \<Rightarrow> (nat \<times> string \<times> string) list \<Rightarrow> string" where
  "fields_text sys d e fs = concat (map (\<lambda>(n, label, leaf). sidecar_text sys n label (ent_path d e leaf)) fs)"

definition name_text :: "inv_sys \<Rightarrow> string \<Rightarrow> string \<Rightarrow> string" where
  "name_text sys d e =
     e @ fields_text sys d e [(128, '' status='', ''status''), (128, '' name='', ''name''), (128, '' id='', ''id'')] @ [NL]"

definition disk_text :: "inv_sys \<Rightarrow> string \<Rightarrow> string \<Rightarrow> string" where
  "disk_text sys d e = e @ fields_text sys d e [(64, '' size='', ''size''), (128, '' model='', ''device/model'')] @ [NL]"

definition usb_text :: "inv_sys \<Rightarrow> string \<Rightarrow> string \<Rightarrow> string" where
  "usb_text sys d e =
     (if readable_rel sys (ent_path d e ''product'') \<or> readable_rel sys (ent_path d e ''manufacturer'')
      then e @ fields_text sys d e [(128, '' product='', ''product''), (128, '' manufacturer='', ''manufacturer'')] @ [NL]
      else [])"

definition pci_text :: "inv_sys \<Rightarrow> string \<Rightarrow> string \<Rightarrow> string" where
  "pci_text sys d e =
     e @ '' '' @ fields_text sys d e [(64, ''vendor='', ''vendor''), (64, '' device='', ''device''), (64, '' class='', ''class'')] @ [NL]"

definition battery_text :: "inv_sys \<Rightarrow> string \<Rightarrow> string \<Rightarrow> string" where
  "battery_text sys d e =
     e @ fields_text sys d e [(64, '' type='', ''type''), (64, '' status='', ''status''), (64, '' capacity='', ''capacity'')] @ [NL]"

definition thermal_text :: "inv_sys \<Rightarrow> string \<Rightarrow> string \<Rightarrow> string" where
  "thermal_text sys d e =
     (if take 12 e = ''thermal_zone''
      then e @ fields_text sys d e [(64, '' type='', ''type''), (64, '' temp='', ''temp'')] @ [NL] else [])"

definition dir_text :: "inv_sys \<Rightarrow> string \<Rightarrow> (string \<Rightarrow> string \<Rightarrow> string) \<Rightarrow> string" where
  "dir_text sys d f =
     (case iv_list sys (below sys d) of
        None \<Rightarrow> []
      | Some es \<Rightarrow> concat (map (f d) (filter shown es)))"

definition public_lines :: "string \<Rightarrow> string list" where
  "public_lines t = filter (\<lambda>l. \<not> tells (take 127 l)) (file_lines 512 t)"

definition lines_text :: "inv_sys \<Rightarrow> string \<Rightarrow> string" where
  "lines_text sys rel = (case iv_text sys (below sys rel) of None \<Rightarrow> [] | Some t \<Rightarrow> concat (public_lines t))"

definition board_line :: "inv_sys \<Rightarrow> string \<Rightarrow> string" where
  "board_line sys k =
     (case Option.bind (iv_text sys (below sys (''sys/class/dmi/id/'' @ k))) (fgets 256) of
        None \<Rightarrow> []
      | Some (l, _) \<Rightarrow> k @ ''='' @ chomp l @ [NL])"

definition wai_texts :: "inv_sys \<Rightarrow> (32 word \<times> string \<times> string) list" where
  "wai_texts sys =
     [(WAI_DISK, ''disk'', dir_text sys ''sys/block'' (disk_text sys)),
      (WAI_VIDEO, ''video'', dir_text sys ''sys/class/drm'' (name_text sys)),
      (WAI_MEM, ''mem'', lines_text sys ''proc/meminfo''),
      (WAI_AUDIO, ''audio'', dir_text sys ''sys/class/sound'' (name_text sys)),
      (WAI_CAMERA, ''camera'', dir_text sys ''sys/class/video4linux'' (name_text sys)),
      (WAI_KEYBOARD, ''keyboard'', dir_text sys ''sys/class/input'' (name_text sys)),
      (WAI_USB, ''usb'', dir_text sys ''sys/bus/usb/devices'' (usb_text sys)),
      (WAI_PCI, ''pci'', dir_text sys ''sys/bus/pci/devices'' (pci_text sys)),
      (WAI_BATTERY, ''battery'', dir_text sys ''sys/class/power_supply'' (battery_text sys)),
      (WAI_THERMAL, ''thermal'', dir_text sys ''sys/class/thermal'' (thermal_text sys)),
      (WAI_CPU, ''cpu'', lines_text sys ''proc/cpuinfo''),
      (WAI_BOARD, ''board'', concat (map (board_line sys) board_keys))]"

definition section_text :: "32 word \<Rightarrow> 32 word \<times> string \<times> string \<Rightarrow> string" where
  "section_text flags sec =
     (case sec of (f, name, body) \<Rightarrow> if flags AND f \<noteq> 0 then (''# '' @ name @ [NL]) @ body else [])"

definition wai_text :: "inv_sys \<Rightarrow> 32 word \<Rightarrow> string" where
  "wai_text sys flags = concat (map (section_text (if flags = 0 then WAI_ALL else flags)) (wai_texts sys))"

section \<open>The scan writes this text\<close>

lemma writes_sidecar [written]: "writes (sidecar sys n label rel) (sidecar_text sys n label rel)"
  by (auto simp: sidecar_def sidecar_text_def intro: written split: option.split)

lemma fields_Nil: "fields_text sys d e [] = []"
  by (simp add: fields_text_def)

lemma fields_Cons: "fields_text sys d e ((n, label, leaf) # fs) = sidecar_text sys n label (ent_path d e leaf) @ fields_text sys d e fs"
  by (simp add: fields_text_def)

lemmas fields = fields_Cons fields_Nil append_Nil append_assoc

interpretation names: entry_scan entry_skipped "ent_list_name sys d" "name_text sys d" for sys d
  by unfold_locales (unfold ent_list_name_def name_text_def fields, intro written)

interpretation disks: entry_scan entry_skipped "ent_disk sys d" "disk_text sys d" for sys d
  by unfold_locales (unfold ent_disk_def disk_text_def fields, intro written)

interpretation usbs: entry_scan entry_skipped "ent_usb sys d" "usb_text sys d" for sys d
  by unfold_locales (unfold ent_usb_def usb_text_def fields, auto intro!: written simp del: write_all.simps)

interpretation pcis: entry_scan entry_skipped "ent_pci sys d" "pci_text sys d" for sys d
  by unfold_locales (unfold ent_pci_def pci_text_def fields, intro written)

interpretation batteries: entry_scan entry_skipped "ent_battery sys d" "battery_text sys d" for sys d
  by unfold_locales (unfold ent_battery_def battery_text_def fields, intro written)

interpretation thermals: entry_scan entry_skipped "ent_thermal sys d" "thermal_text sys d" for sys d
  by unfold_locales (unfold ent_thermal_def thermal_text_def fields, auto intro!: written simp del: write_all.simps)

lemmas scans_write = names.scan_writes [unfolded entry_shown] disks.scan_writes [unfolded entry_shown]
  usbs.scan_writes [unfolded entry_shown] pcis.scan_writes [unfolded entry_shown]
  batteries.scan_writes [unfolded entry_shown] thermals.scan_writes [unfolded entry_shown]

definition rooted :: "inv_sys \<Rightarrow> bool" where
  "rooted sys \<longleftrightarrow> length (iv_root sys) < inv_root_max"

lemma writes_walk:
  assumes "rooted sys" "length d \<le> 254" "peek d \<noteq> CHR ''/''"
    and "\<And>es. writes (scan_entries entry_skipped (fn d) es) (concat (map (f d) (filter shown es)))"
  shows "writes (walk_dir sys d fn) (dir_text sys d f)"
  using assms unfolding rooted_def
  by (auto simp: walk_dir_def dir_text_def join_some intro: written split: option.split)

lemma writes_lines:
  assumes "rooted sys" "length rel \<le> 254" "peek rel \<noteq> CHR ''/''"
  shows "writes (read_file_filtered sys rel True) (lines_text sys rel)"
proof -
  have "writes (write_all (map append_str ls)) (concat (map id ls))" for ls
    by (rule writes_map) (simp add: written)
  then show ?thesis
    using assms unfolding rooted_def
    by (auto simp: read_file_filtered_def lines_text_def public_lines_def line_is_banned_def banned_tells join_some intro: written split: option.split)
qed

lemma board_key_public: "k \<in> set board_keys \<Longrightarrow> \<not> name_is_banned k \<and> length k < 200"
proof -
  have "list_all (\<lambda>k. \<not> name_is_banned k \<and> length k < 200) board_keys" by code_simp
  then show "k \<in> set board_keys \<Longrightarrow> ?thesis" by (auto simp: list_all_iff)
qed

lemma writes_pair: "writes (write_all [append_str k, append_str ''='', append_str v, append_str [NL]]) (k @ CHR ''='' # v @ [NL])"
proof -
  have "writes (write_all [append_str k, append_str ''='', append_str v, append_str [NL]]) (k @ ''='' @ v @ [NL])"
    by (intro written)
  then show ?thesis by simp
qed

lemma writes_titled:
  assumes "writes body t"
  shows "writes (then_write (append_section name) body) (CHR ''#'' # CHR '' '' # name @ NL # t)"
  using writes_then [OF writes_section assms] by simp

lemma writes_board:
  assumes "rooted sys"
  shows "writes (scan_board sys) (concat (map (board_line sys) board_keys))"
  unfolding scan_board_def
proof (rule writes_map)
  fix k
  assume "k \<in> set board_keys"
  then have k: "\<not> name_is_banned k" "length (''sys/class/dmi/id/'' @ k) \<le> 254"
    using board_key_public [of k] by auto
  then have "snprintf inv_path_max (''sys/class/dmi/id/'' @ k) = ''sys/class/dmi/id/'' @ k"
    by (simp add: snprintf_def inv_path_max_def)
  moreover have "join_path sys inv_path_max (''sys/class/dmi/id/'' @ k) = Some (below sys (''sys/class/dmi/id/'' @ k))"
    using assms k(2) by (intro join_some) (auto simp: rooted_def)
  ultimately show "writes (append_kv_file sys (snprintf inv_path_max (''sys/class/dmi/id/'' @ k)) k) (board_line sys k)"
    using k(1) by (auto simp: append_kv_file_def board_line_def simp del: write_all.simps
        intro!: writes_pair writes_nothing split: option.split)
qed

lemma writes_sections:
  assumes "rooted sys"
  shows "writes (write_all (map (wai_section flags) (wai_sections sys))) (concat (map (section_text flags) (wai_texts sys)))"
proof (rule writes_all)
  have one: "writes (wai_section flags (f, name, body)) (section_text flags (f, name, t))" if "writes body t" for f name body t
    using that by (auto simp: wai_section_def section_text_def intro: writes_titled writes_nothing)
  show "list_all2 writes (map (wai_section flags) (wai_sections sys)) (map (section_text flags) (wai_texts sys))"
    unfolding wai_sections_def wai_texts_def list.map
    by (intro list_all2_Cons [THEN iffD2] conjI list_all2_Nil [THEN iffD2] TrueI one writes_walk writes_lines writes_board
        assms scans_write) simp_all
qed

lemma scan_writes_text:
  assumes root: "iv_root sys = set_root r" and cap: "0 < cap"
  shows "if length (wai_text sys flags) < cap
    then petrush_wai_scan_impl sys flags cap = (int (length (wai_text sys flags)), wai_text sys flags)
    else \<exists>p. petrush_wai_scan_impl sys flags cap = (- 28, p) \<and> prefix p (wai_text sys flags)"
proof -
  have "rooted sys" by (simp add: rooted_def root length_set_root)
  from writes_result [OF writes_sections [OF this, of "if flags = 0 then WAI_ALL else flags"] cap]
  show ?thesis
    using cap unfolding petrush_wai_scan_impl_def wai_text_def Let_def by simp
qed

text \<open>
  C20. The inventory or nothing. For a root as \<open>petrush_wai_set_root\<close> keeps it, a scan into a buffer
  gives exactly the text of the sections asked for, in their fixed order, and its length; when
  the text and its NUL do not fit, the scan reports the lack of space and the buffer holds a
  part of the text from its start. So \<open>wai\<close> prints either the whole inventory, with status 0,
  or nothing, with status 1.
\<close>

theorem wai_scan_text:
  assumes root: "iv_root sys = set_root r" and cap: "0 < cap"
  shows "(let t = wai_text sys flags in
      if length t < cap then petrush_wai_scan_impl sys flags cap = (int (length t), t)
      else \<exists>p. petrush_wai_scan_impl sys flags cap = (- 28, p) \<and> prefix p t) \<and>
    (wai_args (tl args) 0 = Wai_Scan flags \<longrightarrow>
      builtin_wai sys args =
        (if length (wai_text sys flags) < 65536 then (0, ended_line (wai_text sys flags)) else (1, [])))"
  using scan_writes_text [OF root cap, of flags] scan_writes_text [OF root, of wai_cap flags]
  by (auto simp: builtin_wai_def wai_cap_def Let_def)

text \<open>A machine with two disks, one of them with a banned name, and two lines of memory.\<close>

definition demo_machine :: "string \<Rightarrow> inv_sys" where
  "demo_machine hidden = \<lparr>iv_root = set_root ''/r/'',
     iv_text = [''/r/sys/block/sda/size'' \<mapsto> ''42'' @ [NL], ''/r/sys/block/xUUID/size'' \<mapsto> hidden,
        ''/r/proc/meminfo'' \<mapsto> ''Free: 7'' @ [NL] @ ''Serial: '' @ hidden @ [NL]],
     iv_list = [''/r/sys/block'' \<mapsto> [''.'', ''xUUID'', ''sda'']],
     iv_readable = (\<lambda>p. False), iv_exists = (\<lambda>p. False), iv_isdir = (\<lambda>p. False)\<rparr>"

lemma demo_text: "wai_text (demo_machine ''77'') (WAI_DISK OR WAI_MEM) =
    ''# disk'' @ [NL] @ ''sda size=42'' @ [NL] @ ''# mem'' @ [NL] @ ''Free: 7'' @ [NL]"
  by code_simp

lemma wai_scan_text_witness:
  "petrush_wai_scan_impl (demo_machine ''77'') (WAI_DISK OR WAI_MEM) 100 =
     (33, ''# disk'' @ [NL] @ ''sda size=42'' @ [NL] @ ''# mem'' @ [NL] @ ''Free: 7'' @ [NL]) \<and>
   (\<exists>p. petrush_wai_scan_impl (demo_machine ''77'') (WAI_DISK OR WAI_MEM) 10 = (- 28, p))"
proof -
  have root: "iv_root (demo_machine ''77'') = set_root ''/r/''" by (simp add: demo_machine_def)
  have caps: "(0 :: nat) < 100" "(0 :: nat) < 10" by simp_all
  show ?thesis
    using wai_scan_text [OF root caps(1), of "WAI_DISK OR WAI_MEM" "[]"]
      wai_scan_text [OF root caps(2), of "WAI_DISK OR WAI_MEM" "[]"]
    by (auto simp: demo_text)
qed

section \<open>What the inventory does not tell\<close>

text \<open>The components of a path.\<close>

fun comps_from :: "string \<Rightarrow> string \<Rightarrow> string list" where
  "comps_from acc [] = [rev acc]"
| "comps_from acc (c # p) = (if c = CHR ''/'' then rev acc # comps_from [] p else comps_from (c # acc) p)"

definition comps :: "string \<Rightarrow> string list" where
  "comps p = comps_from [] p"

definition secret :: "string \<Rightarrow> bool" where
  "secret p \<longleftrightarrow> list_ex tells (comps p)"

lemma comps_from_slash: "comps_from acc (a @ CHR ''/'' # b) = comps_from acc a @ comps_from [] b"
  by (induction a arbitrary: acc) auto

lemma comps_from_plain: "CHR ''/'' \<notin> set a \<Longrightarrow> comps_from acc a = [rev acc @ a]"
  by (induction a arbitrary: acc) auto

lemma secret_slash [simp]: "secret (a @ CHR ''/'' # b) \<longleftrightarrow> secret a \<or> secret b"
  by (simp add: secret_def comps_def comps_from_slash)

lemma secret_plain [simp]: "CHR ''/'' \<notin> set a \<Longrightarrow> secret a \<longleftrightarrow> tells a"
  by (simp add: secret_def comps_def comps_from_plain)
















end
