(* ===== verification/Netcom.thy ===== *)
theory Netcom
  imports Inventory Process "HOL-Library.Word"
begin

unbundle bit_operations_syntax

text \<open>
  The builtin \<open>netcom\<close> (\<open>mid/netcom.c\<close>): the list of network interfaces, from the files below
  \<open>/sys\<close> and the kernel's dump of links, and the switching of one interface by an external
  program, with a limit on the time it may take.
\<close>

section \<open>Names of interfaces\<close>

definition ifnamsiz :: nat where "ifnamsiz = 16"

definition iface_name_ok :: "string \<Rightarrow> bool" where
  "iface_name_ok iface \<longleftrightarrow>
     iface \<noteq> [] \<and> \<not> length iface \<ge> ifnamsiz \<and>
     list_all (\<lambda>c. isalnum c \<or> c = CHR ''_'' \<or> c = CHR ''.'' \<or> c = CHR '':'' \<or> c = CHR ''-'') iface"

section \<open>The kernel's dump of links\<close>

text \<open>A message of the dump and the attributes of a link, as the macros of the kernel's headers
  take them from the bytes.\<close>

datatype link_attr = Attr_Name string | Attr_Oper "nat option" | Attr_Other

datatype nl_msg = Nl_Done | Nl_Error | Nl_Link "link_attr list" | Nl_Other

record nl_if_info =
  nl_name :: string
  nl_oper :: "nat option"

definition nl_if_max :: nat where "nl_if_max = 64"

definition take_attr :: "link_attr \<Rightarrow> nl_if_info \<Rightarrow> nl_if_info" where
  "take_attr a slot =
     (case a of
        Attr_Name n \<Rightarrow> slot\<lparr>nl_name := takeWhile (\<lambda>c. c \<noteq> NUL) (take (ifnamsiz - 1) n)\<rparr>
      | Attr_Oper (Some v) \<Rightarrow> slot\<lparr>nl_oper := Some v\<rparr>
      | Attr_Oper None \<Rightarrow> slot
      | Attr_Other \<Rightarrow> slot)"

text \<open>One datagram; the flag says that the dump is over.\<close>

fun take_messages :: "nl_msg list \<Rightarrow> nl_if_info list \<Rightarrow> bool \<times> nl_if_info list" where
  "take_messages [] ls = (False, ls)"
| "take_messages (m # ms) ls =
     (case m of
        Nl_Done \<Rightarrow> (True, ls)
      | Nl_Error \<Rightarrow> (True, ls)
      | Nl_Other \<Rightarrow> take_messages ms ls
      | Nl_Link as \<Rightarrow>
          if length ls \<ge> nl_if_max then take_messages ms ls
          else let slot = fold take_attr as \<lparr>nl_name = [], nl_oper = None\<rparr> in
            take_messages ms (if nl_name slot \<noteq> [] then ls @ [slot] else ls))"

fun take_datagrams :: "nl_msg list list \<Rightarrow> nl_if_info list \<Rightarrow> nl_if_info list" where
  "take_datagrams [] ls = ls"
| "take_datagrams (d # ds) ls =
     (case take_messages d ls of (over, ls') \<Rightarrow> if over then ls' else take_datagrams ds ls')"

text \<open>The datagrams are those that come in before a wait of half a second ends; \<open>None\<close> when there
  is no socket.\<close>

definition netlink_dump_links :: "inv_sys \<Rightarrow> nl_msg list list option \<Rightarrow> nl_if_info list" where
  "netlink_dump_links sys dump =
     (if iv_root sys \<noteq> [] then []
      else case dump of None \<Rightarrow> [] | Some ds \<Rightarrow> take_datagrams ds [])"

section \<open>One interface\<close>

definition oper_names :: "string list" where
  "oper_names = [''unknown'', ''notpresent'', ''down'', ''lowerlayerdown'', ''testing'', ''dormant'', ''up'']"

definition operstate_name :: "string \<Rightarrow> nl_if_info list \<Rightarrow> string \<Rightarrow> string" where
  "operstate_name from_sysfs nl ifname =
     (if from_sysfs \<noteq> [] then from_sysfs
      else case find (\<lambda>l. nl_name l = ifname \<and> nl_oper l \<noteq> None) nl of
        None \<Rightarrow> ''unknown''
      | Some l \<Rightarrow>
          if the (nl_oper l) < length oper_names then oper_names ! the (nl_oper l) else ''unknown'')"

definition net_path :: "string \<Rightarrow> string \<Rightarrow> string" where
  "net_path ifname leaf = snprintf inv_path_max (''sys/class/net/'' @ ifname @ CHR ''/'' # leaf)"

definition path_is_dir :: "inv_sys \<Rightarrow> string \<Rightarrow> bool" where
  "path_is_dir sys rel = (case join_path sys inv_path_max rel of None \<Rightarrow> False | Some p \<Rightarrow> iv_isdir sys p)"

definition path_exists :: "inv_sys \<Rightarrow> string \<Rightarrow> bool" where
  "path_exists sys rel = (case join_path sys inv_path_max rel of None \<Rightarrow> False | Some p \<Rightarrow> iv_exists sys p)"

definition iface_is_wifi :: "inv_sys \<Rightarrow> string \<Rightarrow> bool" where
  "iface_is_wifi sys ifname =
     (if path_is_dir sys (net_path ifname ''wireless'') \<or> path_exists sys (net_path ifname ''wireless'') then True
      else if path_exists sys (net_path ifname ''phy80211'') then True
      else False)"

definition arphrd_ether :: int where "arphrd_ether = 1"
definition arphrd_loopback :: int where "arphrd_loopback = 772"

definition append_net_iface :: "inv_sys \<Rightarrow> bool \<Rightarrow> nl_if_info list \<Rightarrow> string \<Rightarrow> writer" where
  "append_net_iface sys wifi nl ifname =
     (case read_trim sys (net_path ifname ''type'') 32 of
        None \<Rightarrow> write_nothing
      | Some typebuf \<Rightarrow>
          (let type_val = fst (strtol10 typebuf) in
           if type_val = arphrd_loopback then write_nothing
           else if type_val \<noteq> arphrd_ether then write_nothing
           else if wifi \<noteq> iface_is_wifi sys ifname then write_nothing
           else let opbuf = (case read_trim sys (net_path ifname ''operstate'') 64 of None \<Rightarrow> [] | Some o' \<Rightarrow> o') in
             write_all [append_str ifname, append_str '' type='', append_str typebuf, append_str '' operstate='',
               append_str (operstate_name opbuf nl ifname),
               if wifi then append_str '' wireless=1'' else write_nothing,
               append_str [NL]]))"

definition iface_skipped :: "string \<Rightarrow> bool" where
  "iface_skipped e \<longleftrightarrow> peek e = CHR ''.'' \<or> \<not> iface_name_ok e"

definition scan_net_class :: "inv_sys \<Rightarrow> bool \<Rightarrow> nl_if_info list \<Rightarrow> writer" where
  "scan_net_class sys wifi nl =
     (case join_path sys inv_path_max ''sys/class/net'' of
        None \<Rightarrow> write_error (- 1)
      | Some p \<Rightarrow>
          (case iv_list sys p of
             None \<Rightarrow> write_nothing
           | Some es \<Rightarrow> scan_entries iface_skipped (append_net_iface sys wifi nl) es))"

definition bt_path :: "string \<Rightarrow> string \<Rightarrow> string" where
  "bt_path dev leaf = snprintf inv_path_max (''sys/class/bluetooth/'' @ dev @ CHR ''/'' # leaf)"

definition bt_field :: "inv_sys \<Rightarrow> nat \<Rightarrow> string \<Rightarrow> string \<Rightarrow> writer" where
  "bt_field sys buf label rel =
     (case read_trim sys rel buf of
        None \<Rightarrow> write_nothing
      | Some v \<Rightarrow> write_all [append_str label, append_str v])"

definition append_bt_dev :: "inv_sys \<Rightarrow> string \<Rightarrow> writer" where
  "append_bt_dev sys dev =
     write_all [append_str dev, bt_field sys 128 '' name='' (bt_path dev ''name''),
       bt_field sys 64 '' address='' (bt_path dev ''address''), append_str [NL]]"

definition scan_bt :: "inv_sys \<Rightarrow> writer" where
  "scan_bt sys =
     (case join_path sys inv_path_max ''sys/class/bluetooth'' of
        None \<Rightarrow> write_error (- 1)
      | Some p \<Rightarrow>
          (case iv_list sys p of
             None \<Rightarrow> write_nothing
           | Some es \<Rightarrow> scan_entries iface_skipped (append_bt_dev sys) es))"

definition NETCOM_WIFI :: "32 word" where "NETCOM_WIFI = push_bit 0 1"
definition NETCOM_ETH :: "32 word" where "NETCOM_ETH = push_bit 1 1"
definition NETCOM_BT :: "32 word" where "NETCOM_BT = push_bit 2 1"

definition netcom_section :: "32 word \<Rightarrow> 32 word \<Rightarrow> string \<Rightarrow> writer \<Rightarrow> writer" where
  "netcom_section flags f name body =
     (if flags AND f \<noteq> 0 then then_write (append_section name) body else write_nothing)"

definition petrush_netcom_scan_impl :: "inv_sys \<Rightarrow> nl_msg list list option \<Rightarrow> 32 word \<Rightarrow> nat \<Rightarrow> int \<times> string" where
  "petrush_netcom_scan_impl sys dump flags cap =
     (if cap = 0 then (- ENOSPC, [])
      else let flags = (if flags = 0 then NETCOM_WIFI OR NETCOM_ETH OR NETCOM_BT else flags);
               nl = netlink_dump_links sys dump in
        case write_all [netcom_section flags NETCOM_WIFI ''wifi'' (scan_net_class sys True nl),
            netcom_section flags NETCOM_ETH ''eth'' (scan_net_class sys False nl),
            netcom_section flags NETCOM_BT ''bt'' (scan_bt sys)] cap [] of
          (rc, w) \<Rightarrow> (if rc \<noteq> 0 then rc else int (length w), w))"

section \<open>The capability\<close>

definition hex_value :: "char \<Rightarrow> nat option" where
  "hex_value c =
     (if isdigit c then Some (code c - 48)
      else if 97 \<le> code c \<and> code c \<le> 102 then Some (code c - 87)
      else if 65 \<le> code c \<and> code c \<le> 70 then Some (code c - 55)
      else None)"

text \<open>\<open>sscanf\<close> with \<open>%llx\<close>: blanks, a sign, a prefix, digits; a number that is too large gives the
  largest one.\<close>

definition scan_llx :: "string \<Rightarrow> 64 word option" where
  "scan_llx t =
     (let t = skip_space t;
          neg = (peek t = CHR ''-'');
          t = (if peek t = CHR ''-'' \<or> peek t = CHR ''+'' then tl t else t);
          t = (if peek t = CHR ''0'' \<and> (at t 1 = CHR ''x'' \<or> at t 1 = CHR ''X'') then drop 2 t else t);
          ds = takeWhile (\<lambda>c. hex_value c \<noteq> None) t;
          n = foldl (\<lambda>n c. 16 * n + int (the (hex_value c))) 0 ds
      in if ds = [] then None
         else if n \<ge> 2 ^ 64 then Some (- 1)
         else Some (word_of_int (if neg then - n else n)))"

fun cap_lines :: "string list \<Rightarrow> 64 word option" where
  "cap_lines [] = None"
| "cap_lines (l # ls) = (if take 7 l = ''CapEff:'' then scan_llx (drop 7 l) else cap_lines ls)"

definition petrush_netcom_have_cap_net_admin :: "string option \<Rightarrow> bool" where
  "petrush_netcom_have_cap_net_admin status =
     (case status of
        None \<Rightarrow> False
      | Some t \<Rightarrow>
          (case cap_lines (file_lines 256 t) of
             None \<Rightarrow> False
           | Some eff \<Rightarrow> eff AND push_bit 12 1 \<noteq> 0))"

section \<open>The external program\<close>

definition EPERM :: int where "EPERM = 1"
definition ENOENT :: int where "ENOENT = 2"
definition EIO :: int where "EIO = 5"
definition EINVAL :: int where "EINVAL = 22"
definition ETIMEDOUT :: int where "ETIMEDOUT = 110"

lemmas errnos = EPERM_def ENOENT_def EIO_def EINVAL_def ETIMEDOUT_def

text \<open>What one look at the child gives: it runs, the look was interrupted, it failed with an error,
  it has exited, was killed, or changed in another way.\<close>

datatype child_look = Running | Interrupted | Wait_Error int | Exited nat | Signalled | Changed

definition helper_step :: nat where "helper_step = 50"
definition helper_timeout_ms :: nat where "helper_timeout_ms = 2000"

text \<open>The loop over the looks, with the time that has gone by; \<open>None\<close> when the looks end before the
  loop does.  The flag says that the child was killed for taking too long.\<close>

fun wait_helper :: "nat \<Rightarrow> nat \<Rightarrow> child_look list \<Rightarrow> (int \<times> bool) option" where
  "wait_helper timeout elapsed looks =
     (if \<not> elapsed < timeout then Some (- ETIMEDOUT, True)
      else case looks of
        [] \<Rightarrow> None
      | Exited c # _ \<Rightarrow> Some (if c = 0 then 0 else if c = 127 then - ENOENT else - EPERM, False)
      | Signalled # _ \<Rightarrow> Some (- EPERM, False)
      | Changed # _ \<Rightarrow> Some (- EIO, False)
      | Interrupted # ls \<Rightarrow> wait_helper timeout elapsed ls
      | Wait_Error e # _ \<Rightarrow> Some (- e, False)
      | Running # ls \<Rightarrow> wait_helper timeout (elapsed + helper_step) ls)"

text \<open>What \<open>netcom\<close> asks of the system: the variable \<open>PATH\<close>, programs, the status file of the shell,
  the error of \<open>fork\<close> if it fails, and the looks at the child it made for a command.\<close>

record net_sys =
  ns_path :: "string option"
  ns_access :: "string \<Rightarrow> bool"
  ns_status :: "string option"
  ns_fork_error :: "int option"
  ns_looks :: "string list \<Rightarrow> child_look list"

fun which_loop :: "net_sys \<Rightarrow> string \<Rightarrow> nat \<Rightarrow> string list \<Rightarrow> string option" where
  "which_loop sys name cap [] = None"
| "which_loop sys name cap (d # ds) =
     (let tmp = d @ CHR ''/'' # name in
      if \<not> snprintf_fits path_max tmp then which_loop sys name cap ds
      else if ns_access sys tmp then (if length tmp \<ge> cap then None else Some tmp)
      else which_loop sys name cap ds)"

definition which_exec :: "net_sys \<Rightarrow> string \<Rightarrow> nat \<Rightarrow> string option" where
  "which_exec sys name cap =
     which_loop sys name cap (strtok_fields (CHR '':'') []
       (case ns_path sys of None \<Rightarrow> ''/usr/sbin:/usr/bin:/sbin:/bin''
        | Some p \<Rightarrow> if p = [] then ''/usr/sbin:/usr/bin:/sbin:/bin'' else p))"

text \<open>The result, and the commands that were started.\<close>

definition run_helper_timeout :: "net_sys \<Rightarrow> string list \<Rightarrow> nat \<Rightarrow> (int \<times> string list list) option" where
  "run_helper_timeout sys args timeout =
     (case ns_fork_error sys of
        Some e \<Rightarrow> Some (- e, [])
      | None \<Rightarrow> map_option (\<lambda>(rc, _). (rc, [args])) (wait_helper timeout 0 (ns_looks sys args)))"

definition try_ip_link :: "net_sys \<Rightarrow> string \<Rightarrow> bool \<Rightarrow> (int \<times> string list list) option" where
  "try_ip_link sys iface up =
     (case which_exec sys ''ip'' path_max of
        None \<Rightarrow> Some (- ENOENT, [])
      | Some p \<Rightarrow> run_helper_timeout sys
          [p, ''link'', ''set'', ''dev'', iface, if up then ''up'' else ''down''] helper_timeout_ms)"

text \<open>These two never start a program.\<close>

definition try_iw :: "net_sys \<Rightarrow> (int \<times> string list list) option" where
  "try_iw sys = (case which_exec sys ''iw'' path_max of None \<Rightarrow> Some (- ENOENT, []) | Some p \<Rightarrow> Some (- ENOENT, []))"

definition try_iwd :: "net_sys \<Rightarrow> (int \<times> string list list) option" where
  "try_iwd sys = (case which_exec sys ''iwctl'' path_max of None \<Rightarrow> Some (- ENOENT, []) | Some p \<Rightarrow> Some (- ENOENT, []))"

definition try_bluetoothctl :: "net_sys \<Rightarrow> bool \<Rightarrow> (int \<times> string list list) option" where
  "try_bluetoothctl sys up =
     (case which_exec sys ''bluetoothctl'' path_max of
        None \<Rightarrow> Some (- ENOENT, [])
      | Some p \<Rightarrow> run_helper_timeout sys [p, ''power'', if up then ''on'' else ''off''] helper_timeout_ms)"

text \<open>The next program is tried only when the one before was not there.\<close>

definition or_next ::
  "(int \<times> string list list) option \<Rightarrow> (int \<times> string list list) option \<Rightarrow> (int \<times> string list list) option" where
  "or_next a b =
     (case a of
        None \<Rightarrow> None
      | Some (rc, started) \<Rightarrow>
          if rc = 0 then Some (0, started)
          else if rc \<noteq> - ENOENT then Some (rc, started)
          else map_option (\<lambda>(rc, more). (rc, started @ more)) b)"

definition petrush_netcom_link_set :: "net_sys \<Rightarrow> string \<Rightarrow> bool \<Rightarrow> (int \<times> string list list) option" where
  "petrush_netcom_link_set sys iface up =
     (if \<not> iface_name_ok iface then Some (- EINVAL, [])
      else if \<not> petrush_netcom_have_cap_net_admin (ns_status sys) then Some (- EPERM, [])
      else or_next (try_ip_link sys iface up) (or_next (try_iw sys) (or_next (try_iwd sys)
        (if take 3 iface = ''hci'' then or_next (try_bluetoothctl sys up) (Some (- ENOENT, []))
         else Some (- ENOENT, [])))))"

section \<open>The builtin\<close>

definition parse_netcom_flag :: "string \<Rightarrow> 32 word" where
  "parse_netcom_flag arg =
     (if arg = ''-wifi'' then NETCOM_WIFI else if arg = ''-eth'' then NETCOM_ETH
      else if arg = ''-bt'' then NETCOM_BT else 0)"

text \<open>The options: an answer at once (a status and a text), or what they ask for.\<close>

record net_request =
  rq_flags :: "32 word"
  rq_up :: bool
  rq_down :: bool
  rq_iface :: string

definition netcom_help :: string where
  "netcom_help = ''netcom - network inventory / link up-down (no setuid)'' @ [NL] @
     ''Usage: netcom [-wifi] [-eth] [-bt]'' @ [NL] @ ''       netcom -up IFACE | -down IFACE'' @ [NL] @
     ''Scan needs no CAP. -up/-down need CAP_NET_ADMIN (else EPERM, exit 1, no hang).'' @ [NL]"

fun netcom_args :: "string list \<Rightarrow> net_request \<Rightarrow> int \<times> string + net_request" where
  "netcom_args [] r = Inr r"
| "netcom_args (a # as) r =
     (if a = ''-h'' \<or> a = ''--help'' then Inl (0, netcom_help)
      else if a = ''-up'' then
        (case as of [] \<Rightarrow> Inl (2, []) | i # as' \<Rightarrow> netcom_args as' (r\<lparr>rq_up := True, rq_iface := i\<rparr>))
      else if a = ''-down'' then
        (case as of [] \<Rightarrow> Inl (2, []) | i # as' \<Rightarrow> netcom_args as' (r\<lparr>rq_down := True, rq_iface := i\<rparr>))
      else if parse_netcom_flag a = 0 then Inl (2, [])
      else netcom_args as (r\<lparr>rq_flags := rq_flags r OR parse_netcom_flag a\<rparr>))"

definition netcom_cap :: nat where "netcom_cap = 65536"

definition link_status :: "int \<Rightarrow> int" where
  "link_status rc = (if rc = 0 then 0 else if rc = - EPERM then 1 else if rc = - EINVAL then 2 else 1)"

text \<open>The status, what is printed and the commands that were started.\<close>

definition builtin_netcom ::
  "inv_sys \<Rightarrow> nl_msg list list option \<Rightarrow> net_sys \<Rightarrow> string list \<Rightarrow> (int \<times> string \<times> string list list) option" where
  "builtin_netcom isys dump sys args =
     (case netcom_args (tl args) \<lparr>rq_flags = 0, rq_up = False, rq_down = False, rq_iface = []\<rparr> of
        Inl (st, t) \<Rightarrow> Some (st, t, [])
      | Inr r \<Rightarrow>
          if rq_up r \<and> rq_down r then Some (2, [], [])
          else if (rq_up r \<or> rq_down r) \<and> rq_flags r \<noteq> 0 then Some (2, [], [])
          else if rq_up r \<or> rq_down r then
            (if \<not> petrush_netcom_have_cap_net_admin (ns_status sys) then Some (1, [], [])
             else map_option (\<lambda>(rc, started). (link_status rc, [], started))
               (petrush_netcom_link_set sys (rq_iface r) (rq_up r)))
          else case petrush_netcom_scan_impl isys dump (rq_flags r) netcom_cap of (n, t) \<Rightarrow>
            Some (if n < 0 then (1, [], []) else (0, if t = [] \<or> List.last t = NL then t else t @ [NL], [])))"

section \<open>What the scans write\<close>

definition iface_text :: "inv_sys \<Rightarrow> bool \<Rightarrow> nl_if_info list \<Rightarrow> string \<Rightarrow> string" where
  "iface_text sys wifi nl e =
     (case read_trim sys (net_path e ''type'') 32 of
        None \<Rightarrow> []
      | Some t \<Rightarrow>
          if fst (strtol10 t) = arphrd_ether \<and> wifi = iface_is_wifi sys e
          then e @ '' type='' @ t @ '' operstate='' @
            operstate_name (case read_trim sys (net_path e ''operstate'') 64 of None \<Rightarrow> [] | Some x \<Rightarrow> x) nl e @
            (if wifi then '' wireless=1'' else []) @ [NL]
          else [])"

definition bt_field_text :: "inv_sys \<Rightarrow> nat \<Rightarrow> string \<Rightarrow> string \<Rightarrow> string" where
  "bt_field_text sys buf label rel = (case read_trim sys rel buf of None \<Rightarrow> [] | Some v \<Rightarrow> label @ v)"

definition bt_text :: "inv_sys \<Rightarrow> string \<Rightarrow> string" where
  "bt_text sys e =
     e @ bt_field_text sys 128 '' name='' (bt_path e ''name'') @ bt_field_text sys 64 '' address='' (bt_path e ''address'') @ [NL]"

lemma writes_bt_field [written]: "writes (bt_field sys n label rel) (bt_field_text sys n label rel)"
  unfolding bt_field_def bt_field_text_def
  by (auto split: option.split simp del: write_all.simps intro: written)

lemma writes_wireless [written]: "writes (if w then append_str s else write_nothing) (if w then s else [])"
  by (simp add: written)

interpretation ifaces: entry_scan iface_skipped "append_net_iface sys wifi nl" "iface_text sys wifi nl" for sys wifi nl
proof
  fix e
  have "writes (write_all [append_str e, append_str '' type='', append_str t, append_str '' operstate='', append_str oper,
      if wifi then append_str '' wireless=1'' else write_nothing, append_str [NL]])
    (e @ '' type='' @ t @ '' operstate='' @ oper @ (if wifi then '' wireless=1'' else []) @ [NL])" for t oper
    by (intro written)
  then show "writes (append_net_iface sys wifi nl e) (iface_text sys wifi nl e)"
    unfolding append_net_iface_def iface_text_def Let_def arphrd_loopback_def arphrd_ether_def
    by (auto split: option.split simp del: write_all.simps append.simps intro: written)
qed

interpretation bt_devices: entry_scan iface_skipped "append_bt_dev sys" "bt_text sys" for sys
  by unfold_locales (unfold append_bt_dev_def bt_text_def, intro written)

definition scan_text :: "inv_sys \<Rightarrow> string \<Rightarrow> (string \<Rightarrow> string) \<Rightarrow> string" where
  "scan_text sys d f =
     (case iv_list sys (below sys d) of
        None \<Rightarrow> []
      | Some es \<Rightarrow> concat (map f (filter (\<lambda>e. \<not> iface_skipped e) es)))"

lemma writes_scans [written]:
  assumes "length (iv_root sys) < inv_root_max"
  shows "writes (scan_net_class sys wifi nl) (scan_text sys ''sys/class/net'' (iface_text sys wifi nl))"
    "writes (scan_bt sys) (scan_text sys ''sys/class/bluetooth'' (bt_text sys))"
  using assms
  by (auto simp: scan_net_class_def scan_bt_def scan_text_def join_some
      intro: written ifaces.scan_writes bt_devices.scan_writes split: option.split)

definition netcom_section_text :: "32 word \<Rightarrow> 32 word \<Rightarrow> string \<Rightarrow> string \<Rightarrow> string" where
  "netcom_section_text flags f name t = (if flags AND f \<noteq> 0 then (''# '' @ name @ [NL]) @ t else [])"

lemma writes_netcom_section [written]:
  "writes body t \<Longrightarrow> writes (netcom_section flags f name body) (netcom_section_text flags f name t)"
  unfolding netcom_section_def netcom_section_text_def by (simp only: split: if_split) (blast intro: written)

definition netcom_text :: "inv_sys \<Rightarrow> nl_msg list list option \<Rightarrow> 32 word \<Rightarrow> string" where
  "netcom_text sys dump fl =
     (let flags = (if fl = 0 then NETCOM_WIFI OR NETCOM_ETH OR NETCOM_BT else fl);
          nl = netlink_dump_links sys dump in
      netcom_section_text flags NETCOM_WIFI ''wifi'' (scan_text sys ''sys/class/net'' (iface_text sys True nl)) @
      netcom_section_text flags NETCOM_ETH ''eth'' (scan_text sys ''sys/class/net'' (iface_text sys False nl)) @
      netcom_section_text flags NETCOM_BT ''bt'' (scan_text sys ''sys/class/bluetooth'' (bt_text sys)))"

lemma netcom_scan_text:
  assumes "length (iv_root sys) < inv_root_max" and "0 < cap"
  shows "if length (netcom_text sys dump flags) < cap
    then petrush_netcom_scan_impl sys dump flags cap = (int (length (netcom_text sys dump flags)), netcom_text sys dump flags)
    else \<exists>p. petrush_netcom_scan_impl sys dump flags cap = (- 28, p) \<and> prefix p (netcom_text sys dump flags)"
proof -
  have "writes (write_all [netcom_section fl NETCOM_WIFI ''wifi'' (scan_net_class sys True nl),
      netcom_section fl NETCOM_ETH ''eth'' (scan_net_class sys False nl),
      netcom_section fl NETCOM_BT ''bt'' (scan_bt sys)])
    (netcom_section_text fl NETCOM_WIFI ''wifi'' (scan_text sys ''sys/class/net'' (iface_text sys True nl)) @
     netcom_section_text fl NETCOM_ETH ''eth'' (scan_text sys ''sys/class/net'' (iface_text sys False nl)) @
     netcom_section_text fl NETCOM_BT ''bt'' (scan_text sys ''sys/class/bluetooth'' (bt_text sys)))" for fl nl
    by (intro written assms)
  note fits = writes_result [OF this assms(2)]
  have no: "(cap = 0) = False" using assms(2) by simp
  show ?thesis
    unfolding petrush_netcom_scan_impl_def netcom_text_def Let_def no if_False by (rule fits)
qed

section \<open>Switching an interface ends\<close>




lemma wait_helper_zero: "wait_helper timeout elapsed looks = Some (0, k) \<Longrightarrow> Exited 0 \<in> set looks \<or> Wait_Error 0 \<in> set looks"
proof (induction timeout elapsed looks rule: wait_helper.induct)
  case (1 timeout elapsed looks)
  then show ?case
    by (cases looks) (auto simp: errnos split: child_look.splits if_splits)
qed







end
