(* ===== verification/Startup.thy ===== *)
theory Startup
  imports Files ShellVars
begin

text \<open>
  What the interactive front end computes before it reads a line: the prompt (\<open>src/mid/prompt.c\<close>) and
  the paths of the user's files (\<open>src/foundation/xdg_paths.c\<close>), with the creation of the directory
  of the history.
\<close>

section \<open>The prompt\<close>

text \<open>What the prompt asks of the system; \<open>hi_user\<close> is the name in the password file.\<close>

record host_info =
  hi_cwd :: "string option"
  hi_user :: "string option"
  hi_host :: "string option"
  hi_root :: bool

definition prompt_default :: string where "prompt_default = ''petrush> ''"
definition host_path_max :: nat where "host_path_max = 4096"

definition prompt_user :: "env \<Rightarrow> host_info \<Rightarrow> string" where
  "prompt_user e h =
     snprintf host_path_max
       (case petrush_getenv e ''USER'' of
          Some u \<Rightarrow> if u \<noteq> [] then u else (case hi_user h of Some n \<Rightarrow> n | None \<Rightarrow> ''?'')
        | None \<Rightarrow> (case hi_user h of Some n \<Rightarrow> n | None \<Rightarrow> ''?''))"

definition prompt_escape :: "env \<Rightarrow> host_info \<Rightarrow> char \<Rightarrow> string" where
  "prompt_escape e h c =
     (if c = CHR ''w'' then (case hi_cwd h of Some d \<Rightarrow> d | None \<Rightarrow> ''?'')
      else if c = CHR ''u'' then prompt_user e h
      else if c = CHR ''h'' then
        (case hi_host h of Some n \<Rightarrow> takeWhile (\<lambda>c. c \<noteq> CHR ''.'') n | None \<Rightarrow> ''?'')
      else if c = CHR ''n'' then [NL]
      else if c = CHR ''$'' then (if hi_root h then ''#'' else ''$'')
      else if c = CHR 0x5C then [CHR 0x5C]
      else [CHR 0x5C, c])"

text \<open>The loop stops when one byte is left for the NUL; a text that is too long is cut.\<close>

fun prompt_loop :: "env \<Rightarrow> host_info \<Rightarrow> nat \<Rightarrow> string \<Rightarrow> string \<Rightarrow> string" where
  "prompt_loop e h out_sz [] acc = acc"
| "prompt_loop e h out_sz (c # p) acc =
     (if \<not> length acc + 1 < out_sz then acc
      else if c \<noteq> CHR 0x5C then prompt_loop e h out_sz p (acc @ [c])
      else case p of
        [] \<Rightarrow> acc @ [c]
      | d # q \<Rightarrow>
          let tmp = prompt_escape e h d;
              n = (if length acc + length tmp \<ge> out_sz then out_sz - length acc - 1 else length tmp)
          in prompt_loop e h out_sz q (acc @ take n tmp))"

definition prompt_render :: "env \<Rightarrow> host_info \<Rightarrow> string option \<Rightarrow> nat \<Rightarrow> string" where
  "prompt_render e h ps1 out_sz =
     (if out_sz = 0 then []
      else case ps1 of
        None \<Rightarrow> snprintf out_sz prompt_default
      | Some p \<Rightarrow> if p = [] then snprintf out_sz prompt_default else prompt_loop e h out_sz p [])"

text \<open>The same text without a buffer.\<close>

fun prompt_text :: "env \<Rightarrow> host_info \<Rightarrow> string \<Rightarrow> string" where
  "prompt_text e h [] = []"
| "prompt_text e h (c # p) =
     (if c \<noteq> CHR 0x5C then c # prompt_text e h p
      else case p of [] \<Rightarrow> [c] | d # q \<Rightarrow> prompt_escape e h d @ prompt_text e h q)"

lemma prompt_loop_text:
  "length acc < out_sz \<Longrightarrow> prompt_loop e h out_sz p acc = take (out_sz - 1) (acc @ prompt_text e h p)"
proof (induction e h p arbitrary: acc rule: prompt_text.induct)
  case (2 e h c p)
  show ?case
  proof (cases "length acc + 1 < out_sz")
    case False
    then have "out_sz - 1 = length acc" using 2(3) by simp
    then show ?thesis using False by simp
  next
    case room: True
    show ?thesis
    proof (cases "c = CHR 0x5C \<and> p \<noteq> []")
      case False
      then show ?thesis using 2(1) [of "acc @ [c]"] room by (cases p) auto
    next
      case True
      then obtain d q where p: "p = d # q" by (cases p) auto
      let ?tmp = "prompt_escape e h d"
      let ?n = "if length acc + length ?tmp \<ge> out_sz then out_sz - length acc - 1 else length ?tmp"
      have "prompt_loop e h out_sz q (acc @ take ?n ?tmp) = take (out_sz - 1) ((acc @ take ?n ?tmp) @ prompt_text e h q)"
        using room by (intro 2(2)) (auto simp: True p)
      then show ?thesis using room True by (auto simp: p Let_def)
    qed
  qed
qed simp

section \<open>The user's files\<close>

definition env_nonempty :: "env \<Rightarrow> string \<Rightarrow> string option" where
  "env_nonempty e n = (case petrush_getenv e n of Some v \<Rightarrow> if v \<noteq> [] then Some v else None | None \<Rightarrow> None)"

definition xdg_or_home :: "env \<Rightarrow> string \<Rightarrow> string \<Rightarrow> string \<Rightarrow> string" where
  "xdg_or_home e var below_xdg below_home =
     snprintf host_path_max
       (case env_nonempty e var of
          Some x \<Rightarrow> x @ CHR ''/'' # below_xdg
        | None \<Rightarrow>
            (case env_nonempty e ''HOME'' of
               Some home \<Rightarrow> home @ CHR ''/'' # below_home
             | None \<Rightarrow> below_home))"

definition build_rc_xdg :: "env \<Rightarrow> string" where
  "build_rc_xdg e = xdg_or_home e ''XDG_CONFIG_HOME'' ''petrush/rc'' ''.config/petrush/rc''"

definition build_hist_xdg :: "env \<Rightarrow> string" where
  "build_hist_xdg e = xdg_or_home e ''XDG_STATE_HOME'' ''petrush/history'' ''.local/state/petrush/history''"

definition home_file :: "env \<Rightarrow> string \<Rightarrow> string" where
  "home_file e name =
     snprintf host_path_max
       (case env_nonempty e ''HOME'' of Some home \<Rightarrow> home @ CHR ''/'' # name | None \<Rightarrow> name)"

definition build_rc_legacy :: "env \<Rightarrow> string" where
  "build_rc_legacy e = home_file e ''.petrushrc''"

definition build_hist_legacy :: "env \<Rightarrow> string" where
  "build_hist_legacy e = home_file e ''.petrush_history''"

definition path_there :: "(string \<Rightarrow> bool) \<Rightarrow> string \<Rightarrow> bool" where
  "path_there there p \<longleftrightarrow> p \<noteq> [] \<and> there p"

definition copy_out :: "nat \<Rightarrow> string \<Rightarrow> string option" where
  "copy_out buflen src = (if buflen = 0 then None else if length src + 1 > buflen then None else Some src)"

definition choose_path :: "(string \<Rightarrow> bool) \<Rightarrow> string \<Rightarrow> string \<Rightarrow> string" where
  "choose_path there xdg legacy =
     (if \<not> path_there there xdg \<and> path_there there legacy then legacy else xdg)"

definition petrush_rc_path :: "(string \<Rightarrow> bool) \<Rightarrow> env \<Rightarrow> nat \<Rightarrow> string option" where
  "petrush_rc_path there e buflen = copy_out buflen (choose_path there (build_rc_xdg e) (build_rc_legacy e))"

definition petrush_history_path :: "(string \<Rightarrow> bool) \<Rightarrow> env \<Rightarrow> nat \<Rightarrow> string option" where
  "petrush_history_path there e buflen = copy_out buflen (choose_path there (build_hist_xdg e) (build_hist_legacy e))"

definition get_history_file :: "(string \<Rightarrow> bool) \<Rightarrow> env \<Rightarrow> string" where
  "get_history_file there e =
     (case petrush_history_path there e host_path_max of Some p \<Rightarrow> p | None \<Rightarrow> ''.local/state/petrush/history'')"

definition get_rc_file :: "(string \<Rightarrow> bool) \<Rightarrow> env \<Rightarrow> string" where
  "get_rc_file there e =
     (case petrush_rc_path there e host_path_max of Some p \<Rightarrow> p | None \<Rightarrow> ''.config/petrush/rc'')"

section \<open>The directory of the history\<close>

text \<open>The calls of \<open>mkdir\<close>, in order; \<open>mk\<close> tells whether one succeeds or finds something there.\<close>

fun mkdir_each :: "(string \<Rightarrow> bool) \<Rightarrow> string list \<Rightarrow> bool \<times> string list" where
  "mkdir_each mk [] = (True, [])"
| "mkdir_each mk (d # ds) =
     (if \<not> mk d then (False, [d]) else case mkdir_each mk ds of (ok, made) \<Rightarrow> (ok, d # made))"

text \<open>The parts of a path that end before a slash, but for one at its start, and the whole path.\<close>

definition dir_prefixes :: "string \<Rightarrow> string list" where
  "dir_prefixes dir = map (\<lambda>i. take i dir) (filter (\<lambda>i. dir ! i = CHR ''/'') [1..<length dir]) @ [dir]"

definition mkdir_p_0700 :: "(string \<Rightarrow> bool) \<Rightarrow> string \<Rightarrow> bool \<times> string list" where
  "mkdir_p_0700 mk dir =
     (if dir = [] then (False, [])
      else if length dir \<ge> host_path_max then (False, [])
      else mkdir_each mk (dir_prefixes dir))"

definition petrush_history_ensure_dir :: "(string \<Rightarrow> bool) \<Rightarrow> string \<Rightarrow> bool \<times> string list" where
  "petrush_history_ensure_dir mk hist_path =
     (if hist_path = [] then (False, [])
      else if length hist_path \<ge> host_path_max then (False, [])
      else if \<not> has_slash hist_path then (True, [])
      else if dir_part hist_path = [] then (True, [])
      else mkdir_p_0700 mk (dir_part hist_path))"

lemma paths_fit: "length (snprintf host_path_max s) + 1 \<le> host_path_max"
  by (simp add: snprintf_def host_path_max_def)

text \<open>The fallbacks of the front end are never needed.\<close>

lemma user_paths_found:
  "get_rc_file there e = choose_path there (build_rc_xdg e) (build_rc_legacy e)"
  "get_history_file there e = choose_path there (build_hist_xdg e) (build_hist_legacy e)"
proof -
  have fits: "copy_out host_path_max (choose_path there (snprintf host_path_max x) (snprintf host_path_max y)) =
      Some (choose_path there (snprintf host_path_max x) (snprintf host_path_max y))" for x y
    using paths_fit [of x] paths_fit [of y] by (auto simp: copy_out_def choose_path_def host_path_max_def)
  show "get_rc_file there e = choose_path there (build_rc_xdg e) (build_rc_legacy e)"
    "get_history_file there e = choose_path there (build_hist_xdg e) (build_hist_legacy e)"
    unfolding get_rc_file_def get_history_file_def petrush_rc_path_def petrush_history_path_def build_rc_xdg_def
      build_rc_legacy_def build_hist_xdg_def build_hist_legacy_def xdg_or_home_def home_file_def fits
    by simp_all
qed

end
