(* ===== verification/Repl.thy ===== *)
theory Repl
  imports Startup History Semantics
begin

text \<open>
  The program itself (\<open>src/main.c\<close>): script mode, and the loop that reads lines at the prompt.  The
  line editor, a library of its own, is a parameter: it gives the lines and keeps the history.
  The handlers of the signals that end the process, and the saving of the history to a file,
  are left out.
\<close>

section \<open>One line\<close>

text \<open>What the line editor returns: a line, nothing because of Ctrl-C, or the end of the input.\<close>

datatype repl_input = Line string | Ctrl_C | End_Of_Input

text \<open>\<open>add\<close> is how the editor adds an event to its history, oldest first.\<close>

type_synonym history_add = "string \<Rightarrow> string list \<Rightarrow> string list"

definition repl_command ::
  "'w sys \<Rightarrow> nat \<Rightarrow> history_add \<Rightarrow> string \<Rightarrow> string list \<Rightarrow> 'w shell \<Rightarrow> ('w, string list) run" where
  "repl_command sys n add line h s =
     (case hist_expand_line (list_port h) line of
        Hist_Undef \<Rightarrow> Undefined
      | Hist hist_exp \<Rightarrow>
         (let after_hist = (case hist_exp of Some x \<Rightarrow> x | None \<Rightarrow> line);
              s = (case hist_exp of Some x \<Rightarrow> s\<lparr>sh_out := sh_out s @ x @ [NL]\<rparr> | None \<Rightarrow> s);
              h = add after_hist h
          in case petrush_parse_list (alias_expand_line (sh_aliases s) after_hist) of
            None \<Rightarrow> Ret h s
          | Some l \<Rightarrow>
              if list_heredoc_pending l then Ret h s
              else if l = [] then Ret h s
              else rbind (dispatch_list sys n l s) (\<lambda>_. Ret h)))"

section \<open>The loop\<close>

text \<open>Before each prompt the jobs that have ended are announced.\<close>

definition before_prompt :: "'w sys \<Rightarrow> 'w shell \<Rightarrow> 'w shell" where
  "before_prompt sys s =
     (case job_notify (job_reap (sys_wait sys (sh_world s)) (sh_jobs s)) of
        (t, js) \<Rightarrow> s\<lparr>sh_out := sh_out s @ t, sh_jobs := js\<rparr>)"

definition prompt_size :: nat where "prompt_size = 512"

definition repl_prompt :: "host_info \<Rightarrow> 'w shell \<Rightarrow> string" where
  "repl_prompt host s = prompt_render (sh_env s) host (petrush_getenv (sh_env s) ''PETRUSH_PS1'') prompt_size"

fun repl_loop ::
  "'w sys \<Rightarrow> nat \<Rightarrow> history_add \<Rightarrow> repl_input list \<Rightarrow> string list \<Rightarrow> 'w shell \<Rightarrow> ('w, string list) run" where
  "repl_loop sys n add [] h s = Ret h (before_prompt sys s)"
| "repl_loop sys n add (i # is) h s =
     (let s = before_prompt sys s in
      case i of
        Ctrl_C \<Rightarrow> repl_loop sys n add is h (s\<lparr>sh_out := sh_out s @ [NL]\<rparr>)
      | End_Of_Input \<Rightarrow> Ret h s
      | Line line \<Rightarrow>
          if line = ''exit'' \<or> line = ''quit'' then Ret h s
          else if line = [] then repl_loop sys n add is h s
          else rbind (repl_command sys n add line h s) (\<lambda>h s. repl_loop sys n add is h s))"

section \<open>The program\<close>

definition petrush_banner :: string where
  "petrush_banner = ''petrush 0.3.2.1 (C23 shell)'' @ [NL] @ ''Digite 'exit' ou 'quit' para sair.'' @ [NL, NL]"

definition load_rc_file :: "'w sys \<Rightarrow> nat \<Rightarrow> 'w shell \<Rightarrow> ('w, int) run" where
  "load_rc_file sys n s =
     petrush_source_file sys (dispatch_list sys n) (get_rc_file (sys_exists sys (sh_world s)) (sh_env s)) True s"

text \<open>The exit code; the history that was loaded is \<open>h\<close>.\<close>

definition petrush_interactive ::
  "'w sys \<Rightarrow> nat \<Rightarrow> history_add \<Rightarrow> string list \<Rightarrow> repl_input list \<Rightarrow> string list \<Rightarrow> 'w shell \<Rightarrow> ('w, int) run" where
  "petrush_interactive sys n add args is h s =
     (let arg0 = (if args = [] then ''petrush'' else hd args);
          s = s\<lparr>sh_pos := positional_set (Some arg0) [], sh_out := sh_out s @ petrush_banner\<rparr>
      in rbind (load_rc_file sys n s) (\<lambda>_ s.
           rbind (repl_loop sys n add is h s) (\<lambda>_ s.
             Ret 0 (s\<lparr>sh_out := sh_out s @ ''saindo...'' @ [NL]\<rparr>))))"

definition petrush_main ::
  "'w sys \<Rightarrow> nat \<Rightarrow> history_add \<Rightarrow> string list \<Rightarrow> repl_input list \<Rightarrow> string list \<Rightarrow> 'w shell \<Rightarrow> ('w, int) run" where
  "petrush_main sys n add args is h s =
     (if length args \<ge> 2 \<and> args ! 1 \<noteq> [] then
        petrush_run_script sys (dispatch_list sys n) (args ! 1)
          (s\<lparr>sh_pos := positional_set (Some (args ! 1)) (drop 2 args)\<rparr>)
      else petrush_interactive sys n add args is h s)"

section \<open>An abort at the prompt\<close>






section \<open>Leaving the prompt\<close>

text \<open>The words \<open>exit\<close> and \<open>quit\<close>, and the end of the input, end the loop at once: no action of \<open>trap\<close>
  is run for \<open>EXIT\<close>, and the exit code is 0 whatever the status of the last command.\<close>

lemma leaving_the_prompt:
  assumes "i \<in> {Line ''exit'', Line ''quit'', End_Of_Input}"
  shows "repl_loop sys n add (i # is) h s = Ret h (before_prompt sys s)"
  using assms by auto

lemma interactive_exit_code:
  "petrush_interactive sys n add args is h s = Ret rc t \<Longrightarrow> rc = 0"
  by (auto simp: petrush_interactive_def Let_def rbind_Ret)

end
