(* ===== verification/Failures.thy ===== *)
theory Failures
  imports Dispatch
begin

text \<open>
  What happens when a command cannot get what it needs: a redirection that cannot be opened, a
  program that is not there.
\<close>

section \<open>Redirections are opened in order\<close>

inductive opened :: "'w sys \<Rightarrow> redir_op list \<Rightarrow> 'w \<Rightarrow> 'w \<Rightarrow> bool" for sys where
  opened_Nil: "opened sys [] w w"
| opened_Cons: "r \<noteq> No_Body \<Longrightarrow> sys_open sys r w = (True, w') \<Longrightarrow> opened sys rs w' w'' \<Longrightarrow> opened sys (r # rs) w w''"

inductive_cases opened_ConsE: "opened sys (r # rs) w w'"

text \<open>One that fails: a here-document without a body, or a file that the system does not open.\<close>

definition open_fails :: "'w sys \<Rightarrow> redir_op \<Rightarrow> 'w \<Rightarrow> 'w \<Rightarrow> bool" where
  "open_fails sys r w w' \<longleftrightarrow> (if r = No_Body then w' = w else sys_open sys r w = (False, w'))"

lemma open_all_True: "open_all sys rs w = (True, w') \<longleftrightarrow> opened sys rs w w'"
proof (induction sys rs w rule: open_all.induct)
  case (1 sys w)
  then show ?case by (auto intro: opened_Nil elim: opened.cases)
next
  case (2 sys r rs w)
  then show ?case by (auto intro: opened_Cons elim!: opened_ConsE split: prod.splits if_splits)
qed

lemma open_all_False:
  "open_all sys rs w = (False, w') \<longleftrightarrow>
     (\<exists>k w1. k < length rs \<and> opened sys (take k rs) w w1 \<and> open_fails sys (rs ! k) w1 w')"
proof (induction sys rs w rule: open_all.induct)
  case (2 sys r rs w)
  show ?case (is "?l \<longleftrightarrow> (\<exists>k w1. ?r k w1)")
  proof
    assume l: ?l
    show "\<exists>k w1. ?r k w1"
    proof (cases "r = No_Body \<or> \<not> fst (sys_open sys r w)")
      case True
      then have "?r 0 w" using l by (auto simp: open_fails_def opened_Nil split: prod.splits)
      then show ?thesis by blast
    next
      case False
      then obtain v where v: "r \<noteq> No_Body" "sys_open sys r w = (True, v)" by (cases "sys_open sys r w") auto
      then have "open_all sys rs v = (False, w')" using l by simp
      then obtain k w1 where "k < length rs" "opened sys (take k rs) v w1" "open_fails sys (rs ! k) w1 w'"
        using 2 v by metis
      then have "?r (Suc k) w1" using v by (auto intro: opened_Cons)
      then show ?thesis by blast
    qed
  next
    assume "\<exists>k w1. ?r k w1"
    then obtain k w1 where r: "?r k w1" by blast
    show ?l
    proof (cases k)
      case 0
      then show ?thesis using r by (auto simp: open_fails_def elim: opened.cases split: if_splits)
    next
      case (Suc j)
      then obtain v where v: "r \<noteq> No_Body" "sys_open sys r w = (True, v)" "opened sys (take j rs) v w1"
        using r by (auto elim: opened_ConsE)
      moreover have "open_all sys rs v = (False, w')"
        using 2 [OF v(1) v(2) [symmetric] TrueI] r v(3) Suc by auto
      ultimately show ?thesis by simp
    qed
  qed
qed simp

text \<open>
  C22. A redirection that fails. The redirections of a command are opened in order, and the first
  one that fails is the last one tried. The command is then not run: a builtin gives status 1
  and changes nothing; a program is not executed and gives status 1; and a program that is not
  found gives 127, or 126 for a path to something that is there, before any redirection is
  opened.
\<close>

theorem failed_redirection:
  assumes cmd: "argv c = name # args" "fn_get (sh_fns s) name = None" "cmd_needs_redir c"
    and fails: "petrush_apply_redirs sys c (sh_world s) = (False, w)"
  shows "(\<exists>k w1. k < length (redir_plan c) \<and> opened sys (take k (redir_plan c)) (sh_world s) w1 \<and>
      open_fails sys (redir_plan c ! k) w1 w) \<and>
    run_command sys dl c s =
      (if find_builtin name then Ret 1 (s\<lparr>sh_world := w\<rparr>)
       else case find_executable (sys_executable sys (sh_world s)) (sh_env s) name of
         None \<Rightarrow> Ret (if SLASH \<in> set name \<and> sys_exists sys (sh_world s) name then 126 else 127) s
       | Some exe \<Rightarrow> rbind (petrush_traps_poll sys dl (s\<lparr>sh_world := w\<rparr>)) (\<lambda>_. Ret 1))"
proof (rule conjI)
  show "\<exists>k w1. k < length (redir_plan c) \<and> opened sys (take k (redir_plan c)) (sh_world s) w1 \<and>
      open_fails sys (redir_plan c ! k) w1 w"
    using fails unfolding petrush_apply_redirs_def open_all_False .
  have child: "external_child sys exe c s = Some (256, [], w)" for exe
    by (simp add: external_child_def fails)
  show "run_command sys dl c s =
      (if find_builtin name then Ret 1 (s\<lparr>sh_world := w\<rparr>)
       else case find_executable (sys_executable sys (sh_world s)) (sh_env s) name of
         None \<Rightarrow> Ret (if SLASH \<in> set name \<and> sys_exists sys (sh_world s) name then 126 else 127) s
       | Some exe \<Rightarrow> rbind (petrush_traps_poll sys dl (s\<lparr>sh_world := w\<rparr>)) (\<lambda>_. Ret 1))"
    by (auto simp: run_command_def cmd run_builtin_with_redirs_def fails execute_external_def child
        shell_error_code_for_def exec_status_def status_to_code_def rbind_assoc Let_def split: option.split)
qed

text \<open>A system that opens \<open>b\<close> only, counting what it is asked to open.\<close>

definition picky_sys :: "nat sys" where
  "picky_sys = \<lparr>sys_readdir = (\<lambda>_ _. None), sys_getcwd = (\<lambda>_. None), sys_chdir = (\<lambda>_ _. None),
     sys_executable = (\<lambda>_ _. True), sys_exists = (\<lambda>_ _. True), sys_stat = (\<lambda>_ _. None), sys_uid = 0,
     sys_read_file = (\<lambda>_ _. None), sys_open = (\<lambda>r w. (r = Open_In ''b'', Suc w)), sys_write = (\<lambda>_ _ w. w),
     sys_exec = (\<lambda>_ _ _ _ _. None), sys_pipeline = (\<lambda>_ _. None), sys_spawn = (\<lambda>_ _. None),
     sys_wait = (\<lambda>_ _. Not_Yet), sys_signals = (\<lambda>w. ([], w)), sys_builtin = (\<lambda>c s. (1, [], sh_env s, sh_world s))\<rparr>"

lemma failed_redirection_witness:
  "run_command picky_sys (\<lambda>l s. Ret (0, l) s) (cmd_zero\<lparr>argv := [''pwd''], redir_in := Some ''b'', redir_out := Some ''c'',
      redir_err := Some ''d''\<rparr>) (initial_shell [] 0) = Ret 1 (initial_shell [] 2)"
proof -
  let ?c = "cmd_zero\<lparr>argv := [''pwd''], redir_in := Some ''b'', redir_out := Some ''c'', redir_err := Some ''d''\<rparr>"
  have "argv ?c = ''pwd'' # []" "fn_get (sh_fns (initial_shell [] (0 :: nat))) ''pwd'' = None" "cmd_needs_redir ?c"
    "petrush_apply_redirs picky_sys ?c (sh_world (initial_shell [] 0)) = (False, 2)"
    by code_simp+
  from failed_redirection [OF this] show ?thesis
    by (simp add: find_builtin_def builtin_names_def initial_shell_def)
qed

end
