(* ===== verification/Reports.thy ===== *)
theory Reports
  imports Startup Wai Statuses
begin

text \<open>
  The builtins that only report or that touch one thing of the process (\<open>mid/dispatcher.c\<close>): \<open>help\<close>,
  \<open>info\<close>, \<open>clear\<close>, \<open>history\<close>, \<open>umask\<close>, \<open>read\<close>, and with \<open>wai\<close> their place in the table of builtins.
  What they need of the process is a record of services.
\<close>

section \<open>Texts\<close>

definition unlines :: "string list \<Rightarrow> string" where
  "unlines ls = concat (map (\<lambda>l. l @ [NL]) ls)"

text \<open>The lines of the help, with the bytes of UTF-8.\<close>

definition builtin_help :: "string list" where
  "builtin_help = [
     ''PetRush '' @ [CHR 0xE2, CHR 0x80, CHR 0x94] @ '' Shell interativo em C'',
     [],
     ''Comandos embutidos dispon'' @ [CHR 0xC3, CHR 0xAD] @ ''veis:'',
     ''  cd [dir]     - Muda de diret'' @ [CHR 0xC3, CHR 0xB3] @ ''rio'',
     ''  pwd          - Mostra diret'' @ [CHR 0xC3, CHR 0xB3] @ ''rio atual'',
     ''  echo [args]  - Imprime argumentos'',
     ''  exit         - Sai do shell'',
     ''  help         - Mostra esta ajuda'',
     ''  clear        - Limpa a tela'',
     ''  env          - Lista vari'' @ [CHR 0xC3, CHR 0xA1] @ ''veis de ambiente'',
     ''  export       - Exporta vari'' @ [CHR 0xC3, CHR 0xA1] @ ''vel (export VAR ou export VAR=valor)'',
     ''  unset        - Remove vari'' @ [CHR 0xC3, CHR 0xA1] @ ''vel de ambiente'',
     ''  history      - Mostra hist'' @ [CHR 0xC3, CHR 0xB3] @ ''rico de comandos'',
     ''  info         - Mostra informa'' @ [CHR 0xC3, CHR 0xA7, CHR 0xC3, CHR 0xB5] @ ''es do shell'',
     ''  wai ['' @ [CHR 0xE2, CHR 0x80, CHR 0xA6] @ '']      - Invent'' @ [CHR 0xC3, CHR 0xA1] @ ''rio de hardware (sysfs/proc, sem root)'',
     ''  netcom ['' @ [CHR 0xE2, CHR 0x80, CHR 0xA6] @ '']   - Rede wifi/eth/bt; -up/-down precisa CAP_NET_ADMIN'',
     ''  alias        - Define/lista aliases'',
     ''  unalias      - Remove alias'',
     ''  which        - Localiza comando (builtin ou PATH)'',
     ''  pushd/popd   - Stack de diret'' @ [CHR 0xC3, CHR 0xB3] @ ''rios'',
     ''  dirs         - Mostra a stack'',
     ''  source/.     - Executa arquivo no shell atual'',
     ''  jobs         - Lista jobs em background'',
     ''  true / :     - Sempre status 0 (no-op)'',
     ''  false        - Sempre status 1 (no-op)'',
     ''  umask [oct]  - Mostra/define m'' @ [CHR 0xC3, CHR 0xA1] @ ''scara octal do shell'',
     ''  read NAME    - L'' @ [CHR 0xC3, CHR 0xAA] @ '' 1 linha de stdin para NAME'',
     ''  test / [     - Primaries (-f -d -e -z -n = != -eq -ne -lt -gt)'',
     ''  shift [n]    - Desloca posicionais (default 1; n>$# erro)'',
     ''  return [n]   - Sai da funcao com status n (default 0; so em fn)'',
     ''  local NAME[=VALUE] - Var local na funcao (restaura ao sair; sem flags)'',
     ''  set [--] [args] / set [-+]x / set [-+]o xtrace - Opcoes e posicionais'',
     ''  trap [action] cond... / trap - cond / trap '' @ [CHR 0x27, CHR 0x27] @ '' cond - Trap POSIX (dump/ignore/reset)'',
     [],
     ''Tamb'' @ [CHR 0xC3, CHR 0xA9] @ ''m: pipes |, redirs > >> < 2> 2>> 2>&1 &>, listas && || ; &,'',
     ''  glob * ? (unquoted), !! / !n, Tab, history hints.'',
     ''noclobber: > e 2> recusam overwrite se o destino existe; >> / 2>> ok.'',
     ''Comandos externos via PATH. Prompt: PETRUSH_PS1.'']"

text \<open>\<open>build\<close> is the date and the time of the compilation.\<close>

definition builtin_info :: "string \<Rightarrow> string list" where
  "builtin_info build =
     [''petrush 0.3.2.1'', ''C23 REPL shell'', ''Build: '' @ build,
      ''Features: history, rc, signals, pudo, pipes, redir (noclobber), alias, PS1, complete, hints, &&/||/;/&, glob, source/., jobs, set/-x, trap.'',
      ''Anti-OE: noclobber always-on; sem arrays/pipefail/fg'']"

section \<open>The mask of new files\<close>

definition isoct :: "char \<Rightarrow> bool" where
  "isoct c \<longleftrightarrow> 48 \<le> code c \<and> code c \<le> 55"

definition octal :: "string \<Rightarrow> nat" where
  "octal ds = foldl (\<lambda>n c. 8 * n + (code c - 48)) 0 ds"

text \<open>\<open>strtoul\<close> in base 8: the value, whether it was out of range, and the text after the number. A
  number with a minus sign is the negation modulo \<open>2 ^ 64\<close>.\<close>

definition strtoul8 :: "string \<Rightarrow> nat \<times> bool \<times> string" where
  "strtoul8 s =
     (let t = skip_space s;
          u = (if peek t = CHR ''+'' \<or> peek t = CHR ''-'' then tl t else t);
          ds = takeWhile isoct u; v = octal ds
      in if ds = [] then (0, False, s)
         else if v \<ge> 2 ^ 64 then (2 ^ 64 - 1, True, dropWhile isoct u)
         else (if peek t = CHR ''-'' then (2 ^ 64 - v) mod 2 ^ 64 else v, False, dropWhile isoct u))"

fun show_octal :: "nat \<Rightarrow> string" where
  "show_octal n = (if n < 8 then [char_of (48 + n)] else show_octal (n div 8) @ [char_of (48 + n mod 8)])"

declare show_octal.simps [simp del]

definition pad4 :: "string \<Rightarrow> string" where
  "pad4 s = replicate (4 - length s) (CHR ''0'') @ s"

text \<open>The status, the output and the mask, of which the system keeps nine bits.\<close>

definition builtin_umask :: "string list \<Rightarrow> nat \<Rightarrow> int \<times> string \<times> nat" where
  "builtin_umask args cur =
     (if length args > 2 then (1, [], cur)
      else if length args = 1 then (0, pad4 (show_octal cur) @ [NL], cur)
      else let arg = args ! 1 in
        case strtoul8 arg of (v, erange, rest) \<Rightarrow>
          if arg = [] \<or> rest = arg \<or> rest \<noteq> [] \<or> erange then (1, [], cur) else (0, [], v mod 512))"

section \<open>Reading a line\<close>

text \<open>The status, the rest of the input, and the environment.\<close>

definition builtin_read :: "string list \<Rightarrow> string \<Rightarrow> env \<Rightarrow> int \<times> string \<times> env" where
  "builtin_read args input e =
     (if length args \<noteq> 2 \<or> args ! 1 = [] then (1, input, e)
      else case fgets 8192 input of
        None \<Rightarrow> (1, input, e)
      | Some (l, rest) \<Rightarrow>
          (case petrush_setenv (args ! 1) (if l \<noteq> [] \<and> List.last l = NL then butlast l else l) e of
             None \<Rightarrow> (1, rest, e)
           | Some e' \<Rightarrow> (0, rest, e')))"

section \<open>The history file\<close>

definition pad5 :: "string \<Rightarrow> string" where
  "pad5 s = replicate (5 - length s) (CHR '' '') @ s"

fun numbered :: "nat \<Rightarrow> string list \<Rightarrow> string" where
  "numbered n [] = []"
| "numbered n (l # ls) =
     pad5 (show_nat n) @ ''  '' @ (if l \<noteq> [] \<and> List.last l = NL then butlast l else l) @ [NL] @ numbered (n + 1) ls"

definition builtin_history :: "(string \<Rightarrow> bool) \<Rightarrow> (string \<Rightarrow> string option) \<Rightarrow> env \<Rightarrow> string" where
  "builtin_history there files e =
     (case petrush_history_path there e host_path_max of
        None \<Rightarrow> ''No history yet.'' @ [NL]
      | Some p \<Rightarrow>
          (case files p of
             None \<Rightarrow> ''No history yet.'' @ [NL]
           | Some t \<Rightarrow> numbered 1 (file_lines 4096 t)))"

section \<open>Their place in the shell\<close>

text \<open>What these builtins use of the process and the machine; \<open>sv_other\<close> are the builtins that may not
  come back, \<open>pudo\<close> and \<open>netcom\<close>.\<close>

record 'w services =
  sv_umask :: "'w \<Rightarrow> nat"
  sv_set_umask :: "nat \<Rightarrow> 'w \<Rightarrow> 'w"
  sv_input :: "'w \<Rightarrow> string"
  sv_set_input :: "string \<Rightarrow> 'w \<Rightarrow> 'w"
  sv_there :: "'w \<Rightarrow> string \<Rightarrow> bool"
  sv_file :: "'w \<Rightarrow> string \<Rightarrow> string option"
  sv_machine :: "'w \<Rightarrow> inv_sys"
  sv_build :: string
  sv_clear :: string
  sv_other :: "cmd \<Rightarrow> 'w shell \<Rightarrow> int \<times> string \<times> env \<times> 'w"

definition other_builtin :: "'w services \<Rightarrow> cmd \<Rightarrow> 'w shell \<Rightarrow> int \<times> string \<times> env \<times> 'w" where
  "other_builtin sv c s =
     (let args = argv c; name = hd (argv c); e = sh_env s; w = sh_world s in
      if name = ''help'' then (0, unlines builtin_help, e, w)
      else if name = ''info'' then (0, unlines (builtin_info (sv_build sv)), e, w)
      else if name = ''clear'' then (0, sv_clear sv, e, w)
      else if name = ''history'' then (0, builtin_history (sv_there sv w) (sv_file sv w) e, e, w)
      else if name = ''umask'' then
        (case builtin_umask args (sv_umask sv w) of (st, t, u) \<Rightarrow> (st, t, e, sv_set_umask sv u w))
      else if name = ''read'' then
        (case builtin_read args (sv_input sv w) e of (st, rest, e') \<Rightarrow> (st, [], e', sv_set_input sv rest w))
      else if name = ''wai'' then
        (case builtin_wai (sv_machine sv w) args of (st, t) \<Rightarrow> (st, t, e, w))
      else sv_other sv c s)"

section \<open>What the mask prints restores it\<close>

lemma octal_snoc: "octal (ds @ [c]) = 8 * octal ds + (code c - 48)"
  by (simp add: octal_def)

lemma octal_digit: "d < 8 \<Longrightarrow> isoct (char_of (48 + d :: nat)) \<and> code (char_of (48 + d :: nat)) = 48 + d"
  by (simp add: isoct_def code_def)

lemma octal_show: "octal (show_octal n) = n \<and> list_all isoct (show_octal n) \<and> show_octal n \<noteq> []"
proof (induction n rule: show_octal.induct)
  case (1 n)
  show ?case
    using 1 octal_digit [of n] octal_digit [of "n mod 8"]
    by (cases "n < 8") (simp_all add: show_octal.simps [of n] octal_snoc, simp_all add: octal_def)
qed

lemma octal_zeros: "octal (replicate k (CHR ''0'') @ ds) = octal ds"
  by (induction k) (simp_all add: octal_def code_def)

lemma strtoul8_digits:
  assumes "list_all isoct ds" "ds \<noteq> []" "octal ds < 2 ^ 64"
  shows "strtoul8 ds = (octal ds, False, [])"
proof -
  have d: "isoct (peek ds)" using assms(1,2) by (cases ds) auto
  then have "\<not> isspace (peek ds)" "peek ds \<noteq> CHR ''+''" "peek ds \<noteq> CHR ''-''"
    by (auto simp: isoct_def isspace_def code_def)
  moreover from this have "skip_space ds = ds" by (intro skip_space_id) auto
  moreover have "takeWhile isoct ds = ds" "dropWhile isoct ds = []"
    using assms(1) by (auto simp: list_all_iff takeWhile_eq_all_conv)
  ultimately show ?thesis
    using assms by (simp add: strtoul8_def Let_def del: takeWhile_eq_all_conv dropWhile_eq_Nil_conv)
qed

lemma umask_restores:
  assumes "m < 512"
  shows "builtin_umask [''umask''] m = (0, pad4 (show_octal m) @ [NL], m)"
    "builtin_umask [''umask'', pad4 (show_octal m)] cur = (0, [], m)"
proof -
  show "builtin_umask [''umask''] m = (0, pad4 (show_octal m) @ [NL], m)"
    by (simp add: builtin_umask_def)
  have "list_all isoct (pad4 (show_octal m))" "pad4 (show_octal m) \<noteq> []" "octal (pad4 (show_octal m)) = m"
    using octal_show [of m] by (auto simp: pad4_def octal_zeros list_all_iff isoct_def code_def)
  moreover have "m < 2 ^ 64"
    by (rule less_le_trans [OF assms]) simp
  ultimately show "builtin_umask [''umask'', pad4 (show_octal m)] cur = (0, [], m)"
    using strtoul8_digits [of "pad4 (show_octal m)"] assms by (simp add: builtin_umask_def Let_def)
qed

section \<open>Their statuses are bytes\<close>

lemma other_builtin_byte:
  assumes "\<And>c s. byte (fst (sv_other sv c s))"
  shows "byte (fst (other_builtin sv c s))"
  using assms
  by (auto simp: other_builtin_def builtin_umask_def builtin_read_def builtin_wai_def Let_def
      split: prod.split option.split wai_request.split)

end
