(* ===== verification/Transfers.thy ===== *)
theory Transfers
  imports Prelude
begin

text \<open>
  Loops that move bytes: the growth of the buffer of expansion (\<open>ensure_cap\<close> and
  \<open>append_bytes\<close> in \<open>src/mid/expand.c\<close>), the file behind a here-document (\<open>open_heredoc_fd\<close> in
  \<open>src/foundation/process.c\<close>) and the digest of a plugin (\<open>petrush_plugin_sha256_fd\<close> in
  \<open>src/foundation/plugin_load.c\<close>).  The answers of \<open>write\<close> and \<open>read\<close>, which may move fewer bytes
  than asked or be interrupted, are a list; when it ends the loop is still waiting.

  The buffer always has room for the terminator, the file has the whole body, and the digest is
  that of the whole content, however the bytes are cut into pieces.
\<close>

section \<open>The growing buffer\<close>

partial_function (option) ensure_cap :: "nat \<Rightarrow> nat \<Rightarrow> nat option" where
  "ensure_cap cap need = (if need \<ge> cap then ensure_cap (cap * 2) need else Some cap)"

definition out_append_bytes :: "string \<Rightarrow> string \<times> nat \<Rightarrow> (string \<times> nat) option" where
  "out_append_bytes src b =
     (case b of (o', cap) \<Rightarrow> map_option (\<lambda>cap. (o' @ src, cap)) (ensure_cap cap (length o' + length src + 1)))"

definition out_append_char :: "char \<Rightarrow> string \<times> nat \<Rightarrow> (string \<times> nat) option" where
  "out_append_char c b = (case b of (o', cap) \<Rightarrow> map_option (\<lambda>cap. (o' @ [c], cap)) (ensure_cap cap (length o' + 2)))"

lemma ensure_cap_enough: "cap \<le> need \<Longrightarrow> 0 < cap \<Longrightarrow>
  \<exists>c. ensure_cap cap need = Some c \<and> need < c \<and> c \<le> 2 * need"
proof (induction "need + 1 - cap" arbitrary: cap rule: less_induct)
  case less
  have step: "ensure_cap cap need = ensure_cap (cap * 2) need"
    using less.prems(1) by (subst ensure_cap.simps) simp
  show ?case
  proof (cases "cap * 2 \<le> need")
    case True
    then show ?thesis using less.hyps [of "cap * 2"] less.prems step by simp
  next
    case False
    then have "ensure_cap (cap * 2) need = Some (cap * 2)" by (subst ensure_cap.simps) simp
    then show ?thesis using step False less.prems by simp
  qed
qed

text \<open>The growth ends, at most at twice what is needed; from a buffer of no bytes it never would.\<close>

theorem ensure_cap_returns:
  assumes "0 < cap"
  shows "\<exists>c. ensure_cap cap need = Some c \<and> need < c \<and> cap \<le> c \<and> c \<le> max cap (2 * need)"
proof (cases "cap \<le> need")
  case True
  then obtain c where "ensure_cap cap need = Some c" "need < c" "c \<le> 2 * need"
    using ensure_cap_enough [OF _ assms] by blast
  then show ?thesis using True by (intro exI [of _ c]) simp
next
  case False
  then show ?thesis by (subst ensure_cap.simps) simp
qed

theorem append_keeps_room:
  assumes "length o' < cap"
  shows "\<exists>c. out_append_bytes src (o', cap) = Some (o' @ src, c) \<and> length (o' @ src) + 1 < c"
    and "\<exists>c. out_append_char x (o', cap) = Some (o' @ [x], c) \<and> length (o' @ [x]) + 1 < c"
proof -
  have "0 < cap" using assms by simp
  from ensure_cap_returns [OF this, of "length o' + length src + 1"]
  show "\<exists>c. out_append_bytes src (o', cap) = Some (o' @ src, c) \<and> length (o' @ src) + 1 < c"
    by (auto simp: out_append_bytes_def)
  from ensure_cap_returns [OF \<open>0 < cap\<close>, of "length o' + 2"]
  show "\<exists>c. out_append_char x (o', cap) = Some (o' @ [x], c) \<and> length (o' @ [x]) + 1 < c"
    by (auto simp: out_append_char_def)
qed

section \<open>The file of a here-document\<close>

datatype moved = Moved nat | Interrupted | Failed

datatype 'a outcome = Finished 'a | Error | Waiting

text \<open>\<open>wr\<close> is what has been written; the position in the body comes with it.\<close>

fun write_loop :: "string \<Rightarrow> nat \<Rightarrow> string \<Rightarrow> moved list \<Rightarrow> string outcome" where
  "write_loop body off wr answers =
     (if off \<ge> length body then Finished wr
      else case answers of
        [] \<Rightarrow> Waiting
      | Interrupted # as \<Rightarrow> write_loop body off wr as
      | Failed # as \<Rightarrow> Error
      | Moved n # as \<Rightarrow>
          let n = min n (length body - off) in
          write_loop body (off + n) (wr @ take n (drop off body)) as)"

declare write_loop.simps [simp del]

text \<open>\<open>memfd\<close>, \<open>tmpfile\<close> and \<open>mkstemp\<close> tell whether each way to get a file works.\<close>

definition open_heredoc_fd :: "bool \<Rightarrow> bool \<Rightarrow> bool \<Rightarrow> bool \<Rightarrow> moved list \<Rightarrow> string option \<Rightarrow> string outcome" where
  "open_heredoc_fd memfd tmpfile mkstemp lseek answers body =
     (if \<not> memfd \<and> \<not> tmpfile \<and> \<not> mkstemp then Error
      else case write_loop (case body of None \<Rightarrow> [] | Some b \<Rightarrow> b) 0 [] answers of
        Finished wr \<Rightarrow> if lseek then Finished wr else Error
      | r \<Rightarrow> r)"

lemma next_piece: "take n (drop i s) @ drop (i + n) s = drop i s"
  by (metis add.commute append_take_drop_id drop_drop)

lemma write_loop_whole:
  "write_loop body off wr answers = Finished f \<Longrightarrow> f = wr @ drop off body"
proof (induction body off wr answers rule: write_loop.induct)
  case (1 body off wr answers)
  show ?case
  proof (cases "off \<ge> length body")
    case True
    then show ?thesis using 1(3) by (subst (asm) write_loop.simps) simp
  next
    case False
    then obtain a as where answers: "answers = a # as"
      using 1(3) by (subst (asm) write_loop.simps) (auto split: list.splits)
    show ?thesis
    proof (cases a)
      case (Moved n)
      let ?n = "min n (length body - off)"
      have "write_loop body (off + ?n) (wr @ take ?n (drop off body)) as = Finished f"
        using 1(3) False answers Moved by (subst (asm) write_loop.simps) (simp add: Let_def)
      then have "f = (wr @ take ?n (drop off body)) @ drop (off + ?n) body"
        using 1(1) [OF False answers Moved refl] by simp
      then show ?thesis by (simp add: next_piece)
    next
      case Interrupted
      then show ?thesis
        using 1(3) 1(2) [OF False answers Interrupted] False answers
        by (subst (asm) write_loop.simps) simp
    next
      case Failed
      then show ?thesis using 1(3) False answers by (subst (asm) write_loop.simps) simp
    qed
  qed
qed

text \<open>When a file is given it has the body, all of it.\<close>

theorem heredoc_fd_whole:
  "open_heredoc_fd memfd tmpfile mkstemp lseek answers body = Finished f \<Longrightarrow>
     f = (case body of None \<Rightarrow> [] | Some b \<Rightarrow> b)"
  by (auto simp: open_heredoc_fd_def split: if_splits outcome.splits dest: write_loop_whole)

text \<open>It is given when the system goes on moving bytes.\<close>

lemma write_loop_done:
  "length body - off \<le> length (filter (\<lambda>a. a \<noteq> Interrupted) answers) \<Longrightarrow>
   \<forall>a\<in>set answers. a = Interrupted \<or> (\<exists>n>0. a = Moved n) \<Longrightarrow>
   write_loop body off wr answers = Finished (wr @ drop off body)"
proof (induction answers arbitrary: off wr)
  case Nil
  then show ?case by (simp add: write_loop.simps)
next
  case (Cons a as)
  show ?case
  proof (cases "off \<ge> length body")
    case True
    then show ?thesis by (simp add: write_loop.simps)
  next
    case False
    consider "a = Interrupted" | n where "a = Moved n" "0 < n" using Cons.prems(2) by auto
    then show ?thesis
    proof cases
      case 1
      then show ?thesis using Cons False by (subst write_loop.simps) simp
    next
      case 2
      let ?n = "min n (length body - off)"
      have "0 < ?n" using 2 False by simp
      then have "write_loop body (off + ?n) (wr @ take ?n (drop off body)) as =
          Finished ((wr @ take ?n (drop off body)) @ drop (off + ?n) body)"
        using Cons.prems 2 by (intro Cons.IH) auto
      then show ?thesis
        using False 2 by (subst write_loop.simps) (simp add: Let_def next_piece)
    qed
  qed
qed

theorem heredoc_fd_given:
  assumes "length body \<le> length (filter (\<lambda>a. a \<noteq> Interrupted) answers)"
    and "\<forall>a\<in>set answers. a = Interrupted \<or> (\<exists>n>0. a = Moved n)"
  shows "open_heredoc_fd True tmpfile mkstemp True answers (Some body) = Finished body"
  using write_loop_done [of body 0 answers "[]"] assms by (simp add: open_heredoc_fd_def)

section \<open>The digest of a file\<close>

datatype got = Got string | Got_Interrupted | Got_Error

text \<open>The digest library: its start, which may fail, an update, and the end with its length.\<close>

record 'h digest_lib =
  dg_init :: "'h option"
  dg_update :: "'h \<Rightarrow> string \<Rightarrow> 'h option"
  dg_final :: "'h \<Rightarrow> string option"

fun digest_loop :: "'h digest_lib \<Rightarrow> 'h \<Rightarrow> got list \<Rightarrow> 'h outcome" where
  "digest_loop lib h [] = Waiting"
| "digest_loop lib h (Got_Interrupted # as) = digest_loop lib h as"
| "digest_loop lib h (Got_Error # as) = Error"
| "digest_loop lib h (Got t # as) =
     (if t = [] then Finished h
      else case dg_update lib h t of None \<Rightarrow> Error | Some h \<Rightarrow> digest_loop lib h as)"

definition petrush_plugin_sha256_fd :: "'h digest_lib \<Rightarrow> bool \<Rightarrow> got list \<Rightarrow> string outcome" where
  "petrush_plugin_sha256_fd lib lseek answers =
     (if \<not> lseek then Error
      else case dg_init lib of
        None \<Rightarrow> Error
      | Some h \<Rightarrow> (case digest_loop lib h answers of
          Finished h \<Rightarrow> (case dg_final lib h of
              None \<Rightarrow> Error
            | Some d \<Rightarrow> if length d \<noteq> 32 then Error else Finished d)
        | Error \<Rightarrow> Error
        | Waiting \<Rightarrow> Waiting))"

text \<open>The bytes read before the end of the file.\<close>

fun read_text :: "got list \<Rightarrow> string" where
  "read_text [] = []"
| "read_text (Got t # as) = (if t = [] then [] else t @ read_text as)"
| "read_text (_ # as) = read_text as"

definition updates_join :: "'h digest_lib \<Rightarrow> bool" where
  "updates_join lib \<longleftrightarrow> (\<forall>h. dg_update lib h [] = Some h) \<and>
     (\<forall>h s t. Option.bind (dg_update lib h s) (\<lambda>h. dg_update lib h t) = dg_update lib h (s @ t))"

lemma digest_loop_whole:
  "updates_join lib \<Longrightarrow> digest_loop lib h answers = Finished h' \<Longrightarrow> dg_update lib h (read_text answers) = Some h'"
proof (induction lib h answers rule: digest_loop.induct)
  case (4 lib h t as)
  show ?case
  proof (cases "t = []")
    case True
    then show ?thesis using 4(2,3) by (simp add: updates_join_def)
  next
    case False
    then obtain h1 where h1: "dg_update lib h t = Some h1" "digest_loop lib h1 as = Finished h'"
      using 4(3) by (auto split: option.splits)
    then have "dg_update lib h1 (read_text as) = Some h'" using 4(1) [OF False h1(1) 4(2)] by simp
    moreover have "dg_update lib h (t @ read_text as) =
        Option.bind (dg_update lib h t) (\<lambda>h. dg_update lib h (read_text as))"
      using 4(2) by (simp add: updates_join_def)
    ultimately show ?thesis using h1(1) False by simp
  qed
qed auto

text \<open>A digest that is given is that of everything read, in whatever pieces.\<close>

theorem digest_of_pieces:
  assumes "updates_join lib" and "petrush_plugin_sha256_fd lib lseek answers = Finished d"
  shows "Option.bind (dg_init lib) (\<lambda>h. Option.bind (dg_update lib h (read_text answers)) (dg_final lib)) = Some d \<and>
    length d = 32"
  using assms digest_loop_whole [OF assms(1)]
  by (auto simp: petrush_plugin_sha256_fd_def split: if_splits option.splits outcome.splits)

text \<open>The same with a library that collects its input.\<close>

definition collecting :: "string digest_lib" where
  "collecting = \<lparr>dg_init = Some [], dg_update = (\<lambda>h t. Some (h @ t)), dg_final = (\<lambda>h. Some (take 32 (h @ replicate 32 NUL)))\<rparr>"

theorem digest_of_pieces_example:
  "Option.bind (dg_update collecting [] ''abc'') (dg_final collecting) = Some (''abc'' @ replicate 29 NUL)"
proof -
  have "updates_join collecting" by (simp add: updates_join_def collecting_def)
  moreover have "petrush_plugin_sha256_fd collecting True [Got ''ab'', Got_Interrupted, Got ''c'', Got []] =
      Finished (''abc'' @ replicate 29 NUL)"
    by code_simp
  ultimately have "Option.bind (dg_init collecting) (\<lambda>h. Option.bind
      (dg_update collecting h (read_text [Got ''ab'', Got_Interrupted, Got ''c'', Got []])) (dg_final collecting)) =
      Some (''abc'' @ replicate 29 NUL)"
    using digest_of_pieces by blast
  then show ?thesis by (simp add: collecting_def)
qed

end
