(* ===== verification/Highlight.thy ===== *)
theory Highlight
  imports Prelude
begin

text \<open>
  The colours of the line at the prompt (\<open>src/front/highlight.c\<close>): a scanner that cuts the
  line into at most 64 spans and a writer that puts a control sequence before each.  The pair
  \<open>buf\<close>, \<open>len\<close> is a string, and the position \<open>i\<close> comes with the text from there on.
  The output buffer is its capacity and the text in it.

  The spans are shown to cut up the line without holes, the coloured text to be the line with
  control sequences put in between, and the first estimate of the size of the buffer to suffice.
\<close>

section \<open>The scanner\<close>

definition hl_max_spans :: nat where "hl_max_spans = 64"

datatype hl_kind = HL_Plain | HL_Cmd | HL_Str | HL_Unclosed | HL_Op

record hl_span =
  sp_start :: nat
  sp_len :: nat
  sp_kind :: hl_kind

definition ends_merge :: "char \<Rightarrow> bool" where
  "ends_merge after \<longleftrightarrow> after = NUL \<or> isspace after \<or> after \<in> {CHR ''|'', CHR ''<'', CHR ''>'', CHR ''&'', CHR '';''}"

definition match_op :: "string \<Rightarrow> nat" where
  "match_op p =
     (if length p \<ge> 4 \<and> take 4 p = ''2>&1'' \<and> ends_merge (if length p > 4 then p ! 4 else NUL) then 4
      else if length p \<ge> 3 \<and> take 3 p = ''2>>'' then 3
      else if length p \<ge> 2 \<and> take 2 p = ''2>'' then 2
      else if length p \<ge> 2 \<and> take 2 p = ''&>'' then 2
      else if length p \<ge> 2 \<and> take 2 p = ''>>'' then 2
      else if length p \<ge> 2 \<and> take 2 p = ''||'' then 2
      else if length p \<ge> 2 \<and> take 2 p = ''&&'' then 2
      else if length p \<ge> 1 \<and> p ! 0 = CHR ''&'' then 1
      else if length p \<ge> 1 \<and> p ! 0 \<in> {CHR ''|'', CHR '';'', CHR ''<'', CHR ''>''} then 1
      else 0)"

definition op_resets_cmd :: "string \<Rightarrow> nat \<Rightarrow> bool" where
  "op_resets_cmd p oplen \<longleftrightarrow>
     oplen = 1 \<and> p ! 0 \<in> {CHR ''|'', CHR '';'', CHR ''&''} \<or>
     oplen = 2 \<and> (take 2 p = ''||'' \<or> take 2 p = ''&&'')"

definition word_break_here :: "char \<Rightarrow> bool" where
  "word_break_here c \<longleftrightarrow> c \<in> {CHR ''|'', CHR '';'', CHR ''<'', CHR ''>''} \<or> c = CHR ''&''"

definition push_span :: "nat \<Rightarrow> nat \<Rightarrow> nat \<Rightarrow> hl_kind \<Rightarrow> hl_span list \<Rightarrow> hl_span list option" where
  "push_span max_spans start len kind spans =
     (if len = 0 then Some spans
      else if length spans \<ge> max_spans then None
      else Some (spans @ [\<lparr>sp_start = start, sp_len = len, sp_kind = kind\<rparr>]))"

definition in_word :: "char \<Rightarrow> bool" where
  "in_word c \<longleftrightarrow> \<not> isspace c \<and> c \<noteq> DQ \<and> c \<noteq> SQ \<and> \<not> word_break_here c"

definition quoted_len :: "string \<Rightarrow> nat" where
  "quoted_len s = (let body = takeWhile (\<lambda>x. x \<noteq> hd s) (tl s)
     in if 1 + length body < length s then 2 + length body else 1 + length body)"

definition quoted_kind :: "string \<Rightarrow> hl_kind" where
  "quoted_kind s = (if hd s \<in> set (tl s) then HL_Str else HL_Unclosed)"

text \<open>The piece at the start of a text that does not start with white space: its length, its
  kind, and whether a command is expected after it.\<close>

definition hl_piece :: "bool \<Rightarrow> string \<Rightarrow> nat \<times> hl_kind \<times> bool" where
  "hl_piece expect_cmd s =
     (if hd s = DQ \<or> hd s = SQ then (quoted_len s, quoted_kind s, False)
      else if match_op s > 0 then (match_op s, HL_Op, op_resets_cmd s (match_op s))
      else (length (takeWhile in_word s), if expect_cmd then HL_Cmd else HL_Plain, False))"

lemma match_op_break: "word_break_here c \<Longrightarrow> match_op (c # s) > 0"
  by (auto simp: match_op_def word_break_here_def)

lemma match_op_le: "match_op s \<le> length s"
  by (auto simp: match_op_def)

lemma piece_pos:
  assumes "s \<noteq> []" and "\<not> isspace (hd s)"
  shows "0 < fst (hl_piece e s)" "fst (hl_piece e s) \<le> length s"
proof -
  obtain c r where s: "s = c # r" using assms(1) by (cases s) auto
  have "length (takeWhile (\<lambda>x. x \<noteq> c) r) \<le> length r" by (rule length_takeWhile_le)
  then show "0 < fst (hl_piece e s)" "fst (hl_piece e s) \<le> length s"
    using assms(2) match_op_break [of c r] match_op_le [of s] length_takeWhile_le [of in_word r]
    by (auto simp: s hl_piece_def quoted_len_def Let_def in_word_def)
qed

lemma hd_dropWhile_space: "dropWhile isspace s \<noteq> [] \<Longrightarrow> \<not> isspace (hd (dropWhile isspace s))"
  by (rule hd_dropWhile)

function hl_scan_loop :: "nat \<Rightarrow> string \<Rightarrow> nat \<Rightarrow> bool \<Rightarrow> hl_span list \<Rightarrow> hl_span list" where
  "hl_scan_loop mx s i expect_cmd spans =
     (if s = [] then spans
      else let ws = length (takeWhile isspace s); s = dropWhile isspace s in
        case push_span mx i ws HL_Plain spans of
          None \<Rightarrow> spans
        | Some spans \<Rightarrow>
            if s = [] then spans
            else (case hl_piece expect_cmd s of (n, kind, next) \<Rightarrow>
              (case push_span mx (i + ws) n kind spans of
                 None \<Rightarrow> spans
               | Some spans \<Rightarrow> hl_scan_loop mx (drop n s) (i + ws + n) next spans)))"
  by pat_completeness auto
termination
proof (relation "measure (\<lambda>(mx, s, i, e, spans). length s)", simp)
  fix mx s i e spans ws t ps n r kind nxt qs
  assume "s \<noteq> []" "(t::string) = dropWhile isspace s" "t \<noteq> []" "(n, r) = hl_piece e t"
  then have "0 < n" "length t \<le> length s"
    using piece_pos(1) [of t e] hd_dropWhile_space [of s]
    by (auto simp: length_dropWhile_le prod_eq_iff)
  then show "((mx, drop n t, i + ws + n, nxt, qs), mx, s, i, e, spans) \<in>
      measure (\<lambda>(mx, s, i, e, spans). length s)"
    using \<open>t \<noteq> []\<close> by (cases t) auto
qed

declare hl_scan_loop.simps [simp del]

definition petrush_hl_scan :: "string \<Rightarrow> nat \<Rightarrow> hl_span list" where
  "petrush_hl_scan buf max_spans =
     (if max_spans \<le> 0 \<or> length buf = 0 then []
      else hl_scan_loop max_spans buf 0 True [])"

section \<open>The writer\<close>

abbreviation ESC :: char where "ESC \<equiv> CHR 0x1B"

definition kind_csi :: "hl_kind \<Rightarrow> string" where
  "kind_csi kind = (case kind of
       HL_Cmd \<Rightarrow> ESC # ''[1;32m''
     | HL_Str \<Rightarrow> ESC # ''[33m''
     | HL_Unclosed \<Rightarrow> ESC # ''[1;31m''
     | HL_Op \<Rightarrow> ESC # ''[34m''
     | HL_Plain \<Rightarrow> ESC # ''[0m'')"

type_synonym obuf = "nat \<times> string"

text \<open>Put a piece into the buffer, which grows to a multiple of what is needed.\<close>

definition put_piece :: "nat \<Rightarrow> hl_kind \<Rightarrow> string \<Rightarrow> obuf \<Rightarrow> obuf" where
  "put_piece grow kind piece b =
     (case b of (cap, o') \<Rightarrow>
        let csi = kind_csi kind; need = length o' + length csi + length piece + 1
        in (if need > cap then need * grow else cap, o' @ csi @ piece))"

primrec colorize_spans :: "string \<Rightarrow> hl_span list \<Rightarrow> nat \<Rightarrow> obuf \<Rightarrow> nat \<times> obuf" where
  "colorize_spans buf [] cursor b = (cursor, b)"
| "colorize_spans buf (sp # sps) cursor b =
     (let s = sp_start sp; sl = sp_len sp in
      if s > length buf then (cursor, b)
      else
        let sl = (if s + sl > length buf then length buf - s else sl);
            b = (if s > cursor then put_piece 2 HL_Plain (take (s - cursor) (drop cursor buf)) b else b);
            b = put_piece 2 (sp_kind sp) (take sl (drop s buf)) b
        in colorize_spans buf sps (s + sl) b)"

definition hl_buffer :: "string \<Rightarrow> obuf" where
  "hl_buffer buf =
     (let cap = length buf * 10 + 16; n = petrush_hl_scan buf hl_max_spans;
          cap = (if cap < 16 then 16 else cap)
      in case colorize_spans buf n 0 (cap, []) of (cursor, b) \<Rightarrow>
           if cursor < length buf then put_piece 1 HL_Plain (drop cursor buf) b else b)"

definition petrush_hl_colorize :: "string \<Rightarrow> string" where
  "petrush_hl_colorize buf = snd (hl_buffer buf)"

section \<open>The spans cut up the line\<close>

text \<open>Spans that follow each other from a position on.\<close>

fun tiles :: "nat \<Rightarrow> hl_span list \<Rightarrow> nat \<Rightarrow> bool" where
  "tiles i [] j \<longleftrightarrow> i = j"
| "tiles i (sp # sps) j \<longleftrightarrow> sp_start sp = i \<and> 0 < sp_len sp \<and> tiles (i + sp_len sp) sps j"

lemma tiles_append: "tiles i (xs @ ys) j \<longleftrightarrow> (\<exists>k. tiles i xs k \<and> tiles k ys j)"
  by (induction xs arbitrary: i) auto

lemma tiles_le: "tiles i xs j \<Longrightarrow> i \<le> j"
  by (induction xs arbitrary: i) force+

lemma push_tiles:
  "push_span mx j len kind spans = Some spans' \<Longrightarrow> tiles i spans j \<Longrightarrow> tiles i spans' (j + len)"
  by (auto simp: push_span_def tiles_append split: if_splits)

lemma push_length: "push_span mx j len kind spans = Some spans' \<Longrightarrow> length spans \<le> mx \<Longrightarrow> length spans' \<le> mx"
  by (auto simp: push_span_def split: if_splits)

lemma push_full: "push_span mx j len kind spans = None \<Longrightarrow> mx \<le> length spans"
  by (auto simp: push_span_def split: if_splits)

lemma space_split: "length (takeWhile isspace s) + length (dropWhile isspace s) = length s"
  by (metis length_append takeWhile_dropWhile_id)

lemma scan_loop_tiles:
  assumes "tiles 0 spans i" and "length spans \<le> mx"
  shows "\<exists>j \<le> i + length s. tiles 0 (hl_scan_loop mx s i e spans) j \<and>
    length (hl_scan_loop mx s i e spans) \<le> mx \<and>
    (j < i + length s \<longrightarrow> length (hl_scan_loop mx s i e spans) = mx)"
  using assms
proof (induction mx s i e spans rule: hl_scan_loop.induct)
  case (1 mx s i e spans)
  let ?ws = "length (takeWhile isspace s)" and ?t = "dropWhile isspace s"
  note len = space_split [of s]
  show ?case
  proof (cases "s = []")
    case True
    then show ?thesis using 1(2,3) by (auto simp: hl_scan_loop.simps)
  next
    case False
    show ?thesis
    proof (cases "push_span mx i ?ws HL_Plain spans")
      case None
      then show ?thesis using 1(2,3) False push_full [OF None]
        by (auto simp: hl_scan_loop.simps [of _ s] intro!: exI [of _ i])
    next
      case (Some ps)
      note ps = push_tiles [OF Some 1(2)] push_length [OF Some 1(3)]
      obtain n kind nxt where p: "hl_piece e ?t = (n, kind, nxt)" by (metis surj_pair)
      show ?thesis
      proof (cases "?t = []")
        case True
        then have "?ws = length s" using len by (metis add_0_right list.size(3))
        then show ?thesis using False Some ps True
          by (intro exI [of _ "i + length s"]) (simp add: hl_scan_loop.simps [of _ s])
      next
        case t: False
        then have n: "0 < n" "n \<le> length ?t"
          using piece_pos [of ?t e] hd_dropWhile_space [of s] p by auto
        show ?thesis
        proof (cases "push_span mx (i + ?ws) n kind ps")
          case None
          then have "hl_scan_loop mx s i e spans = ps"
            using False Some t p by (simp add: hl_scan_loop.simps [of _ s] Let_def)
          moreover have "length ps = mx" using push_full [OF None] ps(2) by simp
          ultimately show ?thesis using ps len by (intro exI [of _ "i + ?ws"]) simp
        next
          case q: (Some qs)
          note qs = push_tiles [OF q ps(1)] push_length [OF q ps(2)]
          have "hl_scan_loop mx s i e spans = hl_scan_loop mx (drop n ?t) (i + ?ws + n) nxt qs"
            using False Some t p q by (auto simp: hl_scan_loop.simps [of _ s] Let_def)
          moreover have "i + ?ws + n + length (drop n ?t) = i + length s" using n len by simp
          ultimately show ?thesis
            using 1(1) [OF False refl refl Some t p [symmetric] refl q qs] by (simp only:)
        qed
      qed
    qed
  qed
qed

lemma scan_tiles:
  "\<exists>j \<le> length buf. tiles 0 (petrush_hl_scan buf mx) j \<and> length (petrush_hl_scan buf mx) \<le> mx \<and>
     (j < length buf \<longrightarrow> length (petrush_hl_scan buf mx) = mx)"
  using scan_loop_tiles [of "[]" 0 mx buf True] by (auto simp: petrush_hl_scan_def)

section \<open>The coloured text\<close>

lemma kind_csi_length: "length (kind_csi k) \<le> 7"
  by (cases k) (simp_all add: kind_csi_def)

abbreviation coloured :: "(hl_kind \<times> string) list \<Rightarrow> string" where
  "coloured ps \<equiv> concat (map (\<lambda>(k, p). kind_csi k @ p) ps)"

definition span_piece :: "string \<Rightarrow> hl_span \<Rightarrow> hl_kind \<times> string" where
  "span_piece buf sp = (sp_kind sp, take (sp_len sp) (drop (sp_start sp) buf))"

lemma put_fits:
  "piece \<noteq> [] \<Longrightarrow> length o' + 8 * length piece + 1 \<le> cap \<Longrightarrow>
     put_piece grow k piece (cap, o') = (cap, o' @ kind_csi k @ piece)"
  using kind_csi_length [of k] by (cases piece) (simp_all add: put_piece_def Let_def)

lemma colorize_tiles:
  assumes "tiles i sps j" and "j \<le> length buf" and "length o' + 8 * (j - i) + 1 \<le> cap"
  shows "colorize_spans buf sps i (cap, o') = (j, cap, o' @ coloured (map (span_piece buf) sps))"
  using assms
proof (induction sps arbitrary: i o')
  case Nil
  then show ?case by simp
next
  case (Cons sp sps)
  let ?p = "take (sp_len sp) (drop i buf)"
  have sp: "sp_start sp = i" "0 < sp_len sp" and rest: "tiles (i + sp_len sp) sps j"
    using Cons.prems(1) by auto
  have le: "i + sp_len sp \<le> j" by (rule tiles_le [OF rest])
  then have p: "length ?p = sp_len sp" using Cons.prems(2) by simp
  then have "put_piece 2 (sp_kind sp) ?p (cap, o') = (cap, o' @ kind_csi (sp_kind sp) @ ?p)"
    using sp(2) le Cons.prems(3) by (intro put_fits) auto
  moreover have "length (o' @ kind_csi (sp_kind sp) @ ?p) + 8 * (j - (i + sp_len sp)) + 1 \<le> cap"
    using Cons.prems(3) le p sp(2) kind_csi_length [of "sp_kind sp"] by simp
  ultimately show ?case
    using Cons.IH [OF rest Cons.prems(2)] le Cons.prems(2) sp by (simp add: Let_def span_piece_def)
qed

lemma pieces_text:
  "tiles i sps j \<Longrightarrow> j \<le> length buf \<Longrightarrow>
     concat (map (snd \<circ> span_piece buf) sps) = take (j - i) (drop i buf)"
proof (induction sps arbitrary: i)
  case Nil
  then show ?case by simp
next
  case (Cons sp sps)
  then have "tiles (i + sp_len sp) sps j" "sp_start sp = i" by auto
  moreover from tiles_le [OF this(1)] have "j - i = sp_len sp + (j - (i + sp_len sp))" by simp
  ultimately show ?case
    using Cons.IH [of "i + sp_len sp"] Cons.prems(2)
    by (simp add: span_piece_def take_add add.commute)
qed

text \<open>The line as it is written: the pieces of the spans, and the rest as a plain piece.\<close>

definition line_pieces :: "string \<Rightarrow> (hl_kind \<times> string) list" where
  "line_pieces buf =
     (let sps = petrush_hl_scan buf hl_max_spans; ps = map (span_piece buf) sps;
          j = length (concat (map snd ps))
      in if j < length buf then ps @ [(HL_Plain, drop j buf)] else ps)"

lemma pieces_nonempty:
  "tiles i sps j \<Longrightarrow> j \<le> length buf \<Longrightarrow> list_all (\<lambda>(k, p). p \<noteq> []) (map (span_piece buf) sps)"
proof (induction sps arbitrary: i)
  case (Cons sp sps)
  then have "i + sp_len sp \<le> j" using tiles_le by auto
  then show ?case using Cons by (auto simp: span_piece_def)
qed simp

lemma coloured_length:
  "list_all (\<lambda>(k, p). p \<noteq> []) ps \<Longrightarrow> length (coloured ps) \<le> 8 * length (concat (map snd ps))"
proof (induction ps)
  case (Cons kp ps)
  obtain k p where "kp = (k, p)" by fastforce
  then show ?case using Cons kind_csi_length [of k] by (cases p) auto
qed simp

lemma line_pieces_facts:
  "hl_buffer buf = (length buf * 10 + 16, coloured (line_pieces buf))"
  "concat (map snd (line_pieces buf)) = buf"
  "length (line_pieces buf) \<le> hl_max_spans + 1"
  "list_all (\<lambda>(k, p). p \<noteq> []) (line_pieces buf)"
proof -
  let ?sps = "petrush_hl_scan buf hl_max_spans"
  obtain j where j: "j \<le> length buf" "tiles 0 ?sps j" "length ?sps \<le> hl_max_spans"
    using scan_tiles by blast
  let ?ps = "map (span_piece buf) ?sps"
  note full = pieces_nonempty [OF j(2,1)]
  have joined: "concat (map snd ?ps) = take j buf" using pieces_text [OF j(2,1)] by simp
  have run: "colorize_spans buf ?sps 0 (length buf * 10 + 16, []) = (j, length buf * 10 + 16, coloured ?ps)"
    using colorize_tiles [OF j(2,1), of "[]" "length buf * 10 + 16"] j(1) by simp
  have "length (coloured ?ps) \<le> 8 * j" using coloured_length [OF full] j(1) joined by simp
  then have "j < length buf \<Longrightarrow> put_piece 1 HL_Plain (drop j buf) (length buf * 10 + 16, coloured ?ps) =
      (length buf * 10 + 16, coloured ?ps @ kind_csi HL_Plain @ drop j buf)"
    by (intro put_fits) auto
  then show "hl_buffer buf = (length buf * 10 + 16, coloured (line_pieces buf))"
    using joined j(1) by (simp add: hl_buffer_def line_pieces_def Let_def run)
  show "concat (map snd (line_pieces buf)) = buf" "length (line_pieces buf) \<le> hl_max_spans + 1"
    "list_all (\<lambda>(k, p). p \<noteq> []) (line_pieces buf)"
    using joined j(1,3) full by (auto simp: line_pieces_def Let_def)
qed

text \<open>The first estimate of the size is enough: the writer never asks for more memory.\<close>

theorem hl_buffer_suffices:
  "fst (hl_buffer buf) = length buf * 10 + 16 \<and> length (petrush_hl_colorize buf) < length buf * 10 + 16"
  using coloured_length [OF line_pieces_facts(4), of buf]
  by (simp add: petrush_hl_colorize_def line_pieces_facts)

text \<open>What a terminal shows: it swallows the bytes from the escape to the letter m.\<close>

fun shown :: "bool \<Rightarrow> string \<Rightarrow> string" where
  "shown swallow [] = []"
| "shown swallow (c # s) =
     (if swallow then shown (c \<noteq> CHR ''m'') s
      else if c = ESC then shown True s else c # shown False s)"

abbreviation uncolour :: "string \<Rightarrow> string" where
  "uncolour \<equiv> shown False"

lemma uncolour_plain: "ESC \<notin> set p \<Longrightarrow> uncolour (p @ s) = p @ uncolour s"
  by (induction p) auto

lemma uncolour_csi: "uncolour (kind_csi k @ s) = uncolour s"
  by (cases k) (simp_all add: kind_csi_def)

lemma uncolour_coloured:
  "ESC \<notin> set (concat (map snd ps)) \<Longrightarrow> uncolour (coloured ps) = concat (map snd ps)"
  by (induction ps) (auto simp: uncolour_plain uncolour_csi)

text \<open>
  C40. What the prompt shows is what was typed: the coloured text is the line with
  control sequences put in, at most 65 of them, and without them it is the line again, whatever
  quotes are open and however many words the line has.
\<close>

theorem colours_keep_line:
  assumes "ESC \<notin> set buf"
  shows "uncolour (petrush_hl_colorize buf) = buf \<and>
    (\<exists>ps. petrush_hl_colorize buf = coloured ps \<and> length ps \<le> 65)"
  using uncolour_coloured [of "line_pieces buf"] assms line_pieces_facts(3) [of buf]
  by (auto simp: petrush_hl_colorize_def line_pieces_facts hl_max_spans_def intro!: exI [of _ "line_pieces buf"])

theorem colours_keep_line_witness:
  "uncolour (petrush_hl_colorize ''echo \"a b|c 2>&1'') = ''echo \"a b|c 2>&1'' \<and>
    petrush_hl_colorize ''ls|wc'' = ESC # ''[1;32mls'' @ ESC # ''[34m|'' @ ESC # ''[1;32mwc''"
proof
  show "uncolour (petrush_hl_colorize ''echo \"a b|c 2>&1'') = ''echo \"a b|c 2>&1''"
    using colours_keep_line [of "''echo \"a b|c 2>&1''"] by simp
  show "petrush_hl_colorize ''ls|wc'' = ESC # ''[1;32mls'' @ ESC # ''[34m|'' @ ESC # ''[1;32mwc''"
    by code_simp
qed

end
