(* ===== verification/Complete.thy ===== *)
theory Complete
  imports Dispatch History Files
begin

text \<open>
  The suggestions of the line editor (\<open>src/front/complete.c\<close>): the candidates of the Tab key
  and the rest of a line of the history that is shown behind the cursor.  The list of the editor
  is the list of the strings added to it.  Directories and the test for executables are
  parameters.  The callbacks are bound once, in \<open>petrush_setup_linenoise_ux\<close>.

  Candidates are shown to continue the line, but for a first component at the root, where the
  code doubles the slash; the hint is the rest of the newest line that continues the input.
\<close>

section \<open>Candidates\<close>

record comp_sys =
  cs_readdir :: "string \<Rightarrow> string list option"
  cs_executable :: "string \<Rightarrow> bool"

definition comp_path_max :: nat where "comp_path_max = 4096"

text \<open>\<open>strncmp(s, w, strlen(w)) == 0\<close>.\<close>

definition begins :: "string \<Rightarrow> string \<Rightarrow> bool" where
  "begins w s \<longleftrightarrow> take (length w) s = w"

definition petrush_builtin_count :: int where
  "petrush_builtin_count = int (length builtin_names)"

definition petrush_builtin_name :: "int \<Rightarrow> string option" where
  "petrush_builtin_name index =
     (if index < 0 \<or> index \<ge> petrush_builtin_count then None else Some (builtin_names ! nat index))"

definition builtin_candidates :: "string \<Rightarrow> string list" where
  "builtin_candidates word =
     concat (List.map (\<lambda>i. case petrush_builtin_name i of
         None \<Rightarrow> []
       | Some name \<Rightarrow> if begins word name then [name] else []) [0..petrush_builtin_count - 1])"

definition path_candidates :: "comp_sys \<Rightarrow> env \<Rightarrow> string \<Rightarrow> string list" where
  "path_candidates sys e word =
     concat (List.map (\<lambda>dir. case cs_readdir sys dir of
         None \<Rightarrow> []
       | Some ents \<Rightarrow> filter (\<lambda>ent. begins word ent \<and> length (dir @ SLASH # ent) < comp_path_max \<and>
             cs_executable sys (dir @ SLASH # ent)) ents) (search_path e))"

definition candidate_for :: "string option \<Rightarrow> string \<Rightarrow> string" where
  "candidate_for slash ent = (case slash of None \<Rightarrow> ent | Some dirpath \<Rightarrow> dirpath @ SLASH # ent)"

definition file_candidates :: "comp_sys \<Rightarrow> string \<Rightarrow> string \<Rightarrow> string list" where
  "file_candidates sys before word =
     (let slash = SLASH \<in> set word;
          base = (if slash then base_name word else word);
          dlen = length word - length base - 1;
          dirpath = (if slash then if dlen = 0 then ''/'' else take dlen word else ''.'')
      in if slash \<and> dlen \<ge> comp_path_max then []
         else case cs_readdir sys dirpath of
           None \<Rightarrow> []
         | Some ents \<Rightarrow> concat (List.map (\<lambda>ent.
             let candidate = candidate_for (if slash then Some dirpath else None) ent in
             if ent = ''.'' \<or> ent = ''..'' then []
             else if \<not> begins base ent then []
             else if length candidate \<ge> comp_path_max then []
             else if length before \<ge> comp_path_max then []
             else if length before + length candidate + 1 > comp_path_max then []
             else [before @ candidate]) ents))"

definition completion_cb :: "comp_sys \<Rightarrow> env \<Rightarrow> string \<Rightarrow> string list" where
  "completion_cb sys e buf =
     (let word = rev (takeWhile (\<lambda>c. c \<noteq> CHR '' '') (rev buf));
          before = take (length buf - length word) buf;
          first = (word = buf)
      in (if first then builtin_candidates word @ path_candidates sys e word else []) @
         file_candidates sys before word)"

definition petrush_complete_count :: "comp_sys \<Rightarrow> env \<Rightarrow> string option \<Rightarrow> int" where
  "petrush_complete_count sys e buf =
     int (length (completion_cb sys e (case buf of None \<Rightarrow> [] | Some b \<Rightarrow> b)))"

section \<open>Hints\<close>

fun hint_from :: "(int \<Rightarrow> string option) \<Rightarrow> string \<Rightarrow> nat \<Rightarrow> string option" where
  "hint_from get buf 0 = None"
| "hint_from get buf (Suc i) =
     (case get (int i) of
        None \<Rightarrow> hint_from get buf i
      | Some h \<Rightarrow>
          if h = [] then hint_from get buf i
          else if length h \<le> length buf then hint_from get buf i
          else if begins buf h then Some (drop (length buf) h)
          else hint_from get buf i)"

definition petrush_history_hint :: "ui_port \<Rightarrow> string option \<Rightarrow> string option" where
  "petrush_history_hint port buf =
     (case buf of
        None \<Rightarrow> None
      | Some b \<Rightarrow> if b = [] then None
                  else hint_from (port_history_get port) b (nat (port_history_len port)))"

text \<open>The hint with its colour and weight.\<close>

definition hints_cb :: "ui_port \<Rightarrow> string option \<Rightarrow> (string \<times> int \<times> int) option" where
  "hints_cb port buf = map_option (\<lambda>h. (h, 35, 0)) (petrush_history_hint port buf)"

section \<open>Candidates continue the line\<close>

lemma begins_append [simp]: "begins w (w @ s)"
  by (simp add: begins_def)

lemma begins_iff: "begins w s \<longleftrightarrow> (\<exists>t. s = w @ t)"
  unfolding begins_def by (metis append_eq_conv_conj append_take_drop_id)

lemma word_split:
  defines "word \<equiv> \<lambda>b. rev (takeWhile (\<lambda>c. c \<noteq> CHR '' '') (rev b))"
  shows "take (length buf - length (word buf)) buf @ word buf = buf"
proof -
  have "rev buf = takeWhile (\<lambda>c. c \<noteq> CHR '' '') (rev buf) @ dropWhile (\<lambda>c. c \<noteq> CHR '' '') (rev buf)"
    by simp
  then have "buf = rev (dropWhile (\<lambda>c. c \<noteq> CHR '' '') (rev buf)) @ word buf"
    unfolding word_def by (metis rev_append rev_rev_ident)
  then show ?thesis by (metis append_eq_conv_conj diff_add_inverse2 length_append)
qed

definition root_word :: "string \<Rightarrow> bool" where
  "root_word w \<longleftrightarrow> peek w = SLASH \<and> SLASH \<notin> set (tl w)"

lemma slash_word:
  assumes "SLASH \<in> set word" and "begins (base_name word) ent" and "\<not> root_word word"
  shows "begins word (take (length word - length (base_name word) - 1) word @ SLASH # ent)"
    and "length word - length (base_name word) - 1 \<noteq> 0"
proof -
  have w: "word = dir_part word @ SLASH # base_name word"
    using path_parts [of word] assms(1) by (simp add: has_slash_def)
  obtain t where "ent = base_name word @ t" using assms(2) by (auto simp: begins_iff)
  moreover have "word @ t = dir_part word @ SLASH # base_name word @ t"
    by (metis w append.assoc append_Cons)
  ultimately have "dir_part word @ SLASH # ent = word @ t" by simp
  then show "begins word (take (length word - length (base_name word) - 1) word @ SLASH # ent)"
    by (simp add: dir_part_def)
  have "SLASH \<notin> set (base_name word)" by (auto simp: base_name_def dest: set_takeWhileD)
  then have "dir_part word \<noteq> []" using assms(3) w by (metis append_Nil list.sel(3) peek.simps(2) root_word_def)
  then show "length word - length (base_name word) - 1 \<noteq> 0" by (auto simp: dir_part_def)
qed

lemma file_candidates_extend:
  assumes "c \<in> set (file_candidates sys before word)" and "\<not> root_word word"
  shows "begins (before @ word) c"
proof (cases "SLASH \<in> set word")
  case True
  then show ?thesis
    using assms slash_word [OF True _ assms(2)]
    by (auto simp: file_candidates_def candidate_for_def Let_def begins_iff split: option.splits if_splits)
next
  case False
  then show ?thesis
    using assms by (auto simp: file_candidates_def candidate_for_def Let_def begins_iff split: option.splits if_splits)
qed

theorem completions_extend:
  assumes "c \<in> set (completion_cb sys e buf)"
    and "\<not> root_word (rev (takeWhile (\<lambda>c. c \<noteq> CHR '' '') (rev buf)))"
  shows "begins buf c"
proof -
  let ?word = "rev (takeWhile (\<lambda>c. c \<noteq> CHR '' '') (rev buf))"
  consider (name) "?word = buf" "c \<in> set (builtin_candidates ?word @ path_candidates sys e ?word)"
    | (listed) "c \<in> set (file_candidates sys (take (length buf - length ?word) buf) ?word)"
    using assms(1) by (auto simp: completion_cb_def Let_def split: if_splits)
  then show ?thesis
  proof cases
    case name
    have "begins ?word c"
      using name(2) by (auto simp: builtin_candidates_def path_candidates_def split: option.splits if_splits)
    then show ?thesis using name(1) by simp
  next
    case listed
    then show ?thesis using file_candidates_extend [OF listed assms(2)] word_split [of buf] by simp
  qed
qed

text \<open>At the root the directory is already a slash and another one is added.\<close>

definition root_dir :: comp_sys where
  "root_dir = \<lparr>cs_readdir = (\<lambda>d. if d = ''/'' then Some [''.'', ''usr'', ''etc''] else None),
     cs_executable = (\<lambda>p. False)\<rparr>"

theorem root_slash_doubled:
  "completion_cb root_dir [] ''cd /us'' = [''cd //usr''] \<and> \<not> begins ''cd /us'' ''cd //usr''"
  by code_simp

section \<open>The hint is from the newest line\<close>

theorem history_hint_newest:
  "hint_from get buf n = Some h \<longleftrightarrow>
     (\<exists>i<n. get (int i) = Some (buf @ h) \<and> h \<noteq> [] \<and>
        (\<forall>j. i < j \<and> j < n \<longrightarrow> (\<nexists>t. t \<noteq> [] \<and> get (int j) = Some (buf @ t))))"
proof (induction n)
  case 0
  then show ?case by simp
next
  case (Suc n)
  show ?case
  proof (cases "\<exists>t. t \<noteq> [] \<and> get (int n) = Some (buf @ t)")
    case True
    then obtain t where t: "t \<noteq> []" "get (int n) = Some (buf @ t)" by auto
    then have hint: "hint_from get buf (Suc n) = Some t" by simp
    show ?thesis
    proof
      assume "hint_from get buf (Suc n) = Some h"
      then show "\<exists>i<Suc n. get (int i) = Some (buf @ h) \<and> h \<noteq> [] \<and>
          (\<forall>j. i < j \<and> j < Suc n \<longrightarrow> (\<nexists>t. t \<noteq> [] \<and> get (int j) = Some (buf @ t)))"
        using hint t by auto
    next
      assume "\<exists>i<Suc n. get (int i) = Some (buf @ h) \<and> h \<noteq> [] \<and>
          (\<forall>j. i < j \<and> j < Suc n \<longrightarrow> (\<nexists>t. t \<noteq> [] \<and> get (int j) = Some (buf @ t)))"
      then have "get (int n) = Some (buf @ h)" using t by (metis lessI less_antisym)
      then show "hint_from get buf (Suc n) = Some h" using hint t by simp
    qed
  next
    case False
    then have "hint_from get buf (Suc n) = hint_from get buf n"
      by (auto simp: begins_iff split: option.splits)
    then show ?thesis using Suc False by (metis less_Suc_eq)
  qed
qed

end
