(* ===== verification/Config.thy ===== *)
theory Config
  imports Files Arith
begin

text \<open>
  The configuration of the helper program (\<open>src/cxx/config.cpp\<close>, \<open>src/cxx/config.hpp\<close>): an
  INI file of a few known sections.  The arrays of the C++ structs with their counters are
  lists, a returned pointer to a section is its index or the changed section, and a failure is
  \<open>None\<close>.  The file is its content, or \<open>None\<close> when it cannot be opened.

  Loading is shown to give a well-formed configuration only, and printing one and loading the
  text to give it back.
\<close>

section \<open>The data\<close>

definition k_max_path :: nat where "k_max_path = 512"
definition k_max_section_name :: nat where "k_max_section_name = 32"
definition k_max_key :: nat where "k_max_key = 64"
definition k_max_val :: nat where "k_max_val = 256"
definition k_max_entries :: nat where "k_max_entries = 64"
definition k_max_sections :: nat where "k_max_sections = 8"
definition k_max_line :: nat where "k_max_line = 512"

lemmas k_max_defs = k_max_path_def k_max_section_name_def k_max_key_def k_max_val_def
  k_max_entries_def k_max_sections_def k_max_line_def

record csection =
  sec_name :: string
  sec_entries :: "(string \<times> string) list"

record config =
  cfg_sections :: "csection list"
  cfg_path :: string
  loaded_from_disk :: bool

definition empty_config :: config where
  "empty_config = \<lparr>cfg_sections = [], cfg_path = [], loaded_from_disk = False\<rparr>"

section \<open>Helpers\<close>

definition cfg_space :: "char \<Rightarrow> bool" where
  "cfg_space c \<longleftrightarrow> c = CHR '' '' \<or> c = TAB \<or> c = CHR 0x0D \<or> c = NL"

definition trim_inplace :: "string \<Rightarrow> string" where
  "trim_inplace s = rev (dropWhile cfg_space (rev (dropWhile cfg_space s)))"

definition copy_str :: "nat \<Rightarrow> string \<Rightarrow> string option" where
  "copy_str cap src = (if cap = 0 then None else if length src + 1 > cap then None else Some src)"

definition add_section :: "config \<Rightarrow> string \<Rightarrow> (config \<times> nat) option" where
  "add_section cfg name =
     (if name = [] then None
      else if length (cfg_sections cfg) \<ge> k_max_sections then None
      else case copy_str k_max_section_name name of
        None \<Rightarrow> None
      | Some n \<Rightarrow> Some (cfg\<lparr>cfg_sections := cfg_sections cfg @ [\<lparr>sec_name = n, sec_entries = []\<rparr>]\<rparr>,
            length (cfg_sections cfg)))"

definition add_entry :: "csection \<Rightarrow> string \<Rightarrow> string \<Rightarrow> csection option" where
  "add_entry sec key val =
     (if key = [] then None
      else if list_ex (\<lambda>e. fst e = key) (sec_entries sec) then None
      else if length (sec_entries sec) \<ge> k_max_entries then None
      else case copy_str k_max_key key of
        None \<Rightarrow> None
      | Some k \<Rightarrow> (case copy_str k_max_val val of
          None \<Rightarrow> None
        | Some v \<Rightarrow> Some (sec\<lparr>sec_entries := sec_entries sec @ [(k, v)]\<rparr>)))"

text \<open>\<open>strtoull\<close> in base 10: the value, whether it was out of range, and the text after it. A
  number with a minus sign is the negation modulo \<open>2 ^ 64\<close>.\<close>

definition strtoull10 :: "string \<Rightarrow> nat \<times> bool \<times> string" where
  "strtoull10 s =
     (let t = skip_space s;
          u = (if peek t = CHR ''+'' \<or> peek t = CHR ''-'' then tl t else t);
          ds = takeWhile isdigit u; v = decimal ds
      in if ds = [] then (0, False, s)
         else if v \<ge> 2 ^ 64 then (2 ^ 64 - 1, True, dropWhile isdigit u)
         else (if peek t = CHR ''-'' then (2 ^ 64 - v) mod 2 ^ 64 else v, False, dropWhile isdigit u))"

definition parse_u64 :: "string \<Rightarrow> nat option" where
  "parse_u64 s =
     (if s = [] then None
      else case strtoull10 s of (v, erange, rest) \<Rightarrow>
        if erange \<or> rest = s \<or> rest \<noteq> [] then None else Some v)"

definition known_sections :: "string list" where
  "known_sections = [''prompt'', ''aliases'', ''env'', ''history'', ''general'']"

definition is_known_section :: "string \<Rightarrow> bool" where
  "is_known_section name \<longleftrightarrow> name \<in> set known_sections"

definition find_section :: "config \<Rightarrow> string \<Rightarrow> csection option" where
  "find_section cfg name = List.find (\<lambda>s. sec_name s = name) (cfg_sections cfg)"

section \<open>Where the file is\<close>

definition resolve_config_path :: "(string \<Rightarrow> string option) \<Rightarrow> nat \<Rightarrow> string option" where
  "resolve_config_path getenv out_cap =
     (let there = (\<lambda>n. case getenv n of None \<Rightarrow> None | Some v \<Rightarrow> if v = [] then None else Some v);
          fit = (\<lambda>p. if length p < out_cap then Some p else None)
      in if out_cap < 16 then None
         else case there ''PETRUSH_CONFIG'' of
           Some forced \<Rightarrow> copy_str out_cap forced
         | None \<Rightarrow> (case there ''XDG_CONFIG_HOME'' of
             Some xdg \<Rightarrow> fit (xdg @ ''/petrush/config.ini'')
           | None \<Rightarrow> (case there ''HOME'' of
               Some home \<Rightarrow> fit (home @ ''/.config/petrush/config.ini'')
             | None \<Rightarrow> copy_str out_cap ''./.config/petrush/config.ini'')))"

section \<open>Loading\<close>

text \<open>A section that could not be added, or an entry, is left out.\<close>

definition with_section :: "string \<Rightarrow> string \<Rightarrow> string \<Rightarrow> config \<Rightarrow> config" where
  "with_section name key val cfg =
     (case add_section cfg name of
        None \<Rightarrow> cfg
      | Some (cfg, i) \<Rightarrow> (case add_entry (cfg_sections cfg ! i) key val of
          None \<Rightarrow> cfg
        | Some sec \<Rightarrow> cfg\<lparr>cfg_sections := (cfg_sections cfg)[i := sec]\<rparr>))"

definition load_defaults :: config where
  "load_defaults = with_section ''history'' ''max'' ''1000''
     (with_section ''prompt'' ''ps1'' ''petrush> '' empty_config)"

text \<open>One line, with the section that entries go to.\<close>

definition load_header :: "config \<Rightarrow> string \<Rightarrow> (config \<times> nat option) option" where
  "load_header cfg line =
     (case split_at (CHR '']'') line of
        None \<Rightarrow> None
      | Some (before, _) \<Rightarrow>
          if length before = 1 then None
          else let name = tl before in
            if \<not> is_known_section name then None
            else if find_section cfg name \<noteq> None then None
            else map_option (\<lambda>(cfg, i). (cfg, Some i)) (add_section cfg name))"

definition load_entry :: "config \<Rightarrow> nat option \<Rightarrow> string \<Rightarrow> (config \<times> nat option) option" where
  "load_entry cfg cur line =
     (case cur of
        None \<Rightarrow> None
      | Some i \<Rightarrow> (case split_at (CHR ''='') line of
          None \<Rightarrow> None
        | Some (k, v) \<Rightarrow>
            let key = trim_inplace k; val = trim_inplace v in
            if key = [] then None
            else case add_entry (cfg_sections cfg ! i) key val of
              None \<Rightarrow> None
            | Some sec \<Rightarrow> Some (cfg\<lparr>cfg_sections := (cfg_sections cfg)[i := sec]\<rparr>, cur)))"

definition load_line :: "config \<Rightarrow> nat option \<Rightarrow> string \<Rightarrow> (config \<times> nat option) option" where
  "load_line cfg cur raw =
     (if length raw + 1 = k_max_line \<and> at raw (length raw - 1) \<noteq> NL then None
      else let line = trim_inplace raw in
        if line = [] \<or> peek line = CHR ''#'' \<or> peek line = CHR '';'' then Some (cfg, cur)
        else if peek line = CHR ''['' then load_header cfg line
        else load_entry cfg cur line)"

fun load_lines :: "config \<Rightarrow> nat option \<Rightarrow> string list \<Rightarrow> config option" where
  "load_lines cfg cur [] = Some cfg"
| "load_lines cfg cur (l # ls) =
     (case load_line cfg cur l of None \<Rightarrow> None | Some (cfg, cur) \<Rightarrow> load_lines cfg cur ls)"

definition load_config :: "string \<Rightarrow> string option \<Rightarrow> config option" where
  "load_config path content =
     (case copy_str k_max_path path of
        None \<Rightarrow> None
      | Some p \<Rightarrow> (case content of
          None \<Rightarrow> Some (load_defaults\<lparr>cfg_path := p, loaded_from_disk := False\<rparr>)
        | Some t \<Rightarrow> map_option (\<lambda>cfg. cfg\<lparr>loaded_from_disk := True\<rparr>)
            (load_lines (empty_config\<lparr>cfg_path := p\<rparr>) None (file_lines k_max_line t))))"

section \<open>Printing and checking\<close>

definition dump_section :: "csection \<Rightarrow> string" where
  "dump_section sec = CHR ''['' # sec_name sec @ '']'' @ [NL] @
     concat (map (\<lambda>(k, v). k @ CHR ''='' # v @ [NL]) (sec_entries sec))"

fun dump_sections :: "csection list \<Rightarrow> string" where
  "dump_sections [] = []"
| "dump_sections [s] = dump_section s"
| "dump_sections (s # ss) = dump_section s @ NL # dump_sections ss"

text \<open>The status and the text.\<close>

definition dump_config :: "config \<Rightarrow> string option \<Rightarrow> int \<times> string" where
  "dump_config cfg section_name =
     (case section_name of
        Some (c # n) \<Rightarrow> (case find_section cfg (c # n) of
            None \<Rightarrow> (1, [])
          | Some sec \<Rightarrow> (0, dump_section sec))
      | _ \<Rightarrow> (0, dump_sections (cfg_sections cfg)))"

definition entry_checks :: "string \<Rightarrow> string \<times> string \<Rightarrow> bool" where
  "entry_checks name e \<longleftrightarrow>
     (if fst e = [] then False
      else if name = ''history'' \<and> fst e = ''max'' \<and> parse_u64 (snd e) = None then False
      else if name = ''prompt'' \<and> fst e = ''ps1'' \<and> length (snd e) > 200 then False
      else True)"

definition section_checks :: "csection \<Rightarrow> bool" where
  "section_checks sec \<longleftrightarrow> is_known_section (sec_name sec) \<and>
     list_all (entry_checks (sec_name sec)) (sec_entries sec)"

definition check_config :: "config \<Rightarrow> string option \<Rightarrow> int" where
  "check_config cfg section_name =
     (case section_name of
        Some (c # n) \<Rightarrow>
          if \<not> is_known_section (c # n) then 1
          else if find_section cfg (c # n) = None \<and> loaded_from_disk cfg then 1
          else if list_all (\<lambda>s. sec_name s = c # n \<longrightarrow> section_checks s) (cfg_sections cfg) then 0 else 1
      | _ \<Rightarrow> if list_all section_checks (cfg_sections cfg) then 0 else 1)"

section \<open>Lines and trimming\<close>

lemma file_lines_line:
  "l \<in> set (file_lines buf t) \<Longrightarrow> NUL \<notin> set l \<and> NL \<notin> set (butlast l)"
proof (induction buf t rule: file_lines.induct)
  case (1 buf t)
  show ?case
  proof (cases "fgets buf t")
    case None
    then show ?thesis using 1(2) by (simp add: file_lines.simps)
  next
    case (Some lr)
    obtain x rest where x: "lr = (x, rest)" by fastforce
    consider "l = x" | "l \<in> set (file_lines buf rest)"
      using 1(2) Some x by (auto simp: file_lines.simps [of buf t])
    then show ?thesis
    proof cases
      case 1
      let ?n = "fgets_len buf t" and ?k = "length (takeWhile (\<lambda>c. c \<noteq> NL) t)"
      have l: "l = takeWhile (\<lambda>c. c \<noteq> NUL) (take ?n t)"
        using Some x 1 by (auto simp: fgets_def split: if_splits)
      have "?n \<le> Suc ?k" by (auto simp: fgets_len_def Let_def)
      have "butlast l ! i \<noteq> NL" if "i < length (butlast l)" for i
      proof -
        have "length l \<le> length (take ?n t)" unfolding l by (rule length_takeWhile_le)
        then have i: "i < length l" "i < ?k" "i < ?n" using that \<open>?n \<le> Suc ?k\<close> by auto
        then have "butlast l ! i = t ! i"
          using that i(1,3) unfolding l by (simp add: nth_butlast takeWhile_nth)
        moreover have "takeWhile (\<lambda>c. c \<noteq> NL) t ! i \<in> set (takeWhile (\<lambda>c. c \<noteq> NL) t)" using i(2) by (rule nth_mem)
        then have "t ! i \<noteq> NL" using i(2) by (auto simp: takeWhile_nth dest: set_takeWhileD)
        ultimately show ?thesis by simp
      qed
      then have "NL \<notin> set (butlast l)" by (metis in_set_conv_nth)
      moreover have "NUL \<notin> set l" unfolding l by (auto dest: set_takeWhileD)
      ultimately show ?thesis by simp
    next
      case 2
      then show ?thesis by (rule "1.IH" [OF Some x [symmetric]])
    qed
  qed
qed

lemma file_lines_step:
  assumes "NL \<notin> set l" and "NUL \<notin> set l" and "length l + 2 \<le> buf"
  shows "file_lines buf (l @ NL # rest) = (l @ [NL]) # file_lines buf rest"
proof -
  have "takeWhile (\<lambda>c. c \<noteq> NL) (l @ NL # rest) = l" using assms(1) by (subst takeWhile_append2) auto
  then have n: "fgets_len buf (l @ NL # rest) = length l + 1"
    using assms(3) by (simp add: fgets_len_def)
  have "takeWhile (\<lambda>c. c \<noteq> NUL) (l @ [NL]) = l @ [NL]" using assms(2) by (subst takeWhile_append2) auto
  then have "fgets buf (l @ NL # rest) = Some (l @ [NL], rest)"
    using assms(3) by (simp add: fgets_def n)
  then show ?thesis by (simp add: file_lines.simps)
qed

lemma trim_ends:
  "trim_inplace s = [] \<or> \<not> cfg_space (hd (trim_inplace s)) \<and> \<not> cfg_space (last (trim_inplace s))"
proof -
  let ?d = "dropWhile cfg_space s"
  let ?e = "dropWhile cfg_space (rev ?d)"
  have "\<not> cfg_space (hd ?e)" "\<not> cfg_space (last ?e)" if e: "?e \<noteq> []"
  proof -
    show "\<not> cfg_space (hd ?e)" using e by (rule hd_dropWhile)
    have "last ?e = last (rev ?d)" using e by (metis last_appendR takeWhile_dropWhile_id)
    also have "\<dots> = hd ?d" by (simp add: last_rev)
    moreover have "?d \<noteq> []" using e by (metis dropWhile.simps(1) rev.simps(1))
    ultimately show "\<not> cfg_space (last ?e)" using hd_dropWhile [of cfg_space s] by simp
  qed
  then show ?thesis by (auto simp: trim_inplace_def hd_rev last_rev)
qed

lemma trimmed_iff: "trim_inplace s = s \<longleftrightarrow> s = [] \<or> \<not> cfg_space (hd s) \<and> \<not> cfg_space (last s)"
proof
  assume "trim_inplace s = s"
  then show "s = [] \<or> \<not> cfg_space (hd s) \<and> \<not> cfg_space (last s)" using trim_ends [of s] by simp
next
  assume s: "s = [] \<or> \<not> cfg_space (hd s) \<and> \<not> cfg_space (last s)"
  then have "dropWhile cfg_space s = s" by (cases s) auto
  moreover have "dropWhile cfg_space (rev s) = rev s"
    using s by (cases s rule: rev_cases) auto
  ultimately show "trim_inplace s = s" by (simp add: trim_inplace_def)
qed

lemma trim_trim [simp]: "trim_inplace (trim_inplace s) = trim_inplace s"
  by (simp add: trimmed_iff trim_ends)

lemma set_trim: "set (trim_inplace s) \<subseteq> set s"
  by (auto simp: trim_inplace_def dest!: set_dropWhileD)

lemma trim_Nil [simp]: "trim_inplace [] = []"
  by (simp add: trim_inplace_def)

lemma trim_snoc_space: "cfg_space c \<Longrightarrow> trim_inplace (s @ [c]) = trim_inplace s"
proof (cases "\<forall>x\<in>set s. cfg_space x")
  case True
  then show "cfg_space c \<Longrightarrow> trim_inplace (s @ [c]) = trim_inplace s"
    by (auto simp: trim_inplace_def dropWhile_append dest: set_dropWhileD)
qed (auto simp: trim_inplace_def dropWhile_append)

lemma trim_newline: "trim_inplace s = s \<Longrightarrow> trim_inplace (s @ [NL]) = s"
  by (simp add: trim_snoc_space cfg_space_def)

lemma trim_line:
  assumes "NL \<notin> set (butlast l)"
  shows "NL \<notin> set (trim_inplace l)"
proof (cases l rule: rev_cases)
  case (snoc x c)
  then show ?thesis using assms set_trim [of x] set_trim [of l] trim_snoc_space [of NL x]
    by (cases "c = NL") (auto simp: cfg_space_def)
qed simp

text \<open>Trimming the front part of a trimmed text does not change its first character.\<close>

lemma trim_hd:
  assumes "trim_inplace (a @ b) = a @ b" and "trim_inplace a \<noteq> []"
  shows "peek (trim_inplace a) = peek (a @ b)"
proof -
  have a: "a \<noteq> []" using assms(2) by auto
  then have "dropWhile cfg_space a = a"
    using assms(1) by (cases a) (auto simp: trimmed_iff)
  moreover have "dropWhile cfg_space (rev a) \<noteq> [] \<Longrightarrow> last (dropWhile cfg_space (rev a)) = last (rev a)"
    by (metis last_appendR takeWhile_dropWhile_id)
  ultimately have "hd (trim_inplace a) = hd a"
    using assms(2) a by (simp add: trim_inplace_def hd_rev last_rev)
  then show ?thesis using a assms(2) by (cases a; cases "trim_inplace a") auto
qed

section \<open>Well-formed configurations\<close>

definition key_ok :: "string \<Rightarrow> bool" where
  "key_ok k \<longleftrightarrow> k \<noteq> [] \<and> trim_inplace k = k \<and> CHR ''='' \<notin> set k \<and>
     peek k \<notin> {CHR ''#'', CHR '';'', CHR ''[''} \<and> NL \<notin> set k \<and> NUL \<notin> set k \<and> length k < k_max_key"

definition val_ok :: "string \<Rightarrow> bool" where
  "val_ok v \<longleftrightarrow> trim_inplace v = v \<and> NL \<notin> set v \<and> NUL \<notin> set v \<and> length v < k_max_val"

definition sec_ok :: "csection \<Rightarrow> bool" where
  "sec_ok s \<longleftrightarrow> is_known_section (sec_name s) \<and>
     list_all (\<lambda>e. key_ok (fst e) \<and> val_ok (snd e)) (sec_entries s) \<and>
     distinct (map fst (sec_entries s)) \<and> length (sec_entries s) \<le> k_max_entries"

definition secs_ok :: "csection list \<Rightarrow> bool" where
  "secs_ok ss \<longleftrightarrow> list_all sec_ok ss \<and> distinct (map sec_name ss)"

lemma copy_str_if [simp]: "copy_str cap s = (if length s < cap then Some s else None)"
  by (auto simp: copy_str_def)

lemma find_section_None [simp]: "find_section cfg n = None \<longleftrightarrow> n \<notin> set (map sec_name (cfg_sections cfg))"
  by (auto simp: find_section_def find_None_iff)

lemma known_not_empty: "is_known_section n \<Longrightarrow> n \<noteq> []"
  by (auto simp: is_known_section_def known_sections_def)

text \<open>There are five known sections, so that a well-formed configuration never has too many.\<close>

lemma secs_ok_length: "secs_ok ss \<Longrightarrow> length ss \<le> 5"
proof -
  assume ok: "secs_ok ss"
  then have "set (map sec_name ss) \<subseteq> set known_sections"
    by (auto simp: secs_ok_def sec_ok_def list_all_iff is_known_section_def)
  then have "card (set (map sec_name ss)) \<le> card (set known_sections)" by (rule card_mono [OF finite_set])
  also have "\<dots> \<le> 5" by (simp add: known_sections_def card_insert_if)
  finally show ?thesis using ok distinct_card [of "map sec_name ss"] by (simp add: secs_ok_def)
qed

lemma add_section_Some:
  "add_section cfg n = Some (cfg', i) \<longleftrightarrow>
     n \<noteq> [] \<and> length (cfg_sections cfg) < k_max_sections \<and> length n < k_max_section_name \<and>
     i = length (cfg_sections cfg) \<and>
     cfg' = cfg\<lparr>cfg_sections := cfg_sections cfg @ [\<lparr>sec_name = n, sec_entries = []\<rparr>]\<rparr>"
  by (auto simp: add_section_def split: option.splits)

lemma add_entry_Some:
  "add_entry sec k v = Some sec' \<longleftrightarrow>
     k \<noteq> [] \<and> k \<notin> fst ` set (sec_entries sec) \<and> length (sec_entries sec) < k_max_entries \<and>
     length k < k_max_key \<and> length v < k_max_val \<and>
     sec' = sec\<lparr>sec_entries := sec_entries sec @ [(k, v)]\<rparr>"
  by (auto simp: add_entry_def list_ex_iff image_iff split: option.splits)

definition cur_ok :: "config \<Rightarrow> nat option \<Rightarrow> bool" where
  "cur_ok cfg cur \<longleftrightarrow> (case cur of None \<Rightarrow> True | Some i \<Rightarrow> i < length (cfg_sections cfg))"

lemma load_header_ok:
  assumes "secs_ok (cfg_sections cfg)" and "load_header cfg line = Some (cfg', cur')"
  shows "secs_ok (cfg_sections cfg')" "cur_ok cfg' cur'"
  using assms
  by (auto simp: load_header_def Let_def add_section_Some cur_ok_def secs_ok_def sec_ok_def
      split: option.splits prod.splits if_splits)

lemma load_entry_ok:
  assumes ok: "secs_ok (cfg_sections cfg)" "cur_ok cfg cur"
    and line: "trim_inplace line = line" "NL \<notin> set line" "NUL \<notin> set line"
      "peek line \<notin> {CHR ''#'', CHR '';'', CHR ''[''}"
    and loaded: "load_entry cfg cur line = Some (cfg', cur')"
  shows "secs_ok (cfg_sections cfg')" "cur_ok cfg' cur'"
proof -
  obtain i k v sec where i: "cur = Some i" and kv: "split_at (CHR ''='') line = Some (k, v)"
    and k: "trim_inplace k \<noteq> []"
    and sec: "add_entry (cfg_sections cfg ! i) (trim_inplace k) (trim_inplace v) = Some sec"
    and cfg': "cfg' = cfg\<lparr>cfg_sections := (cfg_sections cfg)[i := sec]\<rparr>" "cur' = cur"
    using loaded by (auto simp: load_entry_def Let_def split: option.splits prod.splits if_splits)
  have l: "line = k @ CHR ''='' # v" "CHR ''='' \<notin> set k" using kv by (simp_all add: split_at_Some)
  have i': "i < length (cfg_sections cfg)" using ok(2) i by (simp add: cur_ok_def)
  have old: "sec_ok (cfg_sections cfg ! i)" using ok(1) i' by (simp add: secs_ok_def list_all_length)
  have "peek (trim_inplace k) = peek line" using trim_hd [of k "CHR ''='' # v"] line(1) l(1) k by simp
  then have "key_ok (trim_inplace k)" "val_ok (trim_inplace v)"
    using sec k line l set_trim [of k] set_trim [of v] by (auto simp: key_ok_def val_ok_def add_entry_Some)
  then have "sec_ok sec" "sec_name sec = sec_name (cfg_sections cfg ! i)"
    using sec old by (auto simp: sec_ok_def add_entry_Some)
  then show "secs_ok (cfg_sections cfg')" "cur_ok cfg' cur'"
    using ok i i' cfg' by (auto simp: secs_ok_def cur_ok_def map_update list_all_length nth_list_update)
      (metis list_update_id map_update nth_map length_map)
qed

lemma load_line_ok:
  assumes "secs_ok (cfg_sections cfg)" "cur_ok cfg cur" "NUL \<notin> set raw" "NL \<notin> set (butlast raw)"
    and "load_line cfg cur raw = Some (cfg', cur')"
  shows "secs_ok (cfg_sections cfg')" "cur_ok cfg' cur'"
  using assms load_header_ok [of cfg "trim_inplace raw" cfg' cur'] set_trim [of raw]
    load_entry_ok [of cfg cur "trim_inplace raw" cfg' cur', OF _ _ _ trim_line]
  by (auto simp: load_line_def Let_def split: if_splits)

lemma load_lines_ok:
  assumes "secs_ok (cfg_sections cfg)" "cur_ok cfg cur"
    and "\<forall>l\<in>set ls. NUL \<notin> set l \<and> NL \<notin> set (butlast l)" and "load_lines cfg cur ls = Some cfg'"
  shows "secs_ok (cfg_sections cfg')"
  using assms
proof (induction ls arbitrary: cfg cur)
  case (Cons l ls)
  then obtain cfg1 cur1 where l: "load_line cfg cur l = Some (cfg1, cur1)" "load_lines cfg1 cur1 ls = Some cfg'"
    by (auto split: option.splits)
  show ?case
    using Cons.IH [OF load_line_ok [OF Cons.prems(1,2) _ _ l(1)] _ l(2)] Cons.prems(3) by simp
qed simp

lemma load_config_ok: "load_config path (Some t) = Some cfg \<Longrightarrow> secs_ok (cfg_sections cfg)"
  by (auto simp: load_config_def secs_ok_def [of "[]"] cur_ok_def empty_config_def split: option.splits
      dest!: load_lines_ok [rotated 3] dest: file_lines_line)

section \<open>Printing and loading again\<close>

lemma load_blank [simp]: "load_line cfg cur [NL] = Some (cfg, cur)"
  by (simp add: load_line_def k_max_line_def trim_inplace_def cfg_space_def Let_def)

lemma load_printed_header:
  assumes "is_known_section n" and "n \<notin> set (map sec_name (cfg_sections cfg))"
    and "length (cfg_sections cfg) < k_max_sections"
  shows "load_line cfg cur (CHR ''['' # n @ '']'' @ [NL]) =
    Some (cfg\<lparr>cfg_sections := cfg_sections cfg @ [\<lparr>sec_name = n, sec_entries = []\<rparr>]\<rparr>, Some (length (cfg_sections cfg)))"
proof -
  have "trim_inplace (CHR ''['' # n @ '']'') = CHR ''['' # n @ '']''"
    by (simp add: trimmed_iff cfg_space_def)
  from trim_newline [OF this] have t: "trim_inplace (CHR ''['' # n @ '']'' @ [NL]) = CHR ''['' # n @ '']''" by simp
  have "CHR '']'' \<notin> set n" "length n < 20"
    using assms(1) by (auto simp: is_known_section_def known_sections_def)
  then have "split_at (CHR '']'') (CHR ''['' # n @ '']'') = Some (CHR ''['' # n, [])"
    by (subst split_at_Some) simp
  moreover have "find_section cfg n = None" using assms(2) by simp
  ultimately show ?thesis
    using assms(1,3) \<open>length n < 20\<close> known_not_empty [OF assms(1)] t
    by (simp add: load_line_def load_header_def Let_def k_max_line_def add_section_Some k_max_section_name_def
        add_section_def)
qed

lemma load_printed_entry:
  assumes "key_ok k" and "val_ok v" and "cur = Some i"
    and "k \<notin> fst ` set (sec_entries (cfg_sections cfg ! i))"
    and "length (sec_entries (cfg_sections cfg ! i)) < k_max_entries"
  shows "load_line cfg cur (k @ CHR ''='' # v @ [NL]) =
    Some (cfg\<lparr>cfg_sections := (cfg_sections cfg)[i := (cfg_sections cfg ! i)
      \<lparr>sec_entries := sec_entries (cfg_sections cfg ! i) @ [(k, v)]\<rparr>]\<rparr>, cur)"
proof -
  have k: "k \<noteq> []" "trim_inplace k = k" "CHR ''='' \<notin> set k" "peek k \<notin> {CHR ''#'', CHR '';'', CHR ''[''}" "length k < 64"
    using assms(1) by (auto simp: key_ok_def k_max_key_def)
  have v: "trim_inplace v = v" "length v < 256" using assms(2) by (simp_all add: val_ok_def k_max_val_def)
  have "trim_inplace (k @ CHR ''='' # v) = k @ CHR ''='' # v"
    using k(1,2) v(1) by (auto simp: trimmed_iff cfg_space_def)
  from trim_newline [OF this] have t: "trim_inplace (k @ CHR ''='' # v @ [NL]) = k @ CHR ''='' # v" by simp
  have "split_at (CHR ''='') (k @ CHR ''='' # v) = Some (k, v)" using k(3) by (subst split_at_Some) simp
  moreover have "peek (k @ CHR ''='' # v) = peek k" using k(1) by (cases k) auto
  moreover have "add_entry (cfg_sections cfg ! i) k v = Some ((cfg_sections cfg ! i)
      \<lparr>sec_entries := sec_entries (cfg_sections cfg ! i) @ [(k, v)]\<rparr>)"
    using assms k v by (subst add_entry_Some) (simp add: k_max_key_def k_max_val_def)
  ultimately show ?thesis
    using k v assms(3) t by (simp add: load_line_def load_entry_def Let_def k_max_line_def)
qed

text \<open>The lines of a printed section.\<close>

definition section_lines :: "csection \<Rightarrow> string list" where
  "section_lines s = (CHR ''['' # sec_name s @ '']'') # map (\<lambda>(k, v). k @ CHR ''='' # v) (sec_entries s)"

lemma dump_section_lines: "dump_section s = concat (map (\<lambda>l. l @ [NL]) (section_lines s))"
  by (simp add: dump_section_def section_lines_def comp_def split_def)

definition clean_line :: "string \<Rightarrow> bool" where
  "clean_line l \<longleftrightarrow> NL \<notin> set l \<and> NUL \<notin> set l \<and> length l + 2 \<le> k_max_line"

lemma file_lines_clean:
  "list_all clean_line ls \<Longrightarrow>
     file_lines k_max_line (concat (map (\<lambda>l. l @ [NL]) ls) @ t) = map (\<lambda>l. l @ [NL]) ls @ file_lines k_max_line t"
  by (induction ls) (simp_all add: clean_line_def file_lines_step)

lemma section_lines_clean: "sec_ok s \<Longrightarrow> list_all clean_line (section_lines s)"
  by (auto simp: section_lines_def sec_ok_def clean_line_def list_all_iff is_known_section_def known_sections_def
      key_ok_def val_ok_def k_max_defs)

lemma load_printed_entries:
  assumes "list_all (\<lambda>e. key_ok (fst e) \<and> val_ok (snd e)) es" and "distinct (map fst (old @ es))"
    and "length (old @ es) \<le> k_max_entries"
  shows "load_lines (cfg\<lparr>cfg_sections := ss @ [\<lparr>sec_name = n, sec_entries = old\<rparr>]\<rparr>) (Some (length ss))
      (map (\<lambda>l. l @ [NL]) (map (\<lambda>(k, v). k @ CHR ''='' # v) es) @ rest) =
    load_lines (cfg\<lparr>cfg_sections := ss @ [\<lparr>sec_name = n, sec_entries = old @ es\<rparr>]\<rparr>) (Some (length ss)) rest"
  using assms
proof (induction es arbitrary: old)
  case (Cons e es)
  obtain k v where e: "e = (k, v)" by fastforce
  have "load_line (cfg\<lparr>cfg_sections := ss @ [\<lparr>sec_name = n, sec_entries = old\<rparr>]\<rparr>) (Some (length ss))
      (k @ CHR ''='' # v @ [NL]) =
    Some (cfg\<lparr>cfg_sections := ss @ [\<lparr>sec_name = n, sec_entries = old @ [e]\<rparr>]\<rparr>, Some (length ss))"
    using Cons.prems by (subst load_printed_entry [where i = "length ss"]) (auto simp: e)
  then show ?case using Cons.IH [of "old @ [e]"] Cons.prems by (simp add: e)
qed simp

lemma load_printed_section:
  assumes "sec_ok s" and "sec_name s \<notin> set (map sec_name ss)" and "length ss < k_max_sections"
  shows "load_lines (cfg\<lparr>cfg_sections := ss\<rparr>) cur (map (\<lambda>l. l @ [NL]) (section_lines s) @ rest) =
    load_lines (cfg\<lparr>cfg_sections := ss @ [s]\<rparr>) (Some (length ss)) rest"
  using assms load_printed_header [of "sec_name s" "cfg\<lparr>cfg_sections := ss\<rparr>" cur]
    load_printed_entries [where es = "sec_entries s" and old = "[]" and cfg = cfg and ss = ss and n = "sec_name s" and rest = rest]
  by (cases s) (simp add: section_lines_def sec_ok_def)

lemma load_printed_sections:
  assumes "secs_ok (old @ ss)"
  shows "load_lines (cfg\<lparr>cfg_sections := old\<rparr>) cur (file_lines k_max_line (dump_sections ss)) =
    Some (cfg\<lparr>cfg_sections := old @ ss\<rparr>)"
  using assms
proof (induction ss arbitrary: old cur rule: dump_sections.induct)
  case 1
  then show ?case by simp
next
  case (2 s)
  then have s: "sec_ok s" "sec_name s \<notin> set (map sec_name old)" "length old < k_max_sections"
    using secs_ok_length [of "old @ [s]"] by (auto simp: secs_ok_def k_max_sections_def)
  show ?case
    using load_printed_section [OF s, where cfg = cfg and cur = cur and rest = "[]"] file_lines_clean [OF section_lines_clean [OF s(1)], of "[]"]
    by (simp add: dump_section_lines)
next
  case (3 s t ss)
  then have s: "sec_ok s" "sec_name s \<notin> set (map sec_name old)" "length old < k_max_sections"
    using secs_ok_length [of "old @ s # t # ss"] by (auto simp: secs_ok_def k_max_sections_def)
  have "file_lines k_max_line (NL # r) = [NL] # file_lines k_max_line r" for r
    using file_lines_step [of "[]" k_max_line r] by (simp add: k_max_line_def)
  then show ?case
    using load_printed_section [OF s, where cfg = cfg and cur = cur and rest = "[NL] # file_lines k_max_line (dump_sections (t # ss))"]
      file_lines_clean [OF section_lines_clean [OF s(1)], of "NL # dump_sections (t # ss)"]
      3(1) [where old = "old @ [s]" and cur = "Some (length old)"] 3(2)
    by (simp add: dump_section_lines)
qed

text \<open>
  C38. The configuration file is a fixed form: whatever file is loaded, with its comments, blanks
  and order of lines, printing the configuration and loading the text gives the same sections
  with the same keys and values again.
\<close>

theorem config_reload:
  assumes "load_config path (Some t) = Some cfg" and "length path' < k_max_path"
  shows "load_config path' (Some (snd (dump_config cfg None))) = Some (cfg\<lparr>cfg_path := path'\<rparr>)"
proof -
  have "loaded_from_disk cfg"
    using assms(1) by (auto simp: load_config_def split: if_splits)
  moreover have "load_lines (empty_config\<lparr>cfg_path := path', cfg_sections := []\<rparr>) None
      (file_lines k_max_line (dump_sections (cfg_sections cfg))) =
      Some (empty_config\<lparr>cfg_path := path', cfg_sections := cfg_sections cfg\<rparr>)"
    using load_printed_sections [of "[]" "cfg_sections cfg"] load_config_ok [OF assms(1)] by simp
  ultimately show ?thesis
    using assms(2) by (cases cfg) (simp add: load_config_def dump_config_def empty_config_def)
qed

definition demo_ini :: string where
  "demo_ini = ''; c'' @ [NL] @ ''[prompt] x'' @ [NL] @ '' ps1 =  a > '' @ [NL, NL] @ ''[env]'' @ [NL] @ ''X==1'' @ [NL]"

theorem config_reload_witness:
  "\<exists>cfg. load_config ''a'' (Some demo_ini) = Some cfg \<and>
     map sec_entries (cfg_sections cfg) = [[(''ps1'', ''a >'')], [(''X'', ''=1'')]] \<and>
     load_config ''b'' (Some (snd (dump_config cfg None))) = Some (cfg\<lparr>cfg_path := ''b''\<rparr>)"
proof -
  let ?cfg = "\<lparr>cfg_sections = [\<lparr>sec_name = ''prompt'', sec_entries = [(''ps1'', ''a >'')]\<rparr>,
      \<lparr>sec_name = ''env'', sec_entries = [(''X'', ''=1'')]\<rparr>], cfg_path = ''a'', loaded_from_disk = True\<rparr>"
  have l: "load_config ''a'' (Some demo_ini) = Some ?cfg"
    unfolding demo_ini_def by code_simp
  have "load_config ''b'' (Some (snd (dump_config ?cfg None))) = Some (?cfg\<lparr>cfg_path := ''b''\<rparr>)"
    by (rule config_reload [OF l]) (simp add: k_max_path_def)
  then show ?thesis using l by auto
qed

section \<open>Two corners\<close>

text \<open>The built-in prompt ends in a blank, which does not survive a file.\<close>

theorem defaults_lose_blank:
  "find_section load_defaults ''prompt'' = Some \<lparr>sec_name = ''prompt'', sec_entries = [(''ps1'', ''petrush> '')]\<rparr>"
  "map_option (\<lambda>cfg. find_section cfg ''prompt'')
     (load_config ''c'' (Some (snd (dump_config load_defaults None)))) =
   Some (Some \<lparr>sec_name = ''prompt'', sec_entries = [(''ps1'', ''petrush>'')]\<rparr>)"
  by code_simp+

text \<open>The check for an unsigned number accepts a sign.\<close>

theorem check_accepts_minus:
  "section_checks \<lparr>sec_name = ''history'', sec_entries = [(''max'', ''-5'')]\<rparr>"
  "parse_u64 ''-5'' = Some (2 ^ 64 - 5)"
proof -
  show p: "parse_u64 ''-5'' = Some (2 ^ 64 - 5)"
    by (simp add: parse_u64_def strtoull10_def decimal_def digit_val_def isdigit_def code_def isspace_def Let_def)
  show "section_checks \<lparr>sec_name = ''history'', sec_entries = [(''max'', ''-5'')]\<rparr>"
    by (simp add: section_checks_def entry_checks_def is_known_section_def known_sections_def p)
qed

end
