(* ===== verification/Configsh.thy ===== *)
theory Configsh
  imports Config
begin

text \<open>
  The helper program around the configuration: its options and its exit codes
  (\<open>src/cxx/main.cpp\<close>) and its terminal interface (\<open>src/cxx/tui.cpp\<close>), a machine with the two
  modes of a list of sections and of one section.  The bytes of the keyboard are a list, the
  screen is the text written to it; setting the terminal to raw mode and back is left out, as
  is the width of names beyond their length.

  The selection is shown to stay among the sections and the section shown to be one of the
  configuration, for every sequence of keys.
\<close>

section \<open>The keyboard\<close>

abbreviation ESC :: char where "ESC \<equiv> CHR 0x1B"

definition read_byte :: "string \<Rightarrow> (char \<times> string) option" where
  "read_byte s = (case s of [] \<Rightarrow> None | c # r \<Rightarrow> Some (c, r))"

definition key :: "char \<Rightarrow> int" where
  "key c = int (code c)"

definition read_key :: "string \<Rightarrow> int \<times> string" where
  "read_key s =
     (case read_byte s of
        None \<Rightarrow> (- 1, s)
      | Some (c, r) \<Rightarrow>
          if c = ESC then
            (case read_byte r of
               None \<Rightarrow> (27, r)
             | Some (a, r) \<Rightarrow>
                 if a = CHR ''['' then
                   (case read_byte r of
                      None \<Rightarrow> (27, r)
                    | Some (b, r) \<Rightarrow>
                        if b = CHR ''A'' then (key (CHR ''k''), r)
                        else if b = CHR ''B'' then (key (CHR ''j''), r)
                        else (27, r))
                 else (27, r))
          else (key c, r))"

lemma read_key_shrinks [shrinks]: "read_key s = (k, r) \<Longrightarrow> 0 \<le> k \<Longrightarrow> length r < length s"
  by (auto simp: read_key_def read_byte_def split: list.splits if_splits)

section \<open>The screens\<close>

definition k_clear :: string where "k_clear = ESC # ''[2J'' @ ESC # ''[H''"
definition k_bold :: string where "k_bold = ESC # ''[1m''"
definition k_reset :: string where "k_reset = ESC # ''[0m''"
definition k_invert :: string where "k_invert = ESC # ''[7m''"

definition display_width :: "string \<Rightarrow> nat" where
  "display_width s = length s"

definition passes :: "string option \<Rightarrow> csection \<Rightarrow> bool" where
  "passes flt sec \<longleftrightarrow> (case flt of Some (c # f) \<Rightarrow> sec_name sec = c # f | _ \<Rightarrow> True)"

definition visible :: "config \<Rightarrow> string option \<Rightarrow> csection list" where
  "visible cfg flt = filter (passes flt) (cfg_sections cfg)"

definition list_row :: "bool \<Rightarrow> csection \<Rightarrow> string" where
  "list_row on sec =
     (if on then k_invert else []) @ ''  ['' @ sec_name sec @ '']'' @
     replicate (16 - display_width (sec_name sec)) (CHR '' '') @
     ''  '' @ show_nat (length (sec_entries sec)) @ '' keys'' @ (if on then k_reset else []) @ [NL]"

fun list_rows :: "int \<Rightarrow> int \<Rightarrow> csection list \<Rightarrow> string" where
  "list_rows idx selected [] = []"
| "list_rows idx selected (s # ss) = list_row (idx = selected) s @ list_rows (idx + 1) selected ss"

definition rule_line :: string where
  "rule_line = replicate 40 (CHR ''-'') @ [NL]"

definition draw_list :: "config \<Rightarrow> int \<Rightarrow> string option \<Rightarrow> string" where
  "draw_list cfg selected flt =
     k_clear @ k_bold @ ''configsh'' @ k_reset @ ''  (raw ANSI TUI, no ncurses)'' @ [NL] @
     (if cfg_path cfg \<noteq> []
      then ''file: '' @ cfg_path cfg @ (if loaded_from_disk cfg then [] else '' (defaults)'') @ [NL, NL]
      else [NL]) @
     ''Sections  [j/k move, Enter open, q quit]'' @ [NL] @ rule_line @
     list_rows 0 selected (visible cfg flt) @
     (if visible cfg flt = [] then ''  (no sections)'' @ [NL] else [])"

definition draw_section :: "csection \<Rightarrow> string" where
  "draw_section sec =
     k_clear @ k_bold @ CHR ''['' # sec_name sec @ '']'' @ k_reset @ ''  [q/Esc back]'' @ [NL] @ rule_line @
     (if sec_entries sec = [] then ''  (empty)'' @ [NL] else []) @
     concat (map (\<lambda>(k, v). ''  '' @ k @ CHR ''='' # v @ [NL]) (sec_entries sec))"

definition section_at_visible :: "config \<Rightarrow> string option \<Rightarrow> int \<Rightarrow> csection option" where
  "section_at_visible cfg flt i =
     (if 0 \<le> i \<and> i < int (length (visible cfg flt)) then Some (visible cfg flt ! nat i) else None)"

definition count_visible :: "config \<Rightarrow> string option \<Rightarrow> int" where
  "count_visible cfg flt = int (length (visible cfg flt))"

section \<open>The machine\<close>

datatype tui_mode = Mode_List | Mode_Detail

record tui =
  tui_selected :: int
  tui_mode :: tui_mode
  tui_detail :: "csection option"

text \<open>One key: \<open>None\<close> leaves, otherwise the state and what is drawn.\<close>

definition tui_key :: "config \<Rightarrow> int \<Rightarrow> tui \<Rightarrow> (tui \<times> string) option" where
  "tui_key cfg k t =
     (let total = count_visible cfg None; quit = (k = key (CHR ''q'') \<or> k = key (CHR ''Q'')) in
      if k < 0 \<or> k = 3 then None
      else if tui_mode t = Mode_List then
        if quit then None
        else if k = key (CHR ''j'') \<and> total > 0 then
          (let sel = (tui_selected t + 1) mod total in Some (t\<lparr>tui_selected := sel\<rparr>, draw_list cfg sel None))
        else if (k = 10 \<or> k = 13) \<and> total > 0 then
          (case section_at_visible cfg None (tui_selected t) of
             None \<Rightarrow> Some (t\<lparr>tui_detail := None\<rparr>, [])
           | Some sec \<Rightarrow> Some (t\<lparr>tui_mode := Mode_Detail, tui_detail := Some sec\<rparr>, draw_section sec))
        else if k = key (CHR ''k'') \<and> total > 0 then
          (let sel = (tui_selected t - 1 + total) mod total in Some (t\<lparr>tui_selected := sel\<rparr>, draw_list cfg sel None))
        else Some (t, [])
      else if quit \<or> k = 27 then
        Some (t\<lparr>tui_mode := Mode_List, tui_detail := None\<rparr>, draw_list cfg (tui_selected t) None)
      else Some (t, []))"

function tui_loop :: "config \<Rightarrow> tui \<Rightarrow> string \<Rightarrow> string \<Rightarrow> string" where
  "tui_loop cfg t input scr =
     (case read_key input of (k, rest) \<Rightarrow>
        if k < 0 then scr
        else case tui_key cfg k t of
          None \<Rightarrow> scr
        | Some (t, drawn) \<Rightarrow> tui_loop cfg t rest (scr @ drawn))"
  by pat_completeness auto
termination
  by (relation "measure (\<lambda>(cfg, t, input, scr). length input)") (auto simp: not_less intro: read_key_shrinks [OF sym])

text \<open>The view of one section: keys are read until one of them leaves.\<close>

function wait_leave :: "string \<Rightarrow> string" where
  "wait_leave input =
     (case read_key input of (k, rest) \<Rightarrow>
        if k < 0 \<or> k = key (CHR ''q'') \<or> k = key (CHR ''Q'') \<or> k = 27 \<or> k = 3 then rest
        else wait_leave rest)"
  by pat_completeness auto
termination
  by (relation "measure length") (auto simp: not_less intro: read_key_shrinks [OF sym])

declare tui_loop.simps [simp del] wait_leave.simps [simp del]

text \<open>The status and the screen; \<open>raw\<close> tells whether the terminal could be set.\<close>

definition run_tui :: "config \<Rightarrow> string option \<Rightarrow> bool \<Rightarrow> bool \<Rightarrow> string \<Rightarrow> int \<times> string" where
  "run_tui cfg section_filter ttys raw input =
     (if \<not> ttys then (1, [])
      else if \<not> raw then (1, [])
      else case section_filter of
        Some (c # f) \<Rightarrow> (case find_section cfg (c # f) of
            None \<Rightarrow> (1, [])
          | Some sec \<Rightarrow> (0, draw_section sec @ k_clear))
      | _ \<Rightarrow> (0, tui_loop cfg \<lparr>tui_selected = 0, tui_mode = Mode_List, tui_detail = None\<rparr> input
              (draw_list cfg 0 None) @ k_clear))"

section \<open>The program\<close>

definition print_help :: string where
  "print_help =
     ''configsh - petrush configuration helper (CXX-TUI)'' @ [NL] @
     ''Usage: configsh [--help] [--dump] [--check] [--section NAME]'' @ [NL] @ [NL] @
     ''Options:'' @ [NL] @
     ''  --help              show this help and exit'' @ [NL] @
     ''  --dump              print config (INI) to stdout'' @ [NL] @
     ''  --check             validate config; exit 0 if ok'' @ [NL] @
     ''  --section NAME      limit dump/check/TUI to section NAME'' @ [NL] @ [NL] @
     ''Config path (XDG):'' @ [NL] @
     ''  $PETRUSH_CONFIG, else $XDG_CONFIG_HOME/petrush/config.ini,'' @ [NL] @
     ''  else ~/.config/petrush/config.ini'' @ [NL] @ [NL] @
     ''Sections: prompt, aliases, env, history, general'' @ [NL] @
     ''No args on a TTY opens the raw ANSI TUI (q quit).'' @ [NL]"

datatype action = Act_Help | Act_Dump | Act_Check | Act_Tui

record options =
  opt_action :: action
  opt_section :: "string option"

fun parse_args :: "options \<Rightarrow> string list \<Rightarrow> options option" where
  "parse_args opt [] = Some opt"
| "parse_args opt (a # rest) =
     (if a = ''--help'' \<or> a = ''-h'' then parse_args (opt\<lparr>opt_action := Act_Help\<rparr>) rest
      else if a = ''--dump'' then parse_args (opt\<lparr>opt_action := Act_Dump\<rparr>) rest
      else if a = ''--check'' then parse_args (opt\<lparr>opt_action := Act_Check\<rparr>) rest
      else if a = ''--section'' then
        (case rest of
           [] \<Rightarrow> None
         | name # rest \<Rightarrow> if peek name = CHR ''-'' then None
                          else parse_args (opt\<lparr>opt_section := Some name\<rparr>) rest)
      else if take 10 a = ''--section='' then
        (if drop 10 a = [] then None else parse_args (opt\<lparr>opt_section := Some (drop 10 a)\<rparr>) rest)
      else None)"

record configsh_sys =
  cg_getenv :: "string \<Rightarrow> string option"
  cg_read_file :: "string \<Rightarrow> string option"
  cg_tty :: bool
  cg_raw :: bool
  cg_input :: string

definition configsh_main :: "configsh_sys \<Rightarrow> string list \<Rightarrow> int \<times> string" where
  "configsh_main sys args =
     (case parse_args \<lparr>opt_action = Act_Tui, opt_section = None\<rparr> (tl args) of
        None \<Rightarrow> (2, print_help)
      | Some opt \<Rightarrow>
          if opt_action opt = Act_Help then (0, print_help)
          else if opt_action opt = Act_Tui \<and> length args = 1 \<and> \<not> cg_tty sys then (0, print_help)
          else case resolve_config_path (cg_getenv sys) k_max_path of
            None \<Rightarrow> (1, [])
          | Some path \<Rightarrow> (case load_config path (cg_read_file sys path) of
              None \<Rightarrow> (1, [])
            | Some cfg \<Rightarrow>
                if (case opt_section opt of None \<Rightarrow> False | Some n \<Rightarrow> \<not> is_known_section n) then (1, [])
                else (case opt_action opt of
                    Act_Help \<Rightarrow> (0, print_help)
                  | Act_Dump \<Rightarrow> dump_config cfg (opt_section opt)
                  | Act_Check \<Rightarrow> (check_config cfg (opt_section opt), [])
                  | Act_Tui \<Rightarrow> run_tui cfg (opt_section opt) (cg_tty sys) (cg_raw sys) (cg_input sys))))"

section \<open>The selection and the section shown\<close>

definition tui_ok :: "config \<Rightarrow> tui \<Rightarrow> bool" where
  "tui_ok cfg t \<longleftrightarrow>
     0 \<le> tui_selected t \<and>
     (cfg_sections cfg \<noteq> [] \<longrightarrow> tui_selected t < int (length (cfg_sections cfg))) \<and>
     (case tui_detail t of
        None \<Rightarrow> tui_mode t = Mode_List
      | Some sec \<Rightarrow> tui_mode t = Mode_Detail \<and> sec = cfg_sections cfg ! nat (tui_selected t) \<and>
          sec \<in> set (cfg_sections cfg))"

lemma visible_all [simp]: "visible cfg None = cfg_sections cfg"
  by (simp add: visible_def passes_def filter_id_conv)

lemma tui_key_ok: "tui_ok cfg t \<Longrightarrow> tui_key cfg k t = Some (t', drawn) \<Longrightarrow> tui_ok cfg t'"
  by (auto simp: tui_ok_def tui_key_def Let_def section_at_visible_def count_visible_def
      split: if_splits option.splits tui_mode.splits)

text \<open>In the list the section that Enter opens is the one that is marked.\<close>

lemma enter_opens_marked:
  assumes "tui_ok cfg t" and "tui_mode t = Mode_List" and "cfg_sections cfg \<noteq> []"
  shows "tui_key cfg 13 t = Some (t\<lparr>tui_mode := Mode_Detail,
      tui_detail := Some (cfg_sections cfg ! nat (tui_selected t))\<rparr>,
      draw_section (cfg_sections cfg ! nat (tui_selected t)))"
  using assms by (simp add: tui_key_def tui_ok_def section_at_visible_def count_visible_def key_def code_def Let_def)

text \<open>All states that the loop goes through.\<close>

fun tui_keys :: "config \<Rightarrow> int list \<Rightarrow> tui \<Rightarrow> tui option" where
  "tui_keys cfg [] t = Some t"
| "tui_keys cfg (k # ks) t =
     (case tui_key cfg k t of None \<Rightarrow> None | Some (t, _) \<Rightarrow> tui_keys cfg ks t)"

theorem tui_keys_ok:
  "tui_keys cfg ks \<lparr>tui_selected = 0, tui_mode = Mode_List, tui_detail = None\<rparr> = Some t \<Longrightarrow> tui_ok cfg t"
proof -
  have "tui_ok cfg u \<Longrightarrow> tui_keys cfg ks u = Some t \<Longrightarrow> tui_ok cfg t" for u
    by (induction ks arbitrary: u) (auto split: option.splits dest: tui_key_ok)
  moreover have "tui_ok cfg \<lparr>tui_selected = 0, tui_mode = Mode_List, tui_detail = None\<rparr>"
    by (simp add: tui_ok_def)
  ultimately show
    "tui_keys cfg ks \<lparr>tui_selected = 0, tui_mode = Mode_List, tui_detail = None\<rparr> = Some t \<Longrightarrow> tui_ok cfg t" .
qed

text \<open>A lone escape waits for the next key and swallows it.\<close>

lemma escape_swallows: "c \<noteq> CHR ''['' \<Longrightarrow> read_key (ESC # c # r) = (27, r)"
  by (simp add: read_key_def read_byte_def)

text \<open>A section that does not exist is an error in every mode of the program but the check of the
  built-in defaults.\<close>

lemma unknown_section_fails:
  assumes "parse_args \<lparr>opt_action = Act_Tui, opt_section = None\<rparr> (tl args) = Some opt"
    and "opt_action opt \<noteq> Act_Help" and "length args \<noteq> 1"
    and "opt_section opt = Some n" and "\<not> is_known_section n"
  shows "configsh_main sys args = (1, [])"
  using assms by (simp add: configsh_main_def split: option.split)

end
