(* ===== verification/Spec2Isabelle.thy ===== *)
theory Spec2Isabelle
  imports Spans Lexer Render ListParser ParserProps Heredoc Clone Globbing Arith Alias ShellVars Jobs History
    Shell Expand Process Builtins Traps Source Dispatch Fuel Frames
    TrapProps Signals Semantics Statuses Files Pudod Pudo Plugins Inventory Wai Netcom Startup Repl Failures
    Reports Transfers Highlight Complete Config Configsh
begin

text \<open>
  A verification library for the petrush shell: an interactive POSIX-like shell in C
  (\<open>src/main.c\<close>, \<open>src/foundation\<close>, \<open>src/mid\<close>, \<open>src/front\<close>), its helper with the rights of
  root (\<open>src/pudod\<close>), and its configuration program in C++ (\<open>src/cxx\<close>).

  \<^bold>\<open>How the program works.\<close>  A line is expanded by the history and the aliases, parsed into a
  list of items (pipelines, \<open>if\<close>, \<open>while\<close>, \<open>for\<close>, functions, \<open>case\<close>, \<open>[[ ]]\<close>) and filled
  with the here-documents that follow it.  The dispatcher runs the list: it expands words, opens
  redirections, and calls a function, a builtin or a program.  Expansion calls the dispatcher
  again for \<open>$(...)\<close>.  Between commands it runs the actions of traps.  The main program feeds
  it lines from the prompt or from a file.  The builtins \<open>pudo\<close>, \<open>wai\<close>, \<open>netcom\<close> and the
  loader of plugins stand beside this core; \<open>pudo\<close> hands over to the helper.

  \<^bold>\<open>Conventions.\<close>  A C string is the list of its bytes before the NUL, a pointer into it a
  suffix or an offset, an owned struct a value; the array and counter of a C list are one list.
  Errors are \<open>None\<close>, a sum, or the code's own return code.  Numbers are \<open>int\<close> or \<open>nat\<close> where
  the code stays in range, and 64-bit words or explicit bounds where it may not.  A function of
  the model has the name of the C function unless a library constant has it.

  \<^bold>\<open>Theories and code.\<close>
  \<^item> \<open>Prelude\<close>, \<open>Files\<close>: bytes, character classes, numbers in decimal, \<open>fgets\<close>, \<open>snprintf\<close>, paths.
  \<^item> \<open>Spans\<close>, \<open>Ast\<close>, \<open>Lexer\<close>, \<open>ListParser\<close> (\<open>src/mid/parser.c\<close>): the groups behind a dollar,
    the tree, the pipeline parser, the list parser. \<open>Render\<close> prints pipelines and shows that
    parsing reads them back; \<open>ParserProps\<close> shows that the parser returns on every line, stays
    inside it, and gives well-formed trees. \<open>Heredoc\<close>: feeding lines to the tree, refined by a
    walk over its stages.
  \<^item> \<open>Clone\<close> (\<open>clone_list\<close> of \<open>src/mid/dispatcher.c\<close>): copies of lists, which are the list itself for
    every parsed and filled tree.
  \<^item> \<open>Globbing\<close>, \<open>Arith\<close>, \<open>Expand\<close> (\<open>src/mid/expand.c\<close>): the matchers of names and of \<open>case\<close>, the
    evaluator of \<open>$((...))\<close> against the value of an expression tree, the expansion of words.
  \<^item> \<open>Slots\<close>, \<open>Alias\<close>, \<open>ShellVars\<close>, \<open>Jobs\<close>, \<open>History\<close> (\<open>src/mid/alias.c\<close>,
    \<open>src/foundation/env.c\<close>, \<open>src/foundation/job.c\<close>, \<open>src/mid/hist_expand.c\<close>,
    \<open>src/mid/dirstack.c\<close>, \<open>src/mid/ui_port.c\<close>): the tables, with the
    laws of a keyed table in \<open>Slots\<close>.
  \<^item> \<open>Shell\<close>: the globals of all components as one record, the record \<open>sys\<close> of what is asked of the
    operating system, and the results of a run: a value and a state, an exit, too few steps, or
    undefined behaviour of the C code (signed overflow in arithmetic).
  \<^item> \<open>Process\<close> (\<open>src/foundation/process.c\<close>), \<open>Traps\<close>, \<open>Signals\<close>, \<open>Builtins\<close>, \<open>Dispatch\<close>, \<open>Reports\<close>
    (\<open>src/mid/dispatcher.c\<close>), \<open>Source\<close> (\<open>src/mid/source.c\<close>, \<open>src/foundation/rc_trust.c\<close>):
    running things. \<open>Signals\<close> has the dispositions of the kernel behind the traps.
  \<^item> \<open>Frames\<close>, \<open>Fuel\<close>, \<open>Statuses\<close>, \<open>Semantics\<close>, \<open>TrapProps\<close>, \<open>Failures\<close>: what holds of every run: the
    counters and local values that a list gives back, that more steps change nothing, that a
    status is a byte, what lists and compound commands mean, printed traps, failed redirections.
  \<^item> \<open>Startup\<close> (\<open>src/mid/prompt.c\<close>, \<open>src/foundation/xdg_paths.c\<close>), \<open>Repl\<close> (\<open>src/main.c\<close>),
    \<open>Highlight\<close>, \<open>Complete\<close> (\<open>src/front\<close>): the prompt and the loop around it.
  \<^item> \<open>Pudo\<close> (\<open>src/mid/pudo.c\<close>), \<open>Pudod\<close> (\<open>src/pudod\<close>), \<open>Plugins\<close>
    (\<open>src/foundation/plugin_load.c\<close>): what may run with which rights.
  \<^item> \<open>Inventory\<close>, \<open>Wai\<close>, \<open>Netcom\<close> (\<open>src/mid/wai.c\<close>, \<open>src/mid/netcom.c\<close>): the inventories of the
    machine and of the network.
  \<^item> \<open>Transfers\<close> (\<open>src/mid/expand.c\<close>, \<open>src/foundation/process.c\<close>,
    \<open>src/foundation/plugin_load.c\<close>): loops over \<open>read\<close> and \<open>write\<close> and the growth of a buffer.
  \<^item> \<open>Config\<close>, \<open>Configsh\<close> (\<open>src/cxx\<close>): the configuration file and the program around it.

  \<^bold>\<open>Interfaces.\<close>  \<open>keyed_table\<close> and \<open>keyed_store\<close> (interpreted by the environment, the functions
  and the aliases); \<open>glob_matcher\<close> (by both matchers); \<open>sub_parser\<close> (what the compound parsers need of
  the list parser, by the list parser itself); \<open>frame_keeper\<close>, \<open>byte_keeper\<close> and \<open>more_fuel\<close> (what
  every part of the dispatcher needs of the dispatcher of nested lists, by \<open>dispatch_list\<close>);
  \<open>entry_scan\<close> (a walk over the entries of a directory, by the eight scans).

  \<^bold>\<open>Bounds and steps.\<close>  The list parser recurses with a depth; the length of the line plus one is
  shown to suffice.  \<open>dispatch_list\<close> takes a number of steps that bounds the nesting of lists,
  calls and substitutions and the rounds of one \<open>while\<close>: a shell script need not end, so there is
  no number for all lists, but a run that does not end in \<open>No_Fuel\<close> is the same with more steps.
  Other loops are shown to end by a measure, or recurse over the entries they read.

  \<^bold>\<open>Parameters.\<close>  The operating system (files, directories, what programs do, wait statuses,
  signals that come in, the answers of \<open>realpath\<close> and \<open>stat\<close>, netlink), the dynamic linker and
  the digest of OpenSSL, the line editor with its history, and the keyboard of the configuration
  program.  Properties that rely on more than their type say so: \<open>byte_system\<close> (statuses from
  outside are bytes), \<open>realpath_bounded\<close> (a resolved path fits its buffer), each with a witness.

  \<^bold>\<open>Not modelled.\<close>  Allocation failures; text on standard error and in the system log, tracing with
  \<open>set -x\<close>; terminal control, process groups and signal masks around children; the interleaving of
  the processes of a pipeline and of background jobs, which are the system's; the buffering of
  standard input; the assembly routines of \<open>src/asm\<close>, for which the portable C versions are
  taken; the translation of messages (\<open>src/foundation/i18n.c\<close>), which are in English here; the
  vendored line editor; freeing memory, since values are not shared.
\<close>

end
